(* ===== verification/Prelude.thy ===== *)
theory Prelude
  imports Main "HOL-Library.Word" "HOL-Library.Multiset"
begin

text \<open>
  Shared vocabulary of the development: the collections of facts that the component theories
  add to, the type synonyms for the machine integers of the program, and the generic lemmas on
  lists and bounded buffers that more than one component uses.
\<close>

named_theorems buf_simps \<open>lengths of texts that were written into a bounded buffer\<close>
named_theorems inv_intros \<open>introduction rules for the invariants of the components\<close>

type_synonym u32 = "32 word"
type_synonym u64 = "64 word"

text \<open>An absent key of a lookup, and the position of the first element that satisfies a test.\<close>

fun find_index :: "('a \<Rightarrow> bool) \<Rightarrow> 'a list \<Rightarrow> nat option" where
  "find_index p [] = None"
| "find_index p (x # xs) = (if p x then Some 0 else map_option Suc (find_index p xs))"

lemma find_index_Some:
  "find_index p xs = Some i \<Longrightarrow> i < length xs \<and> p (xs ! i) \<and> (\<forall>j<i. \<not> p (xs ! j))"
proof (induction xs arbitrary: i)
  case (Cons x xs)
  then show ?case
    by (cases i) (auto split: if_splits simp: nth_Cons' less_Suc_eq_0_disj)
qed simp

lemma find_index_None: "find_index p xs = None \<longleftrightarrow> (\<forall>x\<in>set xs. \<not> p x)"
  by (induction xs) auto

lemma find_Some_set: "List.find p xs = Some x \<Longrightarrow> x \<in> set xs \<and> p x"
  by (auto simp: find_Some_iff)

lemma find_first: "List.find p (xs @ x # ys) = Some x" if "p x" "\<forall>y\<in>set xs. \<not> p y"
  using that by (induction xs) auto

text \<open>Folding a step that keeps an invariant.\<close>

lemma foldl_invariant:
  assumes "P s" and "\<And>s x. P s \<Longrightarrow> x \<in> set xs \<Longrightarrow> P (f s x)"
  shows "P (foldl f s xs)"
  using assms by (induction xs arbitrary: s) auto

lemma fold_invariant_weak:
  assumes "P s" and "\<And>s x. P s \<Longrightarrow> P (f x s)"
  shows "P (fold f xs s)"
  using assms by (induction xs arbitrary: s) auto

text \<open>The last \<open>n\<close> elements of a list: what a bounded history keeps.\<close>

definition lastn :: "nat \<Rightarrow> 'a list \<Rightarrow> 'a list" where
  "lastn n xs = drop (length xs - n) xs"

lemma lastn_all [simp]: "length xs \<le> n \<Longrightarrow> lastn n xs = xs"
  by (simp add: lastn_def)

lemma length_lastn [simp]: "length (lastn n xs) = min n (length xs)"
  by (simp add: lastn_def)

lemma lastn_snoc: "0 < n \<Longrightarrow> lastn n (xs @ [x]) = lastn (n - 1) xs @ [x]"
  by (cases n) (simp_all add: lastn_def)

lemma lastn_lastn: "m \<le> n \<Longrightarrow> lastn m (lastn n xs) = lastn m xs"
proof -
  assume "m \<le> n"
  then have "(length xs - (length xs - n) - m) + (length xs - n) = length xs - m" by arith
  then show ?thesis by (simp add: lastn_def)
qed

lemma tl_lastn: "n \<le> length xs \<Longrightarrow> tl (lastn n xs) = lastn (n - 1) xs"
proof -
  assume "n \<le> length xs"
  then show ?thesis
    by (cases n) (simp_all add: lastn_def tl_drop drop_Suc [symmetric] Suc_diff_Suc flip: drop_Suc)
qed

lemma take_map_nth: "n \<le> length xs \<Longrightarrow> map ((!) xs) [0..<n] = take n xs"
  by (rule nth_equalityI) auto

text \<open>Splitting a text at the first character of a class.\<close>

lemma takeWhile_hit: "takeWhile P (xs @ x # ys) = xs" if "\<forall>c\<in>set xs. P c" "\<not> P x"
  using that by (induction xs) auto

lemma dropWhile_hit: "dropWhile P (xs @ x # ys) = x # ys" if "\<forall>c\<in>set xs. P c" "\<not> P x"
  using that by (induction xs) auto

lemma takeWhile_full: "takeWhile P xs = xs" if "\<forall>c\<in>set xs. P c"
  using that by (induction xs) auto

lemma dropWhile_full: "dropWhile P xs = []" if "\<forall>c\<in>set xs. P c"
  using that by (induction xs) auto

lemma takeWhile_not_in: "x \<notin> set (takeWhile (\<lambda>c. c \<noteq> x) xs)"
  using set_takeWhileD by fastforce

lemma set_takeWhile_all: "\<forall>c\<in>set (takeWhile P xs). P c"
  by (induction xs) auto

lemma in_set_takeI: "x \<in> set (take n xs) \<Longrightarrow> x \<in> set xs"
  by (rule in_set_takeD)

text \<open>The distinct elements of a list, each at its first position.\<close>

definition dedup_first :: "'a list \<Rightarrow> 'a list" where
  "dedup_first xs = rev (remdups (rev xs))"

lemma dedup_first_Nil [simp]: "dedup_first [] = []"
  by (simp add: dedup_first_def)

lemma dedup_first_snoc: "dedup_first (xs @ [x]) = (if x \<in> set xs then dedup_first xs else dedup_first xs @ [x])"
  by (simp add: dedup_first_def)

lemma set_dedup_first [simp]: "set (dedup_first xs) = set xs"
  by (simp add: dedup_first_def)

lemma distinct_dedup_first: "distinct (dedup_first xs)"
  by (simp add: dedup_first_def)

text \<open>A table of at most \<open>n\<close> distinct entries, extended by one.\<close>

lemma dedup_take_step:
  assumes "ys = take n (dedup_first seen)"
  shows "(if x \<in> set ys then ys else if length ys < n then ys @ [x] else ys) = take n (dedup_first (seen @ [x]))"
proof (cases "length (dedup_first seen) < n")
  case True
  with assms show ?thesis by (simp add: dedup_first_snoc)
next
  case False
  with assms show ?thesis by (simp add: dedup_first_snoc)
qed

end
