(* ===== verification/CLib.thy ===== *)
theory CLib
  imports Prelude
begin

text \<open>
  The part of the C library that the program uses, as executable functions on texts. A C string
  is the list of its characters before the terminating NUL; a buffer of \<open>n\<close> bytes holds a text
  of at most \<open>n - 1\<close> characters, and \<open>fit n s\<close> is what \<open>snprintf(buf, n, "%s", s)\<close> leaves in it.
  Conversions of numbers follow the 64-bit Linux library: \<open>long\<close> and \<open>unsigned long\<close> have 64 bits,
  \<open>strtol\<close> and \<open>strtoul\<close> saturate, and a store to a narrower type keeps the low bits.
\<close>

section \<open>Characters\<close>

definition char_code :: "char \<Rightarrow> nat" where
  "char_code c = of_char c"

definition c_isdigit :: "char \<Rightarrow> bool" where
  "c_isdigit c \<longleftrightarrow> 48 \<le> char_code c \<and> char_code c \<le> 57"

definition c_isupper :: "char \<Rightarrow> bool" where
  "c_isupper c \<longleftrightarrow> 65 \<le> char_code c \<and> char_code c \<le> 90"

definition c_islower :: "char \<Rightarrow> bool" where
  "c_islower c \<longleftrightarrow> 97 \<le> char_code c \<and> char_code c \<le> 122"

definition c_isalnum :: "char \<Rightarrow> bool" where
  "c_isalnum c \<longleftrightarrow> c_isdigit c \<or> c_isupper c \<or> c_islower c"

definition c_isspace :: "char \<Rightarrow> bool" where
  "c_isspace c \<longleftrightarrow> (9 \<le> char_code c \<and> char_code c \<le> 13) \<or> char_code c = 32"

definition c_isxdigit :: "char \<Rightarrow> bool" where
  "c_isxdigit c \<longleftrightarrow> c_isdigit c \<or> (65 \<le> char_code c \<and> char_code c \<le> 70)
                  \<or> (97 \<le> char_code c \<and> char_code c \<le> 102)"

definition c_tolower :: "char \<Rightarrow> char" where
  "c_tolower c = (if c_isupper c then char_of (char_code c + 32) else c)"

definition digit_val :: "char \<Rightarrow> nat" where
  "digit_val c = char_code c - 48"

definition xdigit_val :: "char \<Rightarrow> nat" where
  "xdigit_val c = (if c_isdigit c then char_code c - 48
                   else if c_isupper c then char_code c - 55 else char_code c - 87)"

definition digit_char :: "nat \<Rightarrow> char" where
  "digit_char n = char_of (48 + n)"

text \<open>\<open>%X\<close> of a value below 16.\<close>

definition xdigit_char :: "nat \<Rightarrow> char" where
  "xdigit_char n = (if n < 10 then char_of (48 + n) else char_of (55 + n))"

abbreviation nl :: char where "nl \<equiv> CHR 0x0A"
abbreviation cr :: char where "cr \<equiv> CHR 0x0D"
abbreviation tab :: char where "tab \<equiv> CHR 0x09"

named_theorems char_simps \<open>definitions of the character classes, to evaluate them\<close>

declare char_code_def [char_simps] c_isdigit_def [char_simps] c_isupper_def [char_simps]
  c_islower_def [char_simps] c_isalnum_def [char_simps] c_isspace_def [char_simps]
  c_isxdigit_def [char_simps] c_tolower_def [char_simps] digit_val_def [char_simps]
  xdigit_val_def [char_simps] digit_char_def [char_simps] xdigit_char_def [char_simps]

lemma char_code_bound: "char_code c < 256"
  by (simp add: char_code_def)

lemma char_code_char_of [simp]: "n < 256 \<Longrightarrow> char_code (char_of n) = n"
  by (simp add: char_code_def)

lemma char_code_inject [simp]: "char_code a = char_code b \<longleftrightarrow> a = b"
  by (simp add: char_code_def)

lemma digit_val_digit_char [simp]: "n < 10 \<Longrightarrow> digit_val (digit_char n) = n"
  by (simp add: digit_val_def digit_char_def)

lemma digit_char_numerals: "digit_char 0 = CHR ''0''" "digit_char 1 = CHR ''1''" "digit_char (Suc 0) = CHR ''1''"
  "digit_char 2 = CHR ''2''" "digit_char 3 = CHR ''3''" "digit_char 4 = CHR ''4''" "digit_char 5 = CHR ''5''"
  "digit_char 6 = CHR ''6''" "digit_char 7 = CHR ''7''" "digit_char 8 = CHR ''8''" "digit_char 9 = CHR ''9''"
  by code_simp+

lemma c_isdigit_digit_char [simp]: "n < 10 \<Longrightarrow> c_isdigit (digit_char n)"
  by (simp add: c_isdigit_def digit_char_def)

lemma xdigit_val_xdigit_char [simp]: "n < 16 \<Longrightarrow> xdigit_val (xdigit_char n) = n"
  by (auto simp: xdigit_val_def xdigit_char_def c_isdigit_def c_isupper_def)

lemma c_isxdigit_xdigit_char [simp]: "n < 16 \<Longrightarrow> c_isxdigit (xdigit_char n)"
  by (auto simp: c_isxdigit_def xdigit_char_def c_isdigit_def)

lemma c_isdigit_not_space: "c_isdigit c \<Longrightarrow> \<not> c_isspace c"
  by (auto simp: c_isdigit_def c_isspace_def)

lemma c_isxdigit_not_space: "c_isxdigit c \<Longrightarrow> \<not> c_isspace c"
  by (auto simp: c_isdigit_def c_isspace_def c_isxdigit_def)

lemma c_isdigit_not_sign: "c_isdigit c \<Longrightarrow> c \<noteq> CHR ''-'' \<and> c \<noteq> CHR ''+''"
  by (auto simp: c_isdigit_def char_code_def)

lemma c_isxdigit_not_sign: "c_isxdigit c \<Longrightarrow> c \<noteq> CHR ''-'' \<and> c \<noteq> CHR ''+''"
  by (auto simp: c_isdigit_def char_code_def c_isxdigit_def)

section \<open>Bounded buffers\<close>

text \<open>\<open>snprintf(buf, n, "%s", s)\<close> for \<open>0 < n\<close>, and the precision \<open>%.Ns\<close> is \<open>take N\<close>.\<close>

definition fit :: "nat \<Rightarrow> string \<Rightarrow> string" where
  "fit n s = take (n - 1) s"

lemma fit_id [simp]: "length s < n \<Longrightarrow> fit n s = s"
  by (simp add: fit_def)

lemma length_fit [buf_simps]: "0 < n \<Longrightarrow> length (fit n s) < n"
  by (simp add: fit_def)

lemma fit_fit [simp]: "fit n (fit n s) = fit n s"
  by (simp add: fit_def)

lemma fit_Nil [simp]: "fit n [] = []"
  by (simp add: fit_def)

lemma fit_Nil_iff: "1 < n \<Longrightarrow> fit n s = [] \<longleftrightarrow> s = []"
  by (auto simp: fit_def)

text \<open>Writing to a destination that may be absent or empty: \<open>if (buf && n > 0) snprintf(buf, n, "%s", s)\<close>.\<close>

definition put_buf :: "string option \<Rightarrow> nat \<Rightarrow> string \<Rightarrow> string option" where
  "put_buf buf n s = (case buf of None \<Rightarrow> None | Some old \<Rightarrow> if 0 < n then Some (fit n s) else Some old)"

lemma put_buf_None [simp]: "put_buf None n s = None"
  by (simp add: put_buf_def)

lemma put_buf_Some [simp]: "0 < n \<Longrightarrow> put_buf (Some old) n s = Some (fit n s)"
  by (simp add: put_buf_def)

lemma put_buf_put_buf [simp]: "put_buf (put_buf b n s) n t = put_buf b n t"
  by (simp add: put_buf_def split: option.splits)

text \<open>\<open>strncat(dst, src, n - strlen(dst) - 1)\<close> on a buffer of \<open>n\<close> bytes.\<close>

definition cat_fit :: "nat \<Rightarrow> string \<Rightarrow> string \<Rightarrow> string" where
  "cat_fit n dst src = dst @ take (n - length dst - 1) src"

lemma length_cat_fit [buf_simps]: "length dst < n \<Longrightarrow> length (cat_fit n dst src) < n"
  by (simp add: cat_fit_def)

text \<open>The paddings \<open>%-Ns\<close> and \<open>%Ns\<close>.\<close>

definition pad_right :: "nat \<Rightarrow> string \<Rightarrow> string" where
  "pad_right n s = s @ replicate (n - length s) CHR '' ''"

definition pad_left :: "nat \<Rightarrow> string \<Rightarrow> string" where
  "pad_left n s = replicate (n - length s) CHR '' '' @ s"

lemma length_pad [simp]:
  "length (pad_right n s) = max n (length s)" "length (pad_left n s) = max n (length s)"
  by (simp_all add: pad_right_def pad_left_def)

section \<open>Numbers in decimal\<close>

fun show_nat :: "nat \<Rightarrow> string" where
  "show_nat n = (if n < 10 then [digit_char n]
                 else show_nat (n div 10) @ [digit_char (n mod 10)])"

declare show_nat.simps [simp del]

definition show_int :: "int \<Rightarrow> string" where
  "show_int i = (if i < 0 then CHR ''-'' # show_nat (nat (- i)) else show_nat (nat i))"

definition show_u32 :: "u32 \<Rightarrow> string" where
  "show_u32 w = show_nat (unat w)"

definition show_u64 :: "u64 \<Rightarrow> string" where
  "show_u64 w = show_nat (unat w)"

definition dec_val :: "string \<Rightarrow> nat" where
  "dec_val s = foldl (\<lambda>a c. 10 * a + digit_val c) 0 s"

definition hex_val :: "string \<Rightarrow> nat" where
  "hex_val s = foldl (\<lambda>a c. 16 * a + xdigit_val c) 0 s"

lemma dec_val_Nil [simp]: "dec_val [] = 0"
  by (simp add: dec_val_def)

lemma dec_val_snoc [simp]: "dec_val (s @ [c]) = 10 * dec_val s + digit_val c"
  by (simp add: dec_val_def)

lemma hex_val_Nil [simp]: "hex_val [] = 0"
  by (simp add: hex_val_def)

lemma hex_val_snoc [simp]: "hex_val (s @ [c]) = 16 * hex_val s + xdigit_val c"
  by (simp add: hex_val_def)

lemma show_nat_digits: "\<forall>c\<in>set (show_nat n). c_isdigit c"
proof (induction n rule: show_nat.induct)
  case (1 n)
  then show ?case by (subst show_nat.simps) auto
qed

lemma show_nat_nonempty [simp]: "show_nat n \<noteq> []"
  by (subst show_nat.simps) simp

lemma dec_val_show_nat [simp]: "dec_val (show_nat n) = n"
proof (induction n rule: show_nat.induct)
  case (1 n)
  show ?case
  proof (cases "n < 10")
    case True
    then show ?thesis using dec_val_snoc [of "[]"] by (simp add: show_nat.simps [of n])
  next
    case False
    with 1 show ?thesis by (simp add: show_nat.simps [of n])
  qed
qed

lemma show_nat_inject [simp]: "show_nat m = show_nat n \<longleftrightarrow> m = n"
  by (metis dec_val_show_nat)

lemma length_show_nat: "n < 10 ^ k \<Longrightarrow> 0 < k \<Longrightarrow> length (show_nat n) \<le> k"
proof (induction k arbitrary: n)
  case (Suc k)
  show ?case
  proof (cases "n < 10")
    case True
    then show ?thesis by (simp add: show_nat.simps [of n])
  next
    case False
    with Suc.prems have "n div 10 < 10 ^ k" and "0 < k"
      by (cases k; simp add: less_mult_imp_div_less mult.commute)+
    with Suc.IH [of "n div 10"] False show ?thesis by (simp add: show_nat.simps [of n])
  qed
qed simp

end
