(* ===== verification/CText.thy ===== *)
theory CText
  imports CLib
begin

text \<open>
  Texts in the C library: \<open>strtol\<close>, \<open>atoi\<close>, \<open>strcasecmp\<close>, \<open>strtok\<close>, the searches for a
  character, \<open>strstr\<close>, and the reading of a file line by line with \<open>fgets\<close>.
\<close>

section \<open>strtol and atoi\<close>

definition long_max :: int where "long_max = 2 ^ 63 - 1"
definition long_min :: int where "long_min = - (2 ^ 63)"
definition ulong_max :: int where "ulong_max = 2 ^ 64 - 1"

definition clamp_long :: "int \<Rightarrow> int" where
  "clamp_long v = (if v < long_min then long_min else if long_max < v then long_max else v)"

text \<open>The optional sign: whether it is a minus, and what follows.\<close>

fun split_sign :: "string \<Rightarrow> bool \<times> string" where
  "split_sign [] = (False, [])"
| "split_sign (c # s) = (if c = CHR ''-'' then (True, s)
                         else if c = CHR ''+'' then (False, s) else (False, c # s))"

text \<open>
  \<open>strtol(s, &end, 10)\<close>: the value, the text at \<open>end\<close>, and whether \<open>errno\<close> is set to
  \<open>ERANGE\<close>. Without digits the value is 0 and \<open>end\<close> is \<open>s\<close>.
\<close>

definition c_strtol :: "string \<Rightarrow> int \<times> string \<times> bool" where
  "c_strtol s =
     (let (neg, body) = split_sign (dropWhile c_isspace s);
          ds = takeWhile c_isdigit body;
          v = (if neg then - int (dec_val ds) else int (dec_val ds))
      in if ds = [] then (0, s, False)
         else (clamp_long v, dropWhile c_isdigit body, v < long_min \<or> long_max < v))"

text \<open>A conversion from \<open>long\<close> to \<open>int\<close> keeps the low 32 bits.\<close>

definition to_int32 :: "int \<Rightarrow> int" where
  "to_int32 v = sint (word_of_int v :: 32 word)"

definition c_atoi :: "string \<Rightarrow> int" where
  "c_atoi s = to_int32 (fst (c_strtol s))"

lemma to_int32_id: "- (2 ^ 31) \<le> v \<Longrightarrow> v < 2 ^ 31 \<Longrightarrow> to_int32 v = v"
  by (simp add: to_int32_def sint_sbintrunc' signed_take_bit_int_eq_self)

lemma split_sign_digit: "c_isdigit c \<Longrightarrow> split_sign (c # s) = (False, c # s)"
  using c_isdigit_not_sign by auto

lemma c_strtol_show_nat:
  assumes "int n \<le> long_max" and "r = [] \<or> \<not> c_isdigit (hd r)"
  shows "c_strtol (show_nat n @ r) = (int n, r, False)"
proof -
  obtain c t where s: "show_nat n = c # t" by (cases "show_nat n") auto
  have c: "c_isdigit c" using show_nat_digits [of n] s by simp
  have "dropWhile c_isspace (show_nat n @ r) = show_nat n @ r"
    using s c_isdigit_not_space [OF c] by simp
  moreover have "split_sign (show_nat n @ r) = (False, show_nat n @ r)"
    using s split_sign_digit [OF c] by simp
  moreover have "takeWhile c_isdigit (show_nat n @ r) = show_nat n"
    using assms(2) show_nat_digits by (cases r) (auto simp: takeWhile_hit takeWhile_full)
  moreover have "dropWhile c_isdigit (show_nat n @ r) = r"
    using assms(2) show_nat_digits by (cases r) (auto simp: dropWhile_hit dropWhile_full)
  ultimately show ?thesis
    using assms(1) by (simp add: c_strtol_def clamp_long_def long_min_def)
qed

section \<open>Comparison, search and tokens\<close>

text \<open>\<open>strcasecmp(a, b) == 0\<close>\<close>

definition c_strcaseeq :: "string \<Rightarrow> string \<Rightarrow> bool" where
  "c_strcaseeq a b \<longleftrightarrow> map c_tolower a = map c_tolower b"

text \<open>The sign of \<open>strcmp\<close>: bytes compare as unsigned characters.\<close>

fun c_strcmp :: "string \<Rightarrow> string \<Rightarrow> int" where
  "c_strcmp [] [] = 0"
| "c_strcmp [] (_ # _) = -1"
| "c_strcmp (_ # _) [] = 1"
| "c_strcmp (a # as) (b # bs) =
     (if char_code a < char_code b then -1 else if char_code b < char_code a then 1
      else c_strcmp as bs)"

lemma c_strcmp_0 [simp]: "c_strcmp a b = 0 \<longleftrightarrow> a = b"
proof (induction a b rule: c_strcmp.induct)
  case (4 a as b bs)
  consider "char_code a < char_code b" | "a = b" | "char_code b < char_code a"
    by (meson char_code_inject linorder_neqE_nat)
  then show ?case
    by cases (use 4 in auto)
qed auto

lemma c_strcmp_refl [simp]: "c_strcmp a a = 0"
  by simp

lemma c_strcmp_swap: "c_strcmp b a = - c_strcmp a b"
  by (induction a b rule: c_strcmp.induct) auto

lemma c_strcmp_trans: "c_strcmp a b \<le> 0 \<Longrightarrow> c_strcmp b c \<le> 0 \<Longrightarrow> c_strcmp a c \<le> 0"
proof (induction a b arbitrary: c rule: c_strcmp.induct)
  case (1 c)
  then show ?case by simp
next
  case (2 b bs)
  then show ?case by (cases c) auto
next
  case (4 a as b bs)
  show ?case
  proof (cases c)
    case Nil
    with "4.prems" show ?thesis by simp
  next
    case (Cons d ds)
    consider "char_code a < char_code b" | "char_code a = char_code b" | "char_code b < char_code a"
      by linarith
    then show ?thesis
    proof cases
      case 2
      then have "a = b" by simp
      with 4 Cons show ?thesis by (auto split: if_splits)
    qed (use "4.prems" Cons in \<open>auto split: if_splits\<close>)
  qed
qed simp

text \<open>\<open>strrchr(s, c)\<close>: the text before and the text after the last \<open>c\<close>.\<close>

definition split_last :: "char \<Rightarrow> string \<Rightarrow> (string \<times> string) option" where
  "split_last c s =
     (if c \<in> set s
      then Some (rev (drop 1 (dropWhile (\<lambda>x. x \<noteq> c) (rev s))), rev (takeWhile (\<lambda>x. x \<noteq> c) (rev s)))
      else None)"

text \<open>\<open>strchr(s, c)\<close>, in the same form.\<close>

definition split_first :: "char \<Rightarrow> string \<Rightarrow> (string \<times> string) option" where
  "split_first c s =
     (if c \<in> set s
      then Some (takeWhile (\<lambda>x. x \<noteq> c) s, drop 1 (dropWhile (\<lambda>x. x \<noteq> c) s)) else None)"

lemma split_last_app: "c \<notin> set b \<Longrightarrow> split_last c (a @ c # b) = Some (a, b)"
  by (subst split_last_def, simp, subst takeWhile_hit, force, simp, subst dropWhile_hit) auto

lemma split_first_app: "c \<notin> set a \<Longrightarrow> split_first c (a @ c # b) = Some (a, b)"
  by (subst split_first_def, simp, subst takeWhile_hit, force, simp, subst dropWhile_hit) auto

lemma split_last_None: "split_last c s = None \<longleftrightarrow> c \<notin> set s"
  by (simp add: split_last_def)

lemma split_first_None: "split_first c s = None \<longleftrightarrow> c \<notin> set s"
  by (simp add: split_first_def)

lemma split_last_Some: "split_last c s = Some (a, b) \<Longrightarrow> s = a @ c # b \<and> c \<notin> set b"
  by (metis option.inject prod.inject split_last_app split_last_None split_list_last option.distinct(1))

lemma split_first_Some: "split_first c s = Some (a, b) \<Longrightarrow> s = a @ c # b \<and> c \<notin> set a"
  by (metis option.inject prod.inject split_first_app split_first_None split_list_first option.distinct(1))

text \<open>\<open>strncmp(s, p, strlen(p)) == 0\<close> and \<open>strstr(s, p) != NULL\<close>.\<close>

definition starts_with :: "string \<Rightarrow> string \<Rightarrow> bool" where
  "starts_with p s \<longleftrightarrow> take (length p) s = p"

fun c_strstr :: "string \<Rightarrow> string \<Rightarrow> string option" where
  "c_strstr [] p = (if p = [] then Some [] else None)"
| "c_strstr (c # s) p = (if starts_with p (c # s) then Some (c # s) else c_strstr s p)"

text \<open>One call of \<open>strtok\<close>: the next token and the text it continues from.\<close>

definition c_strtok :: "char list \<Rightarrow> string \<Rightarrow> (string \<times> string) option" where
  "c_strtok delims s =
     (let t = dropWhile (\<lambda>c. c \<in> set delims) s
      in if t = [] then None
         else Some (takeWhile (\<lambda>c. c \<notin> set delims) t, drop 1 (dropWhile (\<lambda>c. c \<notin> set delims) t)))"

lemma c_strtok_shorter: "c_strtok ds s = Some (tok, r) \<Longrightarrow> length r < length s"
proof -
  assume a: "c_strtok ds s = Some (tok, r)"
  define t where "t = dropWhile (\<lambda>c. c \<in> set ds) s"
  from a have ne: "t \<noteq> []" and r: "r = drop 1 (dropWhile (\<lambda>c. c \<notin> set ds) t)"
    by (auto simp: c_strtok_def t_def Let_def split: if_splits)
  have "length (dropWhile (\<lambda>c. c \<notin> set ds) t) \<le> length t" by (rule length_dropWhile_le)
  moreover have "length t \<le> length s" unfolding t_def by (rule length_dropWhile_le)
  moreover have "0 < length t" using ne by simp
  moreover have "length r = length (dropWhile (\<lambda>c. c \<notin> set ds) t) - 1" using r by simp
  ultimately show ?thesis by linarith
qed

text \<open>All tokens, as a loop of \<open>strtok(NULL, delims)\<close> sees them.\<close>

function c_tokens :: "char list \<Rightarrow> string \<Rightarrow> string list" where
  "c_tokens ds s = (case c_strtok ds s of None \<Rightarrow> [] | Some (tok, r) \<Rightarrow> tok # c_tokens ds r)"
  by pat_completeness auto
termination
  by (relation "measure (\<lambda>(ds, s). length s)") (auto dest: c_strtok_shorter)

declare c_tokens.simps [simp del]

lemma c_strtok_tok: "c_strtok ds s = Some (tok, r) \<Longrightarrow> tok \<noteq> [] \<and> set tok \<inter> set ds = {} \<and> set tok \<subseteq> set s"
proof -
  assume a: "c_strtok ds s = Some (tok, r)"
  define t where "t = dropWhile (\<lambda>c. c \<in> set ds) s"
  from a have ne: "t \<noteq> []" and tok: "tok = takeWhile (\<lambda>c. c \<notin> set ds) t"
    by (auto simp: c_strtok_def t_def Let_def split: if_splits)
  have "hd t \<notin> set ds" using ne hd_dropWhile [of "\<lambda>c. c \<in> set ds" s] by (simp add: t_def)
  then have "tok \<noteq> []" using ne tok by (cases t) auto
  moreover have "set tok \<inter> set ds = {}" using tok by (auto dest: set_takeWhileD)
  moreover have "set tok \<subseteq> set s"
    using tok by (auto simp: t_def dest!: set_takeWhileD set_dropWhileD)
  ultimately show ?thesis by blast
qed

section \<open>Reading a file by lines\<close>

text \<open>
  \<open>fgets(buf, n, fp)\<close>: at most \<open>n - 1\<close> characters, up to and with the first newline. \<open>None\<close>
  is the end of the file. The model reads text files: a file holds no NUL byte.
\<close>

definition c_fgets :: "nat \<Rightarrow> string \<Rightarrow> (string \<times> string) option" where
  "c_fgets n s =
     (if s = [] then None
      else let body = takeWhile (\<lambda>c. c \<noteq> nl) s;
               k = min (n - 1) (length body + (if nl \<in> set s then 1 else 0))
           in Some (take k s, drop k s))"

text \<open>All reads of a loop \<open>while (fgets(buf, n, fp))\<close> with a buffer of \<open>n\<close> bytes, \<open>1 < n\<close>.\<close>

function c_lines :: "nat \<Rightarrow> string \<Rightarrow> string list" where
  "c_lines n s = (if n \<le> 1 then [] else
     (case c_fgets n s of None \<Rightarrow> [] | Some (l, r) \<Rightarrow> l # c_lines n r))"
  by pat_completeness auto
termination
proof (relation "measure (\<lambda>(n, s). length s)", goal_cases)
  case (2 n s p l r)
  then have "s \<noteq> []" and "1 < n" by (auto simp: c_fgets_def)
  then have "0 < min (n - 1) (length (takeWhile (\<lambda>c. c \<noteq> nl) s) + (if nl \<in> set s then 1 else 0))"
    by (cases s) auto
  with 2 \<open>s \<noteq> []\<close> show ?case by (auto simp: c_fgets_def Let_def)
qed simp

declare c_lines.simps [simp del]

lemma c_lines_concat: "1 < n \<Longrightarrow> concat (c_lines n s) = s"
proof (induction n s rule: c_lines.induct)
  case (1 n s)
  show ?case
  proof (cases "c_fgets n s")
    case None
    with 1 show ?thesis by (simp add: c_lines.simps [of n s] c_fgets_def Let_def split: if_splits)
  next
    case (Some p)
    then obtain l r where p: "p = (l, r)" by (cases p)
    with 1 Some have "concat (c_lines n s) = l @ r" by (simp add: c_lines.simps [of n s])
    also have "\<dots> = s" using Some p by (auto simp: c_fgets_def Let_def split: if_splits)
    finally show ?thesis .
  qed
qed

lemma c_lines_length: "\<forall>l\<in>set (c_lines n s). length l < n"
proof (induction n s rule: c_lines.induct)
  case (1 n s)
  then show ?case
    by (subst c_lines.simps) (auto simp: c_fgets_def Let_def split: option.splits if_splits)
qed

text \<open>A line that fits into the buffer is read in one piece.\<close>

lemma c_lines_line:
  assumes "nl \<notin> set l" and "length l + 1 < n"
  shows "c_lines n (l @ nl # s) = (l @ [nl]) # c_lines n s"
proof -
  have tw: "takeWhile (\<lambda>c. c \<noteq> nl) (l @ nl # s) = l"
    using assms(1) by (intro takeWhile_hit) auto
  have "min (n - 1) (length l + 1) = length l + 1" using assms(2) by simp
  then have "c_fgets n (l @ nl # s) = Some (l @ [nl], s)"
    by (simp add: c_fgets_def tw Let_def)
  then show ?thesis using assms(2) by (subst c_lines.simps) simp
qed

lemma c_lines_Nil [simp]: "c_lines n [] = []"
  by (subst c_lines.simps) (simp add: c_fgets_def)

text \<open>\<open>line[strcspn(line, "\n")] = 0\<close>\<close>

definition cut_nl :: "string \<Rightarrow> string" where
  "cut_nl s = takeWhile (\<lambda>c. c \<noteq> nl) s"

lemma length_cut_nl: "length (cut_nl s) \<le> length s"
  by (simp add: cut_nl_def length_takeWhile_le)

lemma cut_nl_line [simp]: "nl \<notin> set l \<Longrightarrow> cut_nl (l @ [nl]) = l"
  unfolding cut_nl_def by (rule takeWhile_hit) auto

end
