(* ===== verification/CScan.thy ===== *)
theory CScan
  imports CText
begin

text \<open>
  \<open>sscanf\<close> for the directives that the program's formats use, and \<open>inet_ntop\<close> for the two
  address families. A format is a list of directives; the result is the list of the values that
  were assigned before the first directive that failed, so its length is \<open>sscanf\<close>'s return value
  (the program only compares that value with the full count).
\<close>

section \<open>sscanf\<close>

datatype scan_dir =
    ScWs                              \<comment> \<open>white space in the format\<close>
  | ScLit char                        \<comment> \<open>any other character\<close>
  | ScSkipInt                         \<comment> \<open>\<open>%*d\<close>, \<open>%*u\<close>\<close>
  | ScSkipStr                         \<comment> \<open>\<open>%*s\<close>\<close>
  | ScUInt                            \<comment> \<open>\<open>%u\<close>, \<open>%lu\<close>\<close>
  | ScHex "nat option"                \<comment> \<open>\<open>%x\<close>, \<open>%X\<close>, \<open>%2X\<close>\<close>
  | ScStr nat                         \<comment> \<open>\<open>%63s\<close>\<close>
  | ScSet nat "char \<Rightarrow> bool"          \<comment> \<open>\<open>%31[^:]\<close>\<close>

datatype scan_val = ScNum int | ScText string

text \<open>\<open>strtoul\<close> on a scanned item: saturation, then negation modulo the width.\<close>

definition conv_ulong :: "bool \<Rightarrow> nat \<Rightarrow> int" where
  "conv_ulong neg v =
     (if ulong_max < int v then ulong_max
      else if neg then (- int v) mod 2 ^ 64 else int v)"

text \<open>The matched decimal item: its value and the rest of the input.\<close>

definition scan_dec :: "string \<Rightarrow> (int \<times> string) option" where
  "scan_dec s =
     (let (neg, body) = split_sign (dropWhile c_isspace s);
          ds = takeWhile c_isdigit body
      in if ds = [] then None else Some (conv_ulong neg (dec_val ds), dropWhile c_isdigit body))"

text \<open>
  The matched hexadecimal item within the width: an optional sign, an optional \<open>0x\<close> (after which
  the library takes a lone 0), then digits.
\<close>

definition hex_prefix :: "string \<Rightarrow> bool" where
  "hex_prefix s = (case s of a # b # _ \<Rightarrow> a = CHR ''0'' \<and> (b = CHR ''x'' \<or> b = CHR ''X'') | _ \<Rightarrow> False)"

definition scan_hex :: "nat option \<Rightarrow> string \<Rightarrow> (int \<times> string) option" where
  "scan_hex w s =
     (let s1 = dropWhile c_isspace s;
          win = (case w of None \<Rightarrow> s1 | Some k \<Rightarrow> take k s1);
          (neg, body) = split_sign win;
          px = hex_prefix body;
          digs = (if px then drop 2 body else body);
          ds = takeWhile c_isxdigit digs;
          used = (length win - length body) + (if px then 2 else 0) + length ds
      in if ds = [] \<and> \<not> px then None
         else Some (conv_ulong neg (hex_val ds), drop used s1))"

fun c_sscanf :: "scan_dir list \<Rightarrow> string \<Rightarrow> scan_val list" where
  "c_sscanf [] s = []"
| "c_sscanf (ScWs # fs) s = c_sscanf fs (dropWhile c_isspace s)"
| "c_sscanf (ScLit c # fs) s = (case s of [] \<Rightarrow> [] | x # t \<Rightarrow> if x = c then c_sscanf fs t else [])"
| "c_sscanf (ScSkipInt # fs) s = (case scan_dec s of None \<Rightarrow> [] | Some (_, t) \<Rightarrow> c_sscanf fs t)"
| "c_sscanf (ScSkipStr # fs) s =
     (let t = dropWhile c_isspace s
      in if t = [] then [] else c_sscanf fs (dropWhile (\<lambda>c. \<not> c_isspace c) t))"
| "c_sscanf (ScUInt # fs) s =
     (case scan_dec s of None \<Rightarrow> [] | Some (v, t) \<Rightarrow> ScNum v # c_sscanf fs t)"
| "c_sscanf (ScHex w # fs) s =
     (case scan_hex w s of None \<Rightarrow> [] | Some (v, t) \<Rightarrow> ScNum v # c_sscanf fs t)"
| "c_sscanf (ScStr w # fs) s =
     (let t = dropWhile c_isspace s;
          item = take w (takeWhile (\<lambda>c. \<not> c_isspace c) t)
      in if item = [] then [] else ScText item # c_sscanf fs (drop (length item) t))"
| "c_sscanf (ScSet w p # fs) s =
     (let item = take w (takeWhile p s)
      in if item = [] then [] else ScText item # c_sscanf fs (drop (length item) s))"

text \<open>The literal characters of a format.\<close>

definition sc_lits :: "string \<Rightarrow> scan_dir list" where
  "sc_lits s = map (\<lambda>c. if c_isspace c then ScWs else ScLit c) s"

text \<open>What a decimal or hexadecimal item followed by something else yields.\<close>

lemma takeWhile_stop: "\<forall>c\<in>set xs. P c \<Longrightarrow> r = [] \<or> \<not> P (hd r) \<Longrightarrow> takeWhile P (xs @ r) = xs"
  by (cases r) (auto simp: takeWhile_hit takeWhile_full)

lemma dropWhile_stop: "\<forall>c\<in>set xs. P c \<Longrightarrow> r = [] \<or> \<not> P (hd r) \<Longrightarrow> dropWhile P (xs @ r) = r"
  by (cases r) (auto simp: dropWhile_hit dropWhile_full)

lemma scan_dec_show_nat:
  assumes "int n \<le> ulong_max" and "r = [] \<or> \<not> c_isdigit (hd r)" and "\<forall>c\<in>set ws. c_isspace c"
  shows "scan_dec (ws @ show_nat n @ r) = Some (int n, r)"
proof -
  obtain c t where s: "show_nat n = c # t" by (cases "show_nat n") auto
  have c: "c_isdigit c" using show_nat_digits [of n] s by simp
  have "dropWhile c_isspace (ws @ show_nat n @ r) = show_nat n @ r"
    using s c_isdigit_not_space [OF c] assms(3) by (simp add: dropWhile_stop)
  moreover have "split_sign (show_nat n @ r) = (False, show_nat n @ r)"
    using s split_sign_digit [OF c] by simp
  moreover have "takeWhile c_isdigit (show_nat n @ r) = show_nat n"
    using assms(2) show_nat_digits by (intro takeWhile_stop)
  moreover have "dropWhile c_isdigit (show_nat n @ r) = r"
    using assms(2) show_nat_digits by (intro dropWhile_stop)
  ultimately show ?thesis
    using assms(1) by (simp add: scan_dec_def conv_ulong_def Let_def)
qed

lemma split_sign_xdigit: "c_isxdigit c \<Longrightarrow> split_sign (c # s) = (False, c # s)"
  using c_isxdigit_not_sign by auto

lemma hex_prefix_xdigits: "\<forall>c\<in>set ds. c_isxdigit c \<Longrightarrow> \<not> hex_prefix ds"
  by (auto simp: hex_prefix_def c_isxdigit_def c_isdigit_def char_code_def split: list.splits)

text \<open>A window that holds exactly the digits: \<open>%2X\<close> on the bytes of an address.\<close>

lemma scan_hex_width:
  assumes "\<forall>c\<in>set ds. c_isxdigit c" and "length ds = k" and "0 < k" and "int (hex_val ds) \<le> ulong_max"
  shows "scan_hex (Some k) (ds @ r) = Some (int (hex_val ds), r)"
proof -
  obtain c t where s: "ds = c # t" using assms(2,3) by (cases ds) auto
  have c: "c_isxdigit c" using assms(1) s by simp
  have "dropWhile c_isspace (ds @ r) = ds @ r"
    using s c_isxdigit_not_space [OF c] by simp
  moreover have "split_sign ds = (False, ds)" using s split_sign_xdigit [OF c] by simp
  moreover have "take k (ds @ r) = ds" "drop k (ds @ r) = r" "ds \<noteq> []" using assms(2,3) by auto
  ultimately show ?thesis
    using assms(2-4) hex_prefix_xdigits [OF assms(1)]
    by (simp add: scan_hex_def conv_ulong_def Let_def takeWhile_full [OF assms(1)])
qed

text \<open>An item without width that ends at the end of the input.\<close>

lemma scan_hex_end:
  assumes "\<forall>c\<in>set ds. c_isxdigit c" and "ds \<noteq> []" and "int (hex_val ds) \<le> ulong_max"
  shows "scan_hex None ds = Some (int (hex_val ds), [])"
proof -
  have "scan_hex None ds = scan_hex (Some (length ds)) (ds @ [])"
  proof -
    obtain c t where s: "ds = c # t" using assms(2) by (cases ds) auto
    have "c_isxdigit c" using assms(1) s by simp
    then have "dropWhile c_isspace ds = ds" using s c_isxdigit_not_space by simp
    then show ?thesis by (simp add: scan_hex_def)
  qed
  then show ?thesis using scan_hex_width [OF assms(1) refl _ assms(3), of "[]"] assms(2) by simp
qed

section \<open>inet_ntop\<close>

text \<open>\<open>%x\<close> without padding, and \<open>%0NX\<close>.\<close>

definition xdigit_low :: "nat \<Rightarrow> char" where
  "xdigit_low n = (if n < 10 then char_of (48 + n) else char_of (87 + n))"

fun show_hex_low :: "nat \<Rightarrow> string" where
  "show_hex_low n = (if n < 16 then [xdigit_low n] else show_hex_low (n div 16) @ [xdigit_low (n mod 16)])"

declare show_hex_low.simps [simp del]

fun show_hex_fixed :: "nat \<Rightarrow> nat \<Rightarrow> string" where
  "show_hex_fixed 0 n = []"
| "show_hex_fixed (Suc k) n = show_hex_fixed k (n div 16) @ [xdigit_char (n mod 16)]"

lemma length_show_hex_fixed [simp]: "length (show_hex_fixed k n) = k"
  by (induction k arbitrary: n) auto

lemma show_hex_fixed_xdigits: "\<forall>c\<in>set (show_hex_fixed k n). c_isxdigit c"
  by (induction k arbitrary: n) auto

lemma hex_val_show_hex_fixed: "n < 16 ^ k \<Longrightarrow> hex_val (show_hex_fixed k n) = n"
proof (induction k arbitrary: n)
  case (Suc k)
  have "n div 16 < 16 ^ k" using Suc.prems by (simp add: less_mult_imp_div_less mult.commute)
  then show ?case using Suc.IH [of "n div 16"] by simp
qed simp

lemma show_hex_2: "show_hex_fixed 2 n = [xdigit_char (n div 16 mod 16), xdigit_char (n mod 16)]"
proof -
  have "show_hex_fixed (Suc (Suc 0)) n = [xdigit_char (n div 16 mod 16), xdigit_char (n mod 16)]" by simp
  then show ?thesis by (simp only: numeral_2_eq_2)
qed
lemma show_hex_add_2: "show_hex_fixed (k + 2) n = show_hex_fixed k (n div 256) @ show_hex_fixed 2 n"
proof -
  have "n div 16 div 16 = n div 256" by (simp add: div_mult2_eq [symmetric])
  then have "show_hex_fixed (Suc (Suc k)) n = show_hex_fixed k (n div 256) @ show_hex_fixed 2 n"
    by (simp only: show_hex_2 show_hex_fixed.simps append_assoc append.simps)
  then show ?thesis by simp
qed

lemma div_256: "n div 256 div 256 = n div 65536" "n div 65536 div 256 = n div 16777216" for n :: nat
  by (simp_all only: div_mult2_eq [symmetric]) simp_all

lemma show_hex_8_split:
  "show_hex_fixed 8 n = show_hex_fixed 2 (n div 16777216) @ show_hex_fixed 2 (n div 65536)
     @ show_hex_fixed 2 (n div 256) @ show_hex_fixed 2 n"
proof -
  have "8 = 2 + 2 + 2 + (2::nat)" by simp
  then show ?thesis by (simp only: show_hex_add_2 append_assoc div_256)
qed

lemma show_hex_2_mod: "show_hex_fixed 2 n = show_hex_fixed 2 (n mod 256)"
proof -
  have "n mod 256 = 16 * (n div 16 mod 16) + n mod 16" using mod_mult2_eq [of n 16 16] by simp
  then have "n mod 256 div 16 = n div 16 mod 16" "n mod 256 mod 16 = n mod 16" by simp_all
  then show ?thesis by (simp add: show_hex_2)
qed

lemma scan_byte: "scan_hex (Some 2) (show_hex_fixed 2 n @ r) = Some (int (n mod 256), r)"
proof -
  have "hex_val (show_hex_fixed 2 (n mod 256)) = n mod 256"
    by (rule hex_val_show_hex_fixed) simp
  then show ?thesis
    using scan_hex_width [of "show_hex_fixed 2 (n mod 256)" 2 r] show_hex_fixed_xdigits
    by (simp add: show_hex_2_mod [of n] ulong_max_def)
qed

lemma unat_port: "unat p < 65536" for p :: "16 word"
  using unsigned_less [of p, where 'a = nat] by simp

lemma scan_port:
  fixes p :: "16 word"
  shows "scan_hex None (show_hex_fixed 4 (unat p)) = Some (int (unat p), [])"
proof -
  have lt: "unat p < 16 ^ 4" using unat_port [of p] by simp
  then have "hex_val (show_hex_fixed 4 (unat p)) = unat p" by (rule hex_val_show_hex_fixed)
  moreover have "int n \<le> ulong_max" if "n < 65536" for n using that by (simp add: ulong_max_def)
  moreover have "show_hex_fixed 4 (unat p) \<noteq> []" by (metis length_show_hex_fixed list.size(3) zero_neq_numeral)
  ultimately show ?thesis
    using scan_hex_end [OF show_hex_fixed_xdigits, of 4 "unat p"] unat_port [of p] by metis
qed

lemma show_u32_nat: "n < 2 ^ 32 \<Longrightarrow> show_u32 (word_of_nat n) = show_nat n"
  by (simp add: show_u32_def unsigned_of_nat take_bit_nat_eq_self)

lemma show_u32_byte: "show_u32 (word_of_nat (n mod 256)) = show_nat (n mod 256)"
  by (rule show_u32_nat) (auto intro: less_trans [of _ 256])

lemma show_u32_port: "show_u32 (ucast p) = show_nat (unat p)" for p :: "16 word"
  by (simp add: show_u32_def unsigned_ucast_eq take_bit_nat_eq_self order_less_trans [OF unsigned_less])

lemma length_show_nat_byte: "length (show_nat (n mod 256)) \<le> 3"
  by (rule length_show_nat) (auto intro: less_trans [of _ 256])

lemma length_show_port: "length (show_nat (unat p)) \<le> 5" for p :: "16 word"
  by (rule length_show_nat) (use unat_port [of p] in auto)

text \<open>\<open>inet_ntop(AF_INET)\<close> on the four bytes in network order.\<close>

fun join_with :: "string \<Rightarrow> string list \<Rightarrow> string" where
  "join_with sep [] = []"
| "join_with sep [x] = x"
| "join_with sep (x # y # xs) = x @ sep @ join_with sep (y # xs)"

definition c_inet_ntop4 :: "nat list \<Rightarrow> string" where
  "c_inet_ntop4 bs = join_with ''.'' (map show_nat bs)"

text \<open>
  \<open>inet_ntop(AF_INET6)\<close> on the sixteen bytes: the first longest run of at least two zero groups
  becomes \<open>::\<close>, and an address that is a run of zeros followed by an IPv4 address keeps it dotted.
\<close>

fun groups16 :: "nat list \<Rightarrow> nat list" where
  "groups16 (a # b # xs) = (256 * a + b) # groups16 xs"
| "groups16 _ = []"

definition zero_run :: "nat list \<Rightarrow> nat \<Rightarrow> nat" where
  "zero_run ws i = length (takeWhile (\<lambda>w. w = 0) (drop i ws))"

definition best_run :: "nat list \<Rightarrow> (nat \<times> nat) option" where
  "best_run ws =
     (let m = foldl max 0 (map (zero_run ws) [0..<length ws])
      in if m < 2 then None
         else map_option (\<lambda>i. (i, m)) (find_index (\<lambda>i. zero_run ws i = m) [0..<length ws]))"

definition c_inet_ntop6 :: "nat list \<Rightarrow> string" where
  "c_inet_ntop6 bs =
     (let ws = groups16 bs
      in case best_run ws of
           None \<Rightarrow> join_with '':'' (map show_hex_low ws)
         | Some (i, m) \<Rightarrow>
             if i = 0 \<and> (m = 6 \<or> (m = 5 \<and> ws ! 5 = 65535))
             then (if m = 6 then ''::'' else ''::ffff:'') @ c_inet_ntop4 (drop 12 bs)
             else join_with '':'' (map show_hex_low (take i ws)) @ ''::''
                    @ join_with '':'' (map show_hex_low (drop (i + m) ws)))"

lemma length_join_with: "length (join_with [c] xs) \<le> sum_list (map (\<lambda>x. Suc (length x)) xs)"
  by (induction "[c]" xs rule: join_with.induct) auto

lemma length_join_bounded:
  assumes "\<forall>x\<in>set xs. length x \<le> k"
  shows "length (join_with [c] xs) \<le> Suc k * length xs"
proof -
  have "sum_list (map (\<lambda>x. Suc (length x)) xs) \<le> Suc k * length xs"
    using assms by (induction xs) auto
  then show ?thesis using length_join_with [of c xs] by (rule le_trans [rotated])
qed

lemma length_show_hex_low: "n < 16 ^ k \<Longrightarrow> 0 < k \<Longrightarrow> length (show_hex_low n) \<le> k"
proof (induction k arbitrary: n)
  case (Suc k)
  show ?case
  proof (cases "n < 16")
    case True
    then show ?thesis by (simp add: show_hex_low.simps [of n])
  next
    case False
    with Suc.prems have "n div 16 < 16 ^ k" and "0 < k"
      by (cases k; simp add: less_mult_imp_div_less mult.commute)+
    with Suc.IH [of "n div 16"] False show ?thesis by (simp add: show_hex_low.simps [of n])
  qed
qed simp

lemma groups16_bounds:
  "set bs \<subseteq> {..<256} \<Longrightarrow> (\<forall>w\<in>set (groups16 bs). w < 65536) \<and> length (groups16 bs) = length bs div 2"
  by (induction bs rule: groups16.induct) auto

text \<open>Every IPv6 address fits the buffer of \<open>INET6_ADDRSTRLEN\<close> bytes.\<close>

lemma inet_ntop6_length:
  assumes "length bs = 16" and "set bs \<subseteq> {..<256}"
  shows "length (c_inet_ntop6 bs) < 46"
proof -
  define ws where "ws = groups16 bs"
  have ws: "length ws = 8" "\<forall>w\<in>set ws. w < 65536"
    using groups16_bounds [OF assms(2)] assms(1) by (auto simp: ws_def)
  have part: "length (join_with '':'' (map show_hex_low us)) \<le> 5 * length us" if "set us \<subseteq> set ws" for us
  proof -
    have "\<forall>x\<in>set (map show_hex_low us). length x \<le> 4"
      using that ws(2) by (auto intro!: length_show_hex_low)
    then show ?thesis using length_join_bounded [of "map show_hex_low us" 4] by simp
  qed
  have "\<forall>x\<in>set (map show_nat (drop 12 bs)). length x \<le> 3"
    using assms(2) by (auto dest!: in_set_dropD intro!: length_show_nat)
  then have v4: "length (c_inet_ntop4 (drop 12 bs)) \<le> 16"
    using length_join_bounded [of "map show_nat (drop 12 bs)" 3 "CHR ''.''"] assms(1)
    by (simp add: c_inet_ntop4_def)
  have cut: "length (join_with '':'' (map show_hex_low (take i ws))) + length (join_with '':'' (map show_hex_low (drop j ws)))
      \<le> 40" if "i \<le> j" for i j
    using part [of "take i ws"] part [of "drop j ws"] ws(1) set_take_subset [of i ws] set_drop_subset [of j ws] that
    by simp
  show ?thesis
  proof (cases "best_run ws")
    case None
    then show ?thesis using part [of ws] ws(1) by (simp add: c_inet_ntop6_def Let_def ws_def [symmetric])
  next
    case (Some im)
    obtain i m where im: "im = (i, m)" by (cases im)
    show ?thesis
    proof (cases "i = 0 \<and> (m = 6 \<or> m = 5 \<and> ws ! 5 = 65535)")
      case True
      then show ?thesis
        using v4 Some im by (simp add: c_inet_ntop6_def Let_def ws_def [symmetric] del: One_nat_def)
    next
      case False
      then have "c_inet_ntop6 bs = join_with '':'' (map show_hex_low (take i ws)) @ ''::''
          @ join_with '':'' (map show_hex_low (drop (i + m) ws))"
        using Some im unfolding c_inet_ntop6_def Let_def ws_def [symmetric] by (simp only: option.case prod.case if_False)
      then show ?thesis using cut [of i "i + m"] by simp
    qed
  qed
qed

lemma join_with_chars: "set (join_with sep xs) \<subseteq> set sep \<union> \<Union> (set ` set xs)"
  by (induction sep xs rule: join_with.induct) auto

lemma inet_ntop4_chars: "c \<in> set (c_inet_ntop4 bs) \<Longrightarrow> c = CHR ''.'' \<or> c_isdigit c"
  using join_with_chars [of "''.''" "map show_nat bs"] show_nat_digits
  by (fastforce simp: c_inet_ntop4_def)

lemma inet_ntop4_length: "length bs = 4 \<Longrightarrow> set bs \<subseteq> {..<256} \<Longrightarrow> length (c_inet_ntop4 bs) \<le> 16"
proof -
  assume a: "length bs = 4" "set bs \<subseteq> {..<256}"
  then have "\<forall>x\<in>set (map show_nat bs). length x \<le> 3" by (auto intro!: length_show_nat)
  then show ?thesis using length_join_bounded [of "map show_nat bs" 3 "CHR ''.''"] a(1) by (simp add: c_inet_ntop4_def)
qed

lemma inet_ntop4_nonempty: "length bs = 4 \<Longrightarrow> c_inet_ntop4 bs \<noteq> []"
proof -
  assume "length bs = 4"
  then obtain a b c where "bs = a # b # c" by (cases bs rule: list.exhaust; cases "tl bs") auto
  then show ?thesis by (simp add: c_inet_ntop4_def)
qed

lemma inet_ntop4_no_colon: "CHR '':'' \<notin> set (c_inet_ntop4 bs)"
  using inet_ntop4_chars by (fastforce simp: c_isdigit_def char_code_def)

end
