(* ===== verification/OsView.thy ===== *)
theory OsView
  imports CScan
begin

text \<open>
  What the program reads from the operating system, as parameters of the model: the contents of files
  (\<open>None\<close> where \<open>fopen\<close> fails), the entries of directories in the order of \<open>readdir\<close>, the targets of
  symbolic links, the output of commands run by \<open>popen\<close>, and the user names of \<open>getpwuid\<close>.
\<close>

record os_view =
  os_file :: "string \<Rightarrow> string option"
  os_dir :: "string \<Rightarrow> string list option"
  os_link :: "string \<Rightarrow> string option"
  os_cmd :: "string \<Rightarrow> string option"
  os_user :: "u32 \<Rightarrow> string option"

definition os_empty :: os_view where
  "os_empty = \<lparr>os_file = (\<lambda>_. None), os_dir = (\<lambda>_. None), os_link = (\<lambda>_. None),
               os_cmd = (\<lambda>_. None), os_user = (\<lambda>_. None)\<rparr>"

text \<open>A loop \<open>while (next line && count < max)\<close> that appends at most one row per line.\<close>

definition collect_rows :: "nat \<Rightarrow> ('l \<Rightarrow> 'r option) \<Rightarrow> 'l list \<Rightarrow> 'r list \<Rightarrow> 'r list" where
  "collect_rows mx f ls rows =
     foldl (\<lambda>acc l. if length acc < mx
                    then (case f l of None \<Rightarrow> acc | Some r \<Rightarrow> acc @ [r]) else acc) rows ls"

lemma collect_rows_Nil [simp]: "collect_rows mx f [] rows = rows"
  by (simp add: collect_rows_def)

lemma collect_rows_Cons [simp]:
  "collect_rows mx f (l # ls) rows =
     collect_rows mx f ls (if length rows < mx
                           then (case f l of None \<Rightarrow> rows | Some r \<Rightarrow> rows @ [r]) else rows)"
  by (simp add: collect_rows_def)

lemma collect_rows_full: "mx \<le> length rows \<Longrightarrow> collect_rows mx f ls rows = rows"
  by (induction ls) simp_all

text \<open>The loop takes the rows of the lines in order until the table is full.\<close>

lemma collect_rows_eq:
  "length rows \<le> mx \<Longrightarrow> collect_rows mx f ls rows = rows @ take (mx - length rows) (List.map_filter f ls)"
proof (induction ls arbitrary: rows)
  case (Cons l ls)
  show ?case
  proof (cases "length rows < mx")
    case True
    show ?thesis
    proof (cases "f l")
      case None
      with True Cons show ?thesis by (simp add: List.map_filter_simps)
    next
      case (Some r)
      with True have "collect_rows mx f (l # ls) rows = collect_rows mx f ls (rows @ [r])" by simp
      also have "\<dots> = rows @ [r] @ take (mx - Suc (length rows)) (List.map_filter f ls)"
        using Cons.IH [of "rows @ [r]"] True by simp
      finally show ?thesis
        using True Some by (simp add: List.map_filter_simps take_Cons' Suc_diff_Suc)
    qed
  next
    case False
    with Cons.prems show ?thesis by (simp add: collect_rows_full)
  qed
qed (simp add: List.map_filter_simps)

lemma set_map_filter: "x \<in> set (List.map_filter f ls) \<longleftrightarrow> (\<exists>l\<in>set ls. f l = Some x)"
  by (auto simp: List.map_filter_def image_iff intro: bexI [rotated])

lemma collect_rows_length: "length rows \<le> mx \<Longrightarrow> length (collect_rows mx f ls rows) \<le> mx"
  by (simp add: collect_rows_eq)

lemma collect_rows_all:
  assumes "\<forall>r\<in>set rows. P r" and "\<And>l r. f l = Some r \<Longrightarrow> P r"
  shows "\<forall>r\<in>set (collect_rows mx f ls rows). P r"
  using assms(1)
proof (induction ls arbitrary: rows)
  case (Cons l ls)
  have "\<forall>r\<in>set (if length rows < mx then (case f l of None \<Rightarrow> rows | Some r \<Rightarrow> rows @ [r]) else rows). P r"
    using Cons.prems assms(2) by (auto split: option.splits)
  then show ?case using Cons.IH by simp
qed simp

end
