(* ===== verification/CFloat.thy ===== *)
theory CFloat
  imports CLib Complex_Main
begin

text \<open>
  Floating point as the program uses it: a finite \<open>double\<close> or \<open>float\<close> is the rational it denotes,
  and every operation is the exact one followed by rounding to the nearest representable value, ties
  to even, with \<open>p\<close> bits of precision (53 for \<open>double\<close>, 24 for \<open>float\<close>). The exponent is
  unbounded: the modelled quantities (byte counts below \<open>2 ^ 64\<close>, rates, percentages, widths) are
  far from overflow and from the subnormal numbers. Infinities and NaN do not occur where the
  divisors are guarded by the code; the processor usage, which divides by a number of ticks that may be 0, is
  an option in \<open>SysInfo\<close>.
\<close>

section \<open>Rounding to nearest, ties to even\<close>

definition rne :: "rat \<Rightarrow> int" where
  "rne x = (let f = \<lfloor>x\<rfloor>; d = x - of_int f
            in if d < 1 / 2 then f else if 1 / 2 < d then f + 1
               else if even f then f else f + 1)"

lemma rne_of_int [simp]: "rne (of_int n) = n"
  by (simp add: rne_def)

lemma rne_0 [simp]: "rne 0 = 0"
  using rne_of_int [of 0] by simp

lemma rne_cases: "rne x = \<lfloor>x\<rfloor> \<or> rne x = \<lfloor>x\<rfloor> + 1"
  by (auto simp: rne_def Let_def)

lemma rne_ge: "of_int n \<le> x \<Longrightarrow> n \<le> rne x"
  using rne_cases [of x] le_floor_iff [of n x] by linarith

lemma rne_error: "\<bar>of_int (rne x) - x\<bar> \<le> 1 / 2"
proof -
  have "of_int \<lfloor>x\<rfloor> \<le> x" and "x < of_int \<lfloor>x\<rfloor> + 1" by linarith+
  then show ?thesis unfolding rne_def Let_def by (simp split: if_splits)
qed

lemma rne_nonneg: "0 \<le> x \<Longrightarrow> 0 \<le> rne x"
  using rne_ge [of 0 x] by simp

lemma rne_mono: "x \<le> y \<Longrightarrow> rne x \<le> rne y"
proof -
  assume le: "x \<le> y"
  then have f: "\<lfloor>x\<rfloor> \<le> \<lfloor>y\<rfloor>" by (rule floor_mono)
  show ?thesis
  proof (cases "\<lfloor>x\<rfloor> = \<lfloor>y\<rfloor>")
    case True
    with le show ?thesis by (auto simp: rne_def Let_def)
  next
    case False
    with f have "\<lfloor>x\<rfloor> + 1 \<le> \<lfloor>y\<rfloor>" by simp
    then show ?thesis using rne_cases [of x] rne_cases [of y] by auto
  qed
qed

section \<open>The binary exponent\<close>

fun flog2 :: "nat \<Rightarrow> nat" where
  "flog2 n = (if n < 2 then 0 else Suc (flog2 (n div 2)))"

declare flog2.simps [simp del]

lemma flog2_bounds: "0 < n \<Longrightarrow> 2 ^ flog2 n \<le> n \<and> n < 2 ^ Suc (flog2 n)"
proof (induction n rule: flog2.induct)
  case (1 n)
  show ?case
  proof (cases "n < 2")
    case True
    with "1.prems" show ?thesis by (simp add: flog2.simps [of n])
  next
    case False
    with 1 have "2 ^ flog2 (n div 2) \<le> n div 2 \<and> n div 2 < 2 ^ Suc (flog2 (n div 2))" by auto
    with False show ?thesis by (auto simp: flog2.simps [of n])
  qed
qed

definition ilog2 :: "rat \<Rightarrow> int" where
  "ilog2 x = (if 1 \<le> x then int (flog2 (nat \<lfloor>x\<rfloor>))
              else let n = nat \<lceil>1 / x\<rceil> in if n \<le> 1 then 0 else - int (Suc (flog2 (n - 1))))"

lemma two_powi: "(2 :: rat) powi (int n) = 2 ^ n" "(2 :: rat) powi (- int n) = 1 / 2 ^ n"
  by (simp_all add: power_int_minus divide_inverse)

lemma ilog2_lower: "0 < x \<Longrightarrow> 2 powi (ilog2 x) \<le> x"
proof -
  assume x: "0 < x"
  show ?thesis
  proof (cases "1 \<le> x")
    case True
    then have "0 < nat \<lfloor>x\<rfloor>" by simp
    then have "2 ^ flog2 (nat \<lfloor>x\<rfloor>) \<le> nat \<lfloor>x\<rfloor>" using flog2_bounds by blast
    then have "(2 :: rat) ^ flog2 (nat \<lfloor>x\<rfloor>) \<le> of_nat (nat \<lfloor>x\<rfloor>)"
      by (metis of_nat_le_iff of_nat_numeral of_nat_power)
    also have "\<dots> \<le> x" using True by (simp add: of_nat_nat)
    finally show ?thesis using True by (simp add: ilog2_def two_powi)
  next
    case False
    define n where "n = nat \<lceil>1 / x\<rceil>"
    have one: "1 < 1 / x" using x False by simp
    then have n2: "\<not> n \<le> 1" by (simp add: n_def) linarith
    then have "n - 1 < 2 ^ Suc (flog2 (n - 1))" using flog2_bounds [of "n - 1"] by simp
    then have "n \<le> 2 ^ Suc (flog2 (n - 1))" by simp
    then have "(of_nat n :: rat) \<le> 2 ^ Suc (flog2 (n - 1))"
      by (metis of_nat_le_iff of_nat_numeral of_nat_power)
    moreover have "1 / x \<le> of_nat n" using one by (simp add: n_def of_nat_nat) 
    ultimately have "1 / x \<le> 2 ^ Suc (flog2 (n - 1))" by linarith
    then have "1 / 2 ^ Suc (flog2 (n - 1)) \<le> x" using x by (simp add: field_simps)
    then show ?thesis
      using False n2 by (simp add: ilog2_def Let_def n_def [symmetric] two_powi del: power_Suc of_nat_Suc)
  qed
qed

section \<open>Rounding to p bits\<close>

definition ulp :: "nat \<Rightarrow> rat \<Rightarrow> rat" where
  "ulp p x = 2 powi (ilog2 \<bar>x\<bar> - int p + 1)"

definition fl :: "nat \<Rightarrow> rat \<Rightarrow> rat" where
  "fl p x = (if x = 0 then 0 else of_int (rne (x / ulp p x)) * ulp p x)"

abbreviation dbl :: "rat \<Rightarrow> rat" where "dbl \<equiv> fl 53"
abbreviation flt :: "rat \<Rightarrow> rat" where "flt \<equiv> fl 24"

lemma ulp_pos [simp]: "0 < ulp p x"
  by (simp add: ulp_def)

lemma fl_0 [simp]: "fl p 0 = 0"
  by (simp add: fl_def)

lemma fl_nonneg: "0 \<le> x \<Longrightarrow> 0 \<le> fl p x"
  by (simp add: fl_def rne_nonneg less_imp_le)

text \<open>The relative error of one operation.\<close>

lemma fl_error: "\<bar>fl p x - x\<bar> \<le> \<bar>x\<bar> * 2 powi (- int p)"
proof (cases "x = 0")
  case False
  define u where "u = ulp p x"
  have u: "0 < u" by (simp add: u_def)
  have "\<bar>fl p x - x\<bar> = \<bar>of_int (rne (x / u)) - x / u\<bar> * u"
  proof -
    have "(of_int (rne (x / u)) - x / u) * u = of_int (rne (x / u)) * u - x"
      using u by (simp add: algebra_simps)
    then have "\<bar>of_int (rne (x / u)) - x / u\<bar> * u = \<bar>of_int (rne (x / u)) * u - x\<bar>"
      using u by (metis abs_mult abs_of_pos)
    then show ?thesis using False by (simp add: fl_def u_def)
  qed
  also have "\<dots> \<le> 1 / 2 * u" using rne_error u by (intro mult_right_mono) auto
  also have "\<dots> = 2 powi (ilog2 \<bar>x\<bar>) * 2 powi (- int p)"
  proof -
    have "ulp p x = 2 powi (ilog2 \<bar>x\<bar>) * (2 powi (- int p) * 2)"
      by (simp add: ulp_def power_int_add power_int_diff power_int_minus divide_inverse)
    then show ?thesis by (simp add: u_def)
  qed
  also have "\<dots> \<le> \<bar>x\<bar> * 2 powi (- int p)"
    using False ilog2_lower [of "\<bar>x\<bar>"] by (intro mult_right_mono) auto
  finally show ?thesis .
qed simp

text \<open>An integer below \<open>2 ^ p\<close>, and more generally every multiple of the unit, is exact.\<close>

lemma fl_exact: "x = of_int m * ulp p x \<Longrightarrow> fl p x = x"
proof -
  assume a: "x = of_int m * ulp p x"
  have "ulp p x \<noteq> 0" using ulp_pos [of p x] by linarith
  then have "x / ulp p x = of_int m" using a by (metis nonzero_eq_divide_eq)
  then show ?thesis using a by (auto simp: fl_def)
qed

lemma fl_grid_ge:
  assumes "of_int n * ulp p x \<le> x"
  shows "of_int n * ulp p x \<le> fl p x"
proof (cases "x = 0")
  case False
  have "of_int n \<le> x / ulp p x" using assms by (simp add: pos_le_divide_eq)
  then have "n \<le> rne (x / ulp p x)" by (rule rne_ge)
  then show ?thesis using False by (simp add: fl_def)
qed (use assms in simp)

text \<open>\<open>(int) x\<close> truncates towards zero.\<close>

definition c_trunc :: "rat \<Rightarrow> int" where
  "c_trunc x = (if 0 \<le> x then \<lfloor>x\<rfloor> else \<lceil>x\<rceil>)"

section \<open>Printing with a fixed number of decimals\<close>

text \<open>\<open>%.kf\<close>: the library rounds the exact binary value to the nearest decimal, ties to even.\<close>

definition pad_zeros :: "nat \<Rightarrow> string \<Rightarrow> string" where
  "pad_zeros k s = replicate (k - length s) CHR ''0'' @ s"

definition fmt_fixed :: "nat \<Rightarrow> rat \<Rightarrow> string" where
  "fmt_fixed k x =
     (let m = nat (rne (\<bar>x\<bar> * 10 ^ k))
      in (if x < 0 then ''-'' else [])
         @ show_nat (m div 10 ^ k)
         @ (if k = 0 then [] else ''.'' @ pad_zeros k (show_nat (m mod 10 ^ k))))"

lemma fmt_fixed_nonempty [simp]: "fmt_fixed k x \<noteq> []"
  by (simp add: fmt_fixed_def Let_def)

end
