(* ===== verification/NetParse.thy ===== *)
theory NetParse
  imports OsView CFloat
begin

text \<open>
  \<open>src/trfx_netinfo.c\<close>, first part: the parsers of routes, name servers and interface counters, the
  transfer rates and the usage lines. \<open>fgets\<close> reads with buffers of 256 bytes unless noted.
\<close>

datatype TrfxCollectorStatus =
    TRFX_COLLECTOR_OK | TRFX_COLLECTOR_INVALID_ARGUMENT | TRFX_COLLECTOR_OPEN_FAILED
  | TRFX_COLLECTOR_PARSE_FAILED

record TrfxInterfaceStat =
  is_name :: string
  is_rx_bytes :: u64
  is_tx_bytes :: u64

record TrfxInterfaceRate =
  ir_name :: string
  ir_rx_bytes_per_sec :: rat
  ir_tx_bytes_per_sec :: rat

text \<open>The arrays with their counts are lists.\<close>

record TrfxInterfaceStatsResult =
  isr_status :: TrfxCollectorStatus
  isr_error :: string
  isr_stats :: "TrfxInterfaceStat list"

record TrfxRouteSummary =
  rs_has_default :: int
  rs_destination :: string
  rs_gateway :: string
  rs_interface :: string
  rs_metric :: string

record TrfxDnsSummary =
  ds_servers :: "string list"

definition trfx_max_interfaces :: nat where "trfx_max_interfaces = 20"
definition trfx_max_dns_servers :: nat where "trfx_max_dns_servers = 10"

definition trfx_is_valid_interface_name :: "string option \<Rightarrow> bool" where
  "trfx_is_valid_interface_name ifname =
     (case ifname of None \<Rightarrow> False
      | Some s \<Rightarrow> s \<noteq> [] \<and> list_all (\<lambda>c. c_isalnum c \<or> c = CHR ''_'' \<or> c = CHR ''-'' \<or> c = CHR ''.'' \<or> c = CHR '':'') s)"

definition is_vpn_interface :: "string option \<Rightarrow> bool" where
  "is_vpn_interface iface_name =
     (if \<not> trfx_is_valid_interface_name iface_name then False
      else starts_with ''tun'' (the iface_name) \<or> starts_with ''ppp'' (the iface_name)
           \<or> starts_with ''wg'' (the iface_name))"

section \<open>Routes\<close>

definition route_delims :: "char list" where "route_delims = [CHR '' '', tab, nl]"

text \<open>The values after \<open>via\<close> and \<open>metric\<close>, in order; each value is taken by a \<open>strtok\<close> of its own.\<close>

fun route_values :: "nat \<Rightarrow> nat \<Rightarrow> string list \<Rightarrow> string \<times> string \<Rightarrow> string \<times> string" where
  "route_values gs ms [] r = r"
| "route_values gs ms [t] r = r"
| "route_values gs ms (t # v # ts) r =
     (if t = ''via'' then route_values gs ms ts (fit gs v, snd r)
      else if t = ''metric'' then route_values gs ms ts (fst r, fit ms v)
      else route_values gs ms (v # ts) r)"

text \<open>The return value and the two destinations.\<close>

definition trfx_parse_default_route_line ::
  "string option \<Rightarrow> string option \<Rightarrow> nat \<Rightarrow> string option \<Rightarrow> nat \<Rightarrow> int \<times> string option \<times> string option" where
  "trfx_parse_default_route_line line gateway gateway_size metric metric_size =
     (if line = None \<or> gateway = None \<or> gateway_size = 0 \<or> metric = None \<or> metric_size = 0
      then (0, gateway, metric)
      else (let g0 = fit gateway_size ''N/A''; m0 = fit metric_size ''N/A''
            in case c_tokens route_delims (fit 256 (the line)) of
                 [] \<Rightarrow> (0, Some g0, Some m0)
               | t # ts \<Rightarrow>
                   if t \<noteq> ''default'' then (0, Some g0, Some m0)
                   else (case route_values gateway_size metric_size ts (g0, m0) of
                           (g, m) \<Rightarrow> (1, Some g, Some m))))"

definition init_route_summary :: TrfxRouteSummary where
  "init_route_summary = \<lparr>rs_has_default = 0, rs_destination = fit 64 ''N/A'', rs_gateway = fit 64 ''N/A'',
     rs_interface = fit 32 ''N/A'', rs_metric = fit 32 ''N/A''\<rparr>"

fun route_summary_values :: "string list \<Rightarrow> TrfxRouteSummary \<Rightarrow> TrfxRouteSummary" where
  "route_summary_values [] s = s"
| "route_summary_values [t] s = s"
| "route_summary_values (t # v # ts) s =
     (if t = ''via'' then route_summary_values ts (s\<lparr>rs_gateway := fit 64 (take 63 v)\<rparr>)
      else if t = ''dev'' then route_summary_values ts (s\<lparr>rs_interface := fit 32 (take 31 v)\<rparr>)
      else if t = ''metric'' then route_summary_values ts (s\<lparr>rs_metric := fit 32 (take 31 v)\<rparr>)
      else route_summary_values (v # ts) s)"

definition trfx_parse_route_summary_line ::
  "string option \<Rightarrow> TrfxRouteSummary option \<Rightarrow> int \<times> TrfxRouteSummary option" where
  "trfx_parse_route_summary_line line summary =
     (if line = None \<or> summary = None then (0, summary)
      else (case c_tokens route_delims (fit 256 (the line)) of
              [] \<Rightarrow> (0, summary)
            | t # ts \<Rightarrow>
                if t \<noteq> ''default'' then (0, summary)
                else (1, Some (route_summary_values ts
                       (init_route_summary\<lparr>rs_has_default := 1, rs_destination := fit 64 ''default''\<rparr>)))))"

fun first_default_route :: "string list \<Rightarrow> TrfxRouteSummary \<Rightarrow> TrfxCollectorStatus \<times> TrfxRouteSummary" where
  "first_default_route [] s = (TRFX_COLLECTOR_PARSE_FAILED, s)"
| "first_default_route (l # ls) s =
     (case trfx_parse_route_summary_line (Some l) (Some s) of
        (r, s') \<Rightarrow> if r \<noteq> 0 then (TRFX_COLLECTOR_OK, the s') else first_default_route ls (the s'))"

definition trfx_collect_route_summary_file ::
  "string option \<Rightarrow> TrfxRouteSummary option \<Rightarrow> TrfxCollectorStatus \<times> TrfxRouteSummary option" where
  "trfx_collect_route_summary_file fp summary =
     (if fp = None \<or> summary = None then (TRFX_COLLECTOR_INVALID_ARGUMENT, summary)
      else (case first_default_route (c_lines 256 (the fp)) init_route_summary of (st, s) \<Rightarrow> (st, Some s)))"

text \<open>\<open>open_error\<close> is the text of \<open>strerror(errno)\<close> after a failed \<open>fopen\<close>.\<close>

definition trfx_collect_route_summary_path ::
  "os_view \<Rightarrow> string \<Rightarrow> string option \<Rightarrow> TrfxRouteSummary option \<Rightarrow> string option \<Rightarrow> nat \<Rightarrow>
   TrfxCollectorStatus \<times> TrfxRouteSummary option \<times> string option" where
  "trfx_collect_route_summary_path os open_error path summary error error_size =
     (let e0 = put_buf error error_size []
      in if path = None \<or> path = Some [] \<or> summary = None
         then (TRFX_COLLECTOR_INVALID_ARGUMENT, summary, put_buf e0 error_size ''invalid argument'')
         else (case os_file os (the path) of
                 None \<Rightarrow> (TRFX_COLLECTOR_OPEN_FAILED, summary, put_buf e0 error_size (''open failed: '' @ open_error))
               | Some content \<Rightarrow>
                   (case trfx_collect_route_summary_file (Some content) summary of
                      (status, s) \<Rightarrow>
                        (status, s, if status = TRFX_COLLECTOR_PARSE_FAILED
                                    then put_buf e0 error_size ''default route not found'' else e0))))"

text \<open>The address after the first \<open>src\<close> that has one.\<close>

fun src_token :: "string list \<Rightarrow> string option" where
  "src_token [] = None"
| "src_token [t] = None"
| "src_token (t # v # ts) = (if t = ''src'' then Some v else src_token (v # ts))"

fun first_src :: "string list \<Rightarrow> string option" where
  "first_src [] = None"
| "first_src (l # ls) = (case src_token (c_tokens route_delims (fit 256 l)) of
     Some v \<Rightarrow> Some v | None \<Rightarrow> first_src ls)"

definition collect_public_ip_from_file :: "string \<Rightarrow> nat \<Rightarrow> TrfxCollectorStatus \<times> string" where
  "collect_public_ip_from_file content ip_size =
     (case first_src (c_lines 256 content) of
        Some v \<Rightarrow> (TRFX_COLLECTOR_OK, fit ip_size (take 63 v))
      | None \<Rightarrow> (TRFX_COLLECTOR_PARSE_FAILED, []))"

section \<open>Name servers\<close>

definition init_dns_summary :: TrfxDnsSummary where
  "init_dns_summary = \<lparr>ds_servers = []\<rparr>"

definition dns_summary_contains :: "TrfxDnsSummary \<Rightarrow> string \<Rightarrow> bool" where
  "dns_summary_contains summary server = list_ex (\<lambda>s. s = server) (ds_servers summary)"

definition dns_line :: "string \<Rightarrow> string option" where
  "dns_line line = (case c_sscanf (ScWs # sc_lits ''nameserver'' @ [ScWs, ScStr 63]) line of
                      [ScText server] \<Rightarrow> Some server | _ \<Rightarrow> None)"

definition dns_step :: "TrfxDnsSummary \<Rightarrow> string \<Rightarrow> TrfxDnsSummary" where
  "dns_step summary line =
     (case dns_line line of
        None \<Rightarrow> summary
      | Some server \<Rightarrow>
          if dns_summary_contains summary server then summary
          else if length (ds_servers summary) < trfx_max_dns_servers
          then summary\<lparr>ds_servers := ds_servers summary @ [fit 64 (take 63 server)]\<rparr> else summary)"

definition trfx_collect_dns_summary_file ::
  "string option \<Rightarrow> TrfxDnsSummary option \<Rightarrow> TrfxCollectorStatus \<times> TrfxDnsSummary option" where
  "trfx_collect_dns_summary_file fp summary =
     (if fp = None \<or> summary = None then (TRFX_COLLECTOR_INVALID_ARGUMENT, summary)
      else (TRFX_COLLECTOR_OK, Some (foldl dns_step init_dns_summary (c_lines 256 (the fp)))))"

definition trfx_collect_dns_summary_path ::
  "os_view \<Rightarrow> string \<Rightarrow> string option \<Rightarrow> TrfxDnsSummary option \<Rightarrow> string option \<Rightarrow> nat \<Rightarrow>
   TrfxCollectorStatus \<times> TrfxDnsSummary option \<times> string option" where
  "trfx_collect_dns_summary_path os open_error path summary error error_size =
     (let e0 = put_buf error error_size []
      in if path = None \<or> path = Some [] \<or> summary = None
         then (TRFX_COLLECTOR_INVALID_ARGUMENT, summary, put_buf e0 error_size ''invalid argument'')
         else (case os_file os (the path) of
                 None \<Rightarrow> (TRFX_COLLECTOR_OPEN_FAILED, summary, put_buf e0 error_size (''open failed: '' @ open_error))
               | Some content \<Rightarrow>
                   (case trfx_collect_dns_summary_file (Some content) summary of (status, s) \<Rightarrow> (status, s, e0))))"

text \<open>\<open>get_dns_servers\<close> reads with 128 bytes and joins the entries without checking the 256 bytes of its
  buffer; the model is the text that it would need.\<close>

definition dns_entry :: "string \<Rightarrow> string option" where
  "dns_entry line =
     (if starts_with ''nameserver'' line
      then (case split_first CHR '' '' line of None \<Rightarrow> None | Some (_, dns) \<Rightarrow> Some (cut_nl dns)) else None)"

definition dns_entry_step :: "string list \<Rightarrow> string \<Rightarrow> string list" where
  "dns_entry_step entries line =
     (case dns_entry line of None \<Rightarrow> entries
      | Some dns \<Rightarrow> if dns \<notin> set entries \<and> length entries < 10 then entries @ [dns] else entries)"

definition get_dns_servers :: "os_view \<Rightarrow> string option" where
  "get_dns_servers os =
     (case os_file os ''/etc/resolv.conf'' of None \<Rightarrow> None
      | Some content \<Rightarrow>
          (let entries = foldl dns_entry_step [] (c_lines 128 content)
           in Some (if entries = [] then ''N/A'' else join_with '', '' entries)))"

fun gateway_of :: "string list \<Rightarrow> nat \<Rightarrow> string \<times> string \<Rightarrow> string \<times> string" where
  "gateway_of [] ms r = r"
| "gateway_of (l # ls) ms r =
     (case trfx_parse_default_route_line (Some l) (Some (fst r)) 64 (Some (snd r)) ms of
        (k, g, m) \<Rightarrow> if k \<noteq> 0 then (the g, the m) else gateway_of ls ms (the g, the m))"

definition get_gateway_ip :: "os_view \<Rightarrow> string option" where
  "get_gateway_ip os =
     (case os_cmd os ''ip route 2>/dev/null'' of None \<Rightarrow> None
      | Some out \<Rightarrow> Some (fst (gateway_of (c_lines 256 out) 64 (''N/A'', ''N/A''))))"

definition get_default_gateway_and_metric :: "os_view \<Rightarrow> string \<times> string" where
  "get_default_gateway_and_metric os =
     (case os_cmd os ''ip route 2>/dev/null'' of None \<Rightarrow> (''N/A'', ''N/A'')
      | Some out \<Rightarrow> gateway_of (c_lines 256 out) 64 (''N/A'', ''N/A''))"

definition get_routing_table_summary :: "os_view \<Rightarrow> string \<Rightarrow> string" where
  "get_routing_table_summary os routing_table =
     (case os_cmd os ''ip route'' of None \<Rightarrow> routing_table
      | Some out \<Rightarrow> foldl (\<lambda>t l. t @ l) [] (c_lines 512 out))"

section \<open>Interface counters and rates\<close>

definition interface_stats_format :: "scan_dir list" where
  "interface_stats_format =
     [ScWs, ScSet 31 (\<lambda>c. c \<noteq> CHR '':''), ScLit CHR '':'', ScWs, ScUInt] @
     concat (replicate 7 [ScWs, ScSkipInt]) @ [ScWs, ScUInt]"

definition interface_stats_line :: "string \<Rightarrow> TrfxInterfaceStat option" where
  "interface_stats_line line =
     (case c_sscanf interface_stats_format line of
        [ScText name, ScNum rx, ScNum tx] \<Rightarrow>
          Some \<lparr>is_name = name, is_rx_bytes = word_of_int rx, is_tx_bytes = word_of_int tx\<rparr>
      | _ \<Rightarrow> None)"

text \<open>\<open>None\<close> is the return value \<open>-1\<close>.\<close>

definition trfx_parse_interface_stats_file :: "string option \<Rightarrow> int \<Rightarrow> TrfxInterfaceStat list option" where
  "trfx_parse_interface_stats_file fp max_stats =
     (if fp = None \<or> max_stats \<le> 0 then None
      else (case c_lines 256 (the fp) of
              _ # _ # ls \<Rightarrow> Some (collect_rows (nat max_stats) interface_stats_line ls [])
            | _ \<Rightarrow> None))"

definition trfx_parse_interface_stats_path :: "os_view \<Rightarrow> string \<Rightarrow> int \<Rightarrow> TrfxInterfaceStat list option" where
  "trfx_parse_interface_stats_path os path max_stats =
     (case os_file os path of None \<Rightarrow> None
      | Some content \<Rightarrow> trfx_parse_interface_stats_file (Some content) max_stats)"

definition trfx_collect_interface_stats_path ::
  "os_view \<Rightarrow> string \<Rightarrow> string option \<Rightarrow> TrfxInterfaceStatsResult" where
  "trfx_collect_interface_stats_path os open_error path =
     (if path = None \<or> path = Some []
      then \<lparr>isr_status = TRFX_COLLECTOR_INVALID_ARGUMENT, isr_error = fit 128 ''invalid path'', isr_stats = []\<rparr>
      else (case os_file os (the path) of
              None \<Rightarrow> \<lparr>isr_status = TRFX_COLLECTOR_OPEN_FAILED,
                        isr_error = fit 128 (''open failed: '' @ open_error), isr_stats = []\<rparr>
            | Some content \<Rightarrow>
                (case trfx_parse_interface_stats_file (Some content) (int trfx_max_interfaces) of
                   None \<Rightarrow> \<lparr>isr_status = TRFX_COLLECTOR_PARSE_FAILED,
                             isr_error = fit 128 ''failed to parse interface stats'', isr_stats = []\<rparr>
                 | Some stats \<Rightarrow> \<lparr>isr_status = TRFX_COLLECTOR_OK, isr_error = [], isr_stats = stats\<rparr>)))"

definition trfx_read_interface_stats :: "os_view \<Rightarrow> string \<Rightarrow> int \<Rightarrow> TrfxInterfaceStat list option" where
  "trfx_read_interface_stats os open_error max_stats =
     (let result = trfx_collect_interface_stats_path os open_error (Some ''/proc/net/dev'')
      in if isr_status result \<noteq> TRFX_COLLECTOR_OK then None
         else Some (take (nat max_stats) (isr_stats result)))"

definition find_stat :: "TrfxInterfaceStat list option \<Rightarrow> string \<Rightarrow> TrfxInterfaceStat option" where
  "find_stat stats name =
     (case stats of None \<Rightarrow> None | Some ss \<Rightarrow> List.find (\<lambda>s. is_name s = name) ss)"

definition counter_delta :: "u64 \<Rightarrow> u64 \<Rightarrow> u64" where
  "counter_delta previous current = (if previous \<le> current then current - previous else 0)"

definition interface_rate :: "TrfxInterfaceStat list option \<Rightarrow> rat \<Rightarrow> TrfxInterfaceStat \<Rightarrow> TrfxInterfaceRate" where
  "interface_rate previous elapsed_seconds cur =
     (let prev = find_stat previous (is_name cur);
          rx_delta = (case prev of None \<Rightarrow> 0 | Some p \<Rightarrow> counter_delta (is_rx_bytes p) (is_rx_bytes cur));
          tx_delta = (case prev of None \<Rightarrow> 0 | Some p \<Rightarrow> counter_delta (is_tx_bytes p) (is_tx_bytes cur))
      in \<lparr>ir_name = fit 32 (take 31 (is_name cur)),
          ir_rx_bytes_per_sec = dbl (dbl (of_nat (unat rx_delta)) / elapsed_seconds),
          ir_tx_bytes_per_sec = dbl (dbl (of_nat (unat tx_delta)) / elapsed_seconds)\<rparr>)"

text \<open>The counts are the lengths of the lists; \<open>None\<close> is the return value \<open>-1\<close>.\<close>

definition trfx_calculate_interface_rates ::
  "TrfxInterfaceStat list option \<Rightarrow> TrfxInterfaceStat list option \<Rightarrow> rat \<Rightarrow> int \<Rightarrow> TrfxInterfaceRate list option" where
  "trfx_calculate_interface_rates previous current elapsed_seconds max_rates =
     (if current = None \<or> max_rates \<le> 0 \<or> elapsed_seconds \<le> 0 then None
      else Some (map (interface_rate previous elapsed_seconds) (take (nat max_rates) (the current))))"

text \<open>The divisions by powers of 1024 are exact in \<open>double\<close>.\<close>

definition trfx_format_net_bytes :: "rat \<Rightarrow> nat \<Rightarrow> string" where
  "trfx_format_net_bytes bytes bufsize =
     (if bytes < 1024 then fit bufsize (fmt_fixed 2 bytes @ '' B'')
      else if bytes < 1048576 then fit bufsize (fmt_fixed 2 (bytes / 1024) @ '' KB'')
      else if bytes < 1073741824 then fit bufsize (fmt_fixed 2 (bytes / 1048576) @ '' MB'')
      else fit bufsize (fmt_fixed 2 (bytes / 1073741824) @ '' GB''))"

definition trfx_format_interface_usage_line :: "string \<Rightarrow> rat \<Rightarrow> rat \<Rightarrow> nat \<Rightarrow> string" where
  "trfx_format_interface_usage_line name tx_bytes rx_bytes bufsize =
     fit bufsize ('' '' @ pad_right 15 (take 15 name) @ '' | '' @ pad_left 8 (trfx_format_net_bytes tx_bytes 20)
       @ ''/s | '' @ pad_left 8 (trfx_format_net_bytes rx_bytes 20) @ ''/s'')"

text \<open>The static state of \<open>get_interfaces_usage\<close>: the counters of the previous call, if there was one.\<close>

record usage_state =
  us_prev_stats :: "TrfxInterfaceStat list"
  us_initialized :: bool

definition usage_start :: usage_state where
  "usage_start = \<lparr>us_prev_stats = [], us_initialized = False\<rparr>"

definition find_prev_stat :: "usage_state \<Rightarrow> string \<Rightarrow> TrfxInterfaceStat option" where
  "find_prev_stat s name = List.find (\<lambda>st. is_name st = name) (us_prev_stats s)"

definition usage_rate :: "usage_state \<Rightarrow> TrfxInterfaceStat \<Rightarrow> TrfxInterfaceRate" where
  "usage_rate s st =
     (if us_initialized s
      then (let prev = find_prev_stat s (is_name st)
            in hd (the (trfx_calculate_interface_rates (map_option (\<lambda>p. [p]) prev) (Some [st]) 1 1)))
      else \<lparr>ir_name = fit 32 (take 31 (is_name st)), ir_rx_bytes_per_sec = 0, ir_tx_bytes_per_sec = 0\<rparr>)"

text \<open>The lines and the state afterwards; allocations succeed.\<close>

definition get_interfaces_usage :: "os_view \<Rightarrow> string \<Rightarrow> usage_state \<Rightarrow> string list option \<times> usage_state" where
  "get_interfaces_usage os open_error s =
     (case trfx_read_interface_stats os open_error (int trfx_max_interfaces) of
        None \<Rightarrow> (None, s)
      | Some stats \<Rightarrow>
          (Some (map (\<lambda>st. trfx_format_interface_usage_line (is_name st)
                        (ir_tx_bytes_per_sec (usage_rate s st)) (ir_rx_bytes_per_sec (usage_rate s st)) 128) stats),
           \<lparr>us_prev_stats = stats, us_initialized = True\<rparr>))"

section \<open>Route lines\<close>

definition clean_token :: "string \<Rightarrow> bool" where
  "clean_token t \<longleftrightarrow> t \<noteq> [] \<and> set t \<inter> set route_delims = {}"

lemma c_tokens_token:
  assumes "clean_token t" and "d \<in> set route_delims"
  shows "c_tokens route_delims (t @ d # s) = t # c_tokens route_delims s"
proof -
  obtain c u where t: "t = c # u" using assms(1) by (cases t) (auto simp: clean_token_def)
  have out: "\<forall>x\<in>set t. x \<notin> set route_delims" using assms(1) by (auto simp: clean_token_def)
  have "dropWhile (\<lambda>c. c \<in> set route_delims) (t @ d # s) = t @ d # s" using t out by simp
  moreover have "takeWhile (\<lambda>c. c \<notin> set route_delims) (t @ d # s) = t"
    using out assms(2) by (intro takeWhile_hit) auto
  moreover have "dropWhile (\<lambda>c. c \<notin> set route_delims) (t @ d # s) = d # s"
    using out assms(2) by (intro dropWhile_hit) auto
  ultimately have "c_strtok route_delims (t @ d # s) = Some (t, s)"
    by (simp add: c_strtok_def Let_def)
  then show ?thesis by (subst c_tokens.simps) simp
qed

lemma c_tokens_Nil [simp]: "c_tokens ds [] = []"
  by (subst c_tokens.simps) (simp add: c_strtok_def)

lemma c_tokens_line:
  "list_all clean_token ts \<Longrightarrow> ts \<noteq> [] \<Longrightarrow> c_tokens route_delims (join_with '' '' ts @ [nl]) = ts"
proof (induction "'' ''" ts rule: join_with.induct)
  case (2 x)
  then show ?case using c_tokens_token [of x nl "[]"] by (simp add: route_delims_def)
next
  case (3 x y xs)
  then show ?case using c_tokens_token [of x "CHR '' ''" "join_with '' '' (y # xs) @ [nl]"]
    by (simp add: route_delims_def)
qed simp

lemma route_summary_other:
  "list_all (\<lambda>t. t \<notin> {''via'', ''dev'', ''metric''}) xs \<Longrightarrow>
     route_summary_values (xs @ ts) s = route_summary_values ts s"
proof (induction xs)
  case (Cons x xs)
  then show ?case by (cases "xs @ ts") auto
qed simp

text \<open>A default route as \<open>ip route\<close> prints it is read back field by field: from a line of
  white-space separated words \<open>default via GATEWAY dev INTERFACE ... metric METRIC\<close>, with any other words
  before the metric, the summary holds exactly the gateway, the interface and the metric.\<close>

lemma route_line_parsed:
  assumes "list_all clean_token ([gw, dev, metric] @ xs)"
    and "list_all (\<lambda>t. t \<notin> {''via'', ''dev'', ''metric''}) xs"
    and "line = join_with '' '' ([''default'', ''via'', gw, ''dev'', dev] @ xs @ [''metric'', metric]) @ [nl]"
    and "length line < 256" "length gw < 64" "length dev < 32" "length metric < 32"
  shows "trfx_parse_route_summary_line (Some line) (Some s) =
    (1, Some \<lparr>rs_has_default = 1, rs_destination = ''default'', rs_gateway = gw, rs_interface = dev, rs_metric = metric\<rparr>)"
proof -
  have "list_all clean_token ([''default'', ''via'', gw, ''dev'', dev] @ xs @ [''metric'', metric])"
    using assms(1) by (auto simp: clean_token_def route_delims_def)
  from c_tokens_line [OF this] assms(3,4)
  have "c_tokens route_delims (fit 256 line) = [''default'', ''via'', gw, ''dev'', dev] @ xs @ [''metric'', metric]"
    by simp
  then show ?thesis
    using assms(2,5-7)
    by (simp add: trfx_parse_route_summary_line_def route_summary_other init_route_summary_def)
qed

lemma route_line_parsed_witness:
  "trfx_parse_route_summary_line (Some (''default via 10.0.0.1 dev wlan0 proto dhcp metric 600'' @ [nl]))
     (Some init_route_summary)
   = (1, Some \<lparr>rs_has_default = 1, rs_destination = ''default'', rs_gateway = ''10.0.0.1'',
             rs_interface = ''wlan0'', rs_metric = ''600''\<rparr>)"
  by (rule route_line_parsed [where xs = "[''proto'', ''dhcp'']"]) (simp_all add: clean_token_def route_delims_def)

lemma route_summary_values_keep: "rs_has_default (route_summary_values ts s) = rs_has_default s"
  by (induction ts s rule: route_summary_values.induct) auto

lemma parse_route_line_cases:
  "trfx_parse_route_summary_line (Some l) (Some s) = (r, s') \<Longrightarrow>
     (r = 0 \<and> s' = Some s) \<or> (r = 1 \<and> (\<exists>t. s' = Some t \<and> rs_has_default t = 1))"
  by (auto simp: trfx_parse_route_summary_line_def route_summary_values_keep split: list.splits if_splits)

lemma first_default_route_status:
  "case first_default_route ls s of (st, s') \<Rightarrow>
     (st = TRFX_COLLECTOR_OK \<and> rs_has_default s' = 1) \<or> (st = TRFX_COLLECTOR_PARSE_FAILED \<and> s' = s)"
proof (induction ls s rule: first_default_route.induct)
  case (2 l ls s)
  obtain r s' where p: "trfx_parse_route_summary_line (Some l) (Some s) = (r, s')" by fastforce
  with parse_route_line_cases [OF p] 2 show ?case by (auto split: prod.splits)
qed simp

lemma route_summary_status:
  "(fst (trfx_collect_route_summary_file (Some content) (Some s0)) = TRFX_COLLECTOR_OK)
     = (rs_has_default (the (snd (trfx_collect_route_summary_file (Some content) (Some s0)))) = 1)"
  "rs_has_default (the (snd (trfx_collect_route_summary_file (Some content) (Some s0)))) \<in> {0, 1}"
  using first_default_route_status [where ls = "c_lines 256 content" and s = init_route_summary]
  by (auto simp: trfx_collect_route_summary_file_def init_route_summary_def split: prod.splits)

text \<open>The status of the route collector says whether there is a default route: it is OK exactly when the
  summary has one, and otherwise the collector failed to parse and the summary is the initial one.\<close>

lemma route_ok_iff_default:
  "case trfx_collect_route_summary_file (Some content) (Some s0) of
     (st, Some s) \<Rightarrow> (st = TRFX_COLLECTOR_OK \<and> rs_has_default s = 1)
                  \<or> (st = TRFX_COLLECTOR_PARSE_FAILED \<and> s = init_route_summary \<and> rs_has_default s = 0)
   | _ \<Rightarrow> False"
  using first_default_route_status [where ls = "c_lines 256 content" and s = init_route_summary]
  by (auto simp: trfx_collect_route_summary_file_def init_route_summary_def split: prod.splits)

section \<open>The list of name servers\<close>

lemma dns_line_fits: "dns_line l = Some s \<Longrightarrow> length s \<le> 63 \<and> s \<noteq> []"
  by (auto simp: dns_line_def sc_lits_def Let_def char_simps split: list.splits scan_val.splits if_splits)

lemma dns_step_take:
  assumes "ds_servers s = take 10 (dedup_first seen)" and "dns_line l = Some x"
  shows "ds_servers (dns_step s l) = take 10 (dedup_first (seen @ [x]))"
proof -
  have fit: "fit 64 (take 63 x) = x" using dns_line_fits [OF assms(2)] by simp
  have c: "dns_summary_contains s x \<longleftrightarrow> x \<in> set (ds_servers s)"
    by (auto simp: dns_summary_contains_def list_ex_iff)
  have "ds_servers (dns_step s l) = (if x \<in> set (ds_servers s) then ds_servers s
      else if length (ds_servers s) < 10 then ds_servers s @ [x] else ds_servers s)"
    using assms(2) fit c by (simp add: dns_step_def trfx_max_dns_servers_def)
  also have "\<dots> = take 10 (dedup_first (seen @ [x]))" using assms(1) by (rule dedup_take_step)
  finally show ?thesis .
qed

lemma dns_fold:
  "ds_servers s = take 10 (dedup_first seen) \<Longrightarrow>
     ds_servers (foldl dns_step s ls) = take 10 (dedup_first (seen @ List.map_filter dns_line ls))"
proof (induction ls arbitrary: s seen)
  case (Cons l ls)
  show ?case
  proof (cases "dns_line l")
    case None
    then have "dns_step s l = s" by (simp add: dns_step_def)
    with Cons None show ?thesis by simp
  next
    case (Some x)
    then have "ds_servers (dns_step s l) = take 10 (dedup_first (seen @ [x]))"
      using Cons.prems by (intro dns_step_take)
    from Cons.IH [OF this] Some show ?thesis by simp
  qed
qed simp

lemma dns_summary_servers:
  "ds_servers (the (snd (trfx_collect_dns_summary_file (Some content) (Some s0))))
     = take 10 (dedup_first (List.map_filter dns_line (c_lines 256 content)))"
  using dns_fold [of init_dns_summary "[]"] by (simp add: trfx_collect_dns_summary_file_def init_dns_summary_def)

lemma dns_summary_distinct: "distinct (ds_servers (the (snd (trfx_collect_dns_summary_file (Some content) (Some s0)))))"
  unfolding dns_summary_servers by (rule distinct_take) (rule distinct_dedup_first)

text \<open>The name servers of a resolver file are the first ten distinct ones in the order of the file: no
  server is listed twice, none of the first ten is missing, and lines that are not \<open>nameserver\<close> lines
  are skipped.\<close>

lemma dns_servers_distinct:
  "case trfx_collect_dns_summary_file (Some content) (Some s0) of
     (st, Some s) \<Rightarrow> st = TRFX_COLLECTOR_OK
       \<and> ds_servers s = take 10 (dedup_first (List.map_filter dns_line (c_lines 256 content)))
       \<and> distinct (ds_servers s)
   | _ \<Rightarrow> False"
  using dns_summary_servers [of content s0] dns_summary_distinct [of content s0]
  by (simp add: trfx_collect_dns_summary_file_def)

text \<open>\<open>get_dns_servers\<close> can need more than the 256 bytes of its buffer.\<close>

lemma dns_text_overflows:
  "256 \<le> length (the (get_dns_servers (os_empty\<lparr>os_file := (\<lambda>_. Some (concat (map (\<lambda>c. ''nameserver '' @ replicate 100 c @ [nl])
     [CHR ''a'', CHR ''b'', CHR ''c''])))\<rparr>)))"
proof -
  let ?l = "\<lambda>c. ''nameserver '' @ replicate 100 c"
  have lines: "c_lines 128 (concat (map (\<lambda>c. ?l c @ [nl]) cs)) = map (\<lambda>c. ?l c @ [nl]) cs" if "nl \<notin> set cs" for cs
    using that
  proof (induction cs)
    case (Cons c cs)
    then have "c_lines 128 (?l c @ nl # concat (map (\<lambda>c. ?l c @ [nl]) cs))
        = (?l c @ [nl]) # c_lines 128 (concat (map (\<lambda>c. ?l c @ [nl]) cs))"
      by (intro c_lines_line) auto
    with Cons show ?case by simp
  qed simp
  have entry: "dns_entry (?l c @ [nl]) = Some (replicate 100 c)" if "c \<noteq> nl" for c
    using that split_first_app [of "CHR '' ''" "''nameserver''" "replicate 100 c @ [nl]"]
    by (simp add: dns_entry_def starts_with_def)
  have "foldl dns_entry_step [] (map (\<lambda>c. ?l c @ [nl]) [CHR ''a'', CHR ''b'', CHR ''c''])
      = [replicate 100 CHR ''a'', replicate 100 CHR ''b'', replicate 100 CHR ''c'']"
    by (simp only: list.map foldl.simps dns_entry_step_def)
       (simp add: entry [simplified] replicate_eq_replicate)
  then show ?thesis
    using lines [of "[CHR ''a'', CHR ''b'', CHR ''c'']"]
    by (simp only: get_dns_servers_def) simp
qed

section \<open>Counters, rates and usage\<close>

text \<open>A line of \<open>/proc/net/dev\<close>: the name after its padding, a colon, and the counters, each after its padding.\<close>

fun dev_counters :: "(nat \<times> nat) list \<Rightarrow> string" where
  "dev_counters [] = [nl]"
| "dev_counters ((pad, v) # vs) = replicate pad CHR '' '' @ show_nat v @ dev_counters vs"

definition dev_line :: "nat \<Rightarrow> string \<Rightarrow> (nat \<times> nat) list \<Rightarrow> string" where
  "dev_line pad name vs = replicate pad CHR '' '' @ name @ '':'' @ dev_counters vs"

lemma dev_spaces: "\<forall>c\<in>set (replicate n CHR '' ''). c_isspace c"
  by (simp add: char_simps)

lemma dev_counters_stop: "list_all (\<lambda>v. 0 < fst v) vs \<Longrightarrow> \<not> c_isdigit (hd (dev_counters vs))"
  by (cases vs rule: dev_counters.cases; cases "fst (hd vs)") (auto simp: char_simps)

lemma scan_dec_space: "scan_dec (dropWhile c_isspace s) = scan_dec s"
  by (simp add: scan_dec_def dropWhile_dropWhile1)

lemma scan_counter:
  assumes "int v < 2 ^ 64" and "list_all (\<lambda>v. 0 < fst v) vs"
  shows "scan_dec (dev_counters ((pad, v) # vs)) = Some (int v, dev_counters vs)"
  using scan_dec_show_nat [OF _ _ dev_spaces, of v "dev_counters vs" pad] dev_counters_stop [OF assms(2)] assms(1)
  by (simp add: ulong_max_def)

lemma scan_counter_read:
  assumes "int v < 2 ^ 64" and "list_all (\<lambda>v. 0 < fst v) vs"
  shows "c_sscanf (ScWs # ScUInt # fs) (dev_counters ((pad, v) # vs)) = ScNum (int v) # c_sscanf fs (dev_counters vs)"
    and "c_sscanf (ScWs # ScSkipInt # fs) (dev_counters ((pad, v) # vs)) = c_sscanf fs (dev_counters vs)"
  using scan_counter [OF assms, of pad] by (simp_all add: scan_dec_space del: dev_counters.simps)

lemma concat_replicate_7: "concat (replicate 7 xs) = xs @ xs @ xs @ xs @ xs @ xs @ xs"
  by (simp add: eval_nat_numeral)

lemma interface_line:
  assumes "name \<noteq> []" "length name < 32" "\<not> c_isspace (hd name)" "CHR '':'' \<notin> set name"
    and "vs = [(k0, rx), (k1, v1), (k2, v2), (k3, v3), (k4, v4), (k5, v5), (k6, v6), (k7, v7), (k8, tx)] @ rest"
    and "list_all (\<lambda>v. 0 < fst v \<and> snd v < 2 ^ 64) vs"
  shows "interface_stats_line (dev_line pad name vs)
    = Some \<lparr>is_name = name, is_rx_bytes = word_of_nat rx, is_tx_bytes = word_of_nat tx\<rparr>"
proof -
  have "dropWhile c_isspace (dev_line pad name vs) = name @ '':'' @ dev_counters vs"
    using assms(1,3) unfolding dev_line_def by (intro dropWhile_stop dev_spaces) auto
  moreover have "takeWhile (\<lambda>c. c \<noteq> CHR '':'') (name @ CHR '':'' # dev_counters vs) = name"
    using assms(4) by (intro takeWhile_hit) auto
  ultimately have head: "c_sscanf (ScWs # ScSet 31 (\<lambda>c. c \<noteq> CHR '':'') # ScLit CHR '':'' # fs) (dev_line pad name vs)
      = ScText name # c_sscanf fs (dev_counters vs)" for fs
    using assms(1,2) by simp
  have lt: "int v < 2 ^ 64" if "v < 2 ^ 64" for v
    using that by simp
  have pos: "list_all (\<lambda>v. 0 < fst v) rest" using assms(5,6) by (auto simp: list_all_iff)
  have "c_sscanf interface_stats_format (dev_line pad name vs) = ScText name #
      c_sscanf ([ScWs, ScUInt] @ concat (replicate 7 [ScWs, ScSkipInt]) @ [ScWs, ScUInt]) (dev_counters vs)"
    unfolding interface_stats_format_def append.simps head ..
  also have "\<dots> = [ScText name, ScNum (int rx), ScNum (int tx)]"
    using assms(6) pos lt unfolding assms(5)
    by (simp add: concat_replicate_7 scan_counter_read del: dev_counters.simps c_sscanf.simps(2-9))
  finally have "c_sscanf interface_stats_format (dev_line pad name vs)
      = [ScText name, ScNum (int rx), ScNum (int tx)]" .
  then show ?thesis by (simp add: interface_stats_line_def)
qed

text \<open>The counters of an interface are read from the columns the kernel puts them in: from a line of
  \<open>/proc/net/dev\<close> with any padding, the parser takes the name, the first counter as the received bytes and
  the ninth as the sent bytes, at full 64-bit precision.\<close>

lemma interface_line_parsed:
  assumes "name \<noteq> []" "length name < 32" "\<not> c_isspace (hd name)" "CHR '':'' \<notin> set name"
    and "vs = [(k0, rx), (k1, v1), (k2, v2), (k3, v3), (k4, v4), (k5, v5), (k6, v6), (k7, v7), (k8, tx)] @ rest"
    and "list_all (\<lambda>v. 0 < fst v \<and> snd v < 2 ^ 64) vs"
  shows "interface_stats_line (dev_line pad name vs)
    = Some \<lparr>is_name = name, is_rx_bytes = word_of_nat rx, is_tx_bytes = word_of_nat tx\<rparr>"
  using assms by (rule interface_line)

lemma interface_line_parsed_witness:
  "interface_stats_line (dev_line 2 ''eth0'' [(1, 1500), (2, 10), (1, 0), (1, 0), (1, 0), (1, 0), (1, 0), (1, 0), (3, 640), (1, 7)])
    = Some \<lparr>is_name = ''eth0'', is_rx_bytes = word_of_nat 1500, is_tx_bytes = word_of_nat 640\<rparr>"
  by (subst interface_line_parsed) (simp_all add: char_simps, simp_all)

text \<open>What a rate is worth: the exact quotient up to the rounding of the two \<open>double\<close> operations.\<close>

definition near :: "rat \<Rightarrow> rat \<Rightarrow> bool" where
  "near x exact \<longleftrightarrow> 0 \<le> x \<and> \<bar>x - exact\<bar> \<le> exact * (1 / 2 ^ 51)"

lemma near_rate:
  assumes "0 < e"
  shows "near (dbl (dbl (of_nat n) / e)) (of_nat n / e)"
proof -
  let ?x = "of_nat n :: rat"
  have a: "\<bar>dbl ?x - ?x\<bar> \<le> ?x * (1 / 2 ^ 53)"
    using fl_error [of 53 ?x] unfolding two_powi(2) by simp
  have pos: "0 \<le> dbl ?x" by (rule fl_nonneg) simp
  have b: "\<bar>dbl (dbl ?x / e) - dbl ?x / e\<bar> \<le> dbl ?x / e * (1 / 2 ^ 53)"
    using fl_error [of 53 "dbl ?x / e"] pos assms unfolding two_powi(2) by simp
  have "\<bar>dbl ?x / e - ?x / e\<bar> = \<bar>dbl ?x - ?x\<bar> / e"
    using assms by (simp add: diff_divide_distrib [symmetric])
  also have "\<dots> \<le> ?x * (1 / 2 ^ 53) / e" using a assms by (intro divide_right_mono) simp_all
  also have "\<dots> = ?x / e * (1 / 2 ^ 53)" by simp
  finally have c: "\<bar>dbl ?x / e - ?x / e\<bar> \<le> ?x / e * (1 / 2 ^ 53)" .
  have q: "0 \<le> ?x / e" using assms by simp
  have d: "dbl ?x / e \<le> ?x / e * 2"
    using c q by (simp add: abs_le_iff)
  have "\<bar>dbl (dbl ?x / e) - ?x / e\<bar> \<le> dbl ?x / e * (1 / 2 ^ 53) + ?x / e * (1 / 2 ^ 53)"
    using b c by linarith
  also have "\<dots> \<le> ?x / e * 2 * (1 / 2 ^ 53) + ?x / e * (1 / 2 ^ 53)"
    using d by (intro add_right_mono mult_right_mono) simp_all
  also have "\<dots> \<le> ?x / e * (1 / 2 ^ 51)" using q by (simp add: mult_ac)
  finally have "\<bar>dbl (dbl ?x / e) - ?x / e\<bar> \<le> ?x / e * (1 / 2 ^ 51)" .
  moreover have "0 \<le> dbl (dbl ?x / e)" using pos assms by (intro fl_nonneg) simp
  ultimately show ?thesis by (simp add: near_def)
qed

text \<open>The bytes that a counter gained, 0 when it went backwards or the interface is new.\<close>

definition gained :: "(TrfxInterfaceStat \<Rightarrow> u64) \<Rightarrow> TrfxInterfaceStat list \<Rightarrow> TrfxInterfaceStat \<Rightarrow> nat" where
  "gained counter prev cur =
     (case List.find (\<lambda>s. is_name s = is_name cur) prev of
        None \<Rightarrow> 0 | Some p \<Rightarrow> unat (counter cur) - unat (counter p))"

lemma unat_counter_delta_aux: "unsigned w = (of_nat (unat w) :: rat)" for w :: u64
  by simp

lemma unat_counter_delta: "unat (counter_delta p c) = unat c - unat p"
  by (auto simp: counter_delta_def word_le_nat_alt unat_sub)

text \<open>C17. The transfer rates are the bytes gained since the previous sample per elapsed second, for every
  current interface in order: never negative, 0 for a new interface and after a counter reset (no 64-bit
  wrap-around becomes a rate), and otherwise exact up to a relative error of \<open>2 ^ -51\<close>.\<close>

theorem interface_rates_exact:
  assumes "0 < elapsed" and "0 < max_rates"
  shows "\<exists>rates. trfx_calculate_interface_rates (Some prev) (Some cur) elapsed max_rates = Some rates
    \<and> length rates = min (nat max_rates) (length cur)
    \<and> list_all2 (\<lambda>r c. ir_name r = take 31 (is_name c)
         \<and> near (ir_rx_bytes_per_sec r) (of_nat (gained is_rx_bytes prev c) / elapsed)
         \<and> near (ir_tx_bytes_per_sec r) (of_nat (gained is_tx_bytes prev c) / elapsed))
       rates (take (nat max_rates) cur)"
proof -
  have delta: "near (dbl (dbl (unsigned (counter_delta p c)) / elapsed)) (of_nat (unat c - unat p) / elapsed)" for p c
    using near_rate [OF assms(1), of "unat (counter_delta p c)"] by (simp add: unat_counter_delta_aux unat_counter_delta del: of_nat_unat)
  have "ir_name (interface_rate (Some prev) elapsed c) = take 31 (is_name c)
      \<and> near (ir_rx_bytes_per_sec (interface_rate (Some prev) elapsed c)) (of_nat (gained is_rx_bytes prev c) / elapsed)
      \<and> near (ir_tx_bytes_per_sec (interface_rate (Some prev) elapsed c)) (of_nat (gained is_tx_bytes prev c) / elapsed)"
    for c
    using delta near_rate [OF assms(1), of 0]
    by (auto simp: interface_rate_def find_stat_def gained_def Let_def fit_def split: option.splits)
  then show ?thesis
    using assms by (simp add: trfx_calculate_interface_rates_def list_all2_map1 list.rel_refl min.commute)
qed

lemma interface_rates_exact_witness:
  "\<exists>r. trfx_calculate_interface_rates
       (Some [\<lparr>is_name = ''eth0'', is_rx_bytes = 100, is_tx_bytes = 900\<rparr>])
       (Some [\<lparr>is_name = ''eth0'', is_rx_bytes = 1100, is_tx_bytes = 20\<rparr>]) 2 20 = Some [r]
     \<and> near (ir_rx_bytes_per_sec r) 500 \<and> ir_tx_bytes_per_sec r = 0"
proof -
  let ?p = "[\<lparr>is_name = ''eth0'', is_rx_bytes = 100, is_tx_bytes = 900\<rparr>]"
    and ?c = "[\<lparr>is_name = ''eth0'', is_rx_bytes = 1100, is_tx_bytes = 20\<rparr>]"
  have g: "gained is_rx_bytes ?p (hd ?c) = 1000" "gained is_tx_bytes ?p (hd ?c) = 0"
    by (simp_all add: gained_def)
  obtain rates where "trfx_calculate_interface_rates (Some ?p) (Some ?c) 2 20 = Some rates"
    and "list_all2 (\<lambda>r c. near (ir_rx_bytes_per_sec r) (of_nat (gained is_rx_bytes ?p c) / 2)
       \<and> near (ir_tx_bytes_per_sec r) (of_nat (gained is_tx_bytes ?p c) / 2)) rates ?c"
    using interface_rates_exact [of 2 20 ?p ?c] by (auto simp: list_all2_Cons2)
  then show ?thesis using g by (auto simp: list_all2_Cons2 near_def)
qed

end
