(* ===== verification/Wifi.thy ===== *)
theory Wifi
  imports OsView
begin

text \<open>
  \<open>src/trfx_wifi.c\<close>: the Wi-Fi data of an interface from \<open>iw\<close> and its hardware address from \<open>ip link\<close>.
  The hardware address lives in a static buffer, so it is a state that the calls pass on.
\<close>

record WifiInfo =
  wi_ssid :: string
  wi_signal_strength :: string
  wi_bitrate :: string
  wi_freq :: string

definition wifi_none :: WifiInfo where
  "wifi_none = \<lparr>wi_ssid = ''N/A'', wi_signal_strength = ''N/A'', wi_bitrate = ''N/A'', wi_freq = ''N/A''\<rparr>"

definition is_valid_iface :: "string option \<Rightarrow> bool" where
  "is_valid_iface iface =
     (case iface of None \<Rightarrow> False
      | Some s \<Rightarrow> length s \<le> 15 \<and> list_all (\<lambda>c. c_isalnum c \<or> c = CHR ''_'') s)"

text \<open>\<open>sscanf(line, "KEY: %63[^\n]", dest)\<close>, which keeps \<open>dest\<close> when the text does not match.\<close>

definition scan_value :: "string \<Rightarrow> nat \<Rightarrow> string \<Rightarrow> string \<Rightarrow> string" where
  "scan_value key w line dest =
     (case c_sscanf (sc_lits key @ [ScWs, ScSet w (\<lambda>c. c \<noteq> nl)]) line of [ScText t] \<Rightarrow> t | _ \<Rightarrow> dest)"

definition wifi_line :: "WifiInfo \<Rightarrow> string \<Rightarrow> WifiInfo" where
  "wifi_line info line =
     (if c_strstr line ''SSID:'' \<noteq> None
      then info\<lparr>wi_ssid := scan_value ''SSID:'' 63 line (wi_ssid info)\<rparr>
      else if c_strstr line ''signal:'' \<noteq> None
      then info\<lparr>wi_signal_strength := scan_value ''signal:'' 31 line (wi_signal_strength info)\<rparr>
      else if c_strstr line ''tx bitrate:'' \<noteq> None
      then info\<lparr>wi_bitrate := scan_value ''tx bitrate:'' 31 line (wi_bitrate info)\<rparr>
      else if c_strstr line ''freq:'' \<noteq> None
      then info\<lparr>wi_freq := scan_value ''freq:'' 31 line (wi_freq info)\<rparr>
      else info)"

definition iw_command :: "string \<Rightarrow> string" where
  "iw_command iface = ''iw dev '' @ iface @ '' link 2>/dev/null''"

definition get_wifi_info :: "os_view \<Rightarrow> string option \<Rightarrow> WifiInfo" where
  "get_wifi_info os iface =
     (if \<not> is_valid_iface iface then wifi_none
      else (case os_cmd os (fit 160 (iw_command (the iface))) of
              None \<Rightarrow> wifi_none
            | Some out \<Rightarrow> foldl wifi_line wifi_none (c_lines 256 out)))"

text \<open>The first line with \<open>link/ether\<close> decides, whether or not an address follows on it.\<close>

fun mac_lines :: "string list \<Rightarrow> string \<Rightarrow> string" where
  "mac_lines [] mac = mac"
| "mac_lines (l # ls) mac =
     (case c_strstr l ''link/ether'' of
        None \<Rightarrow> mac_lines ls mac
      | Some p \<Rightarrow> (case c_sscanf [ScStr 31] (drop 11 p) of [ScText t] \<Rightarrow> t | _ \<Rightarrow> mac))"

definition mac_start :: string where "mac_start = ''N/A''"

definition get_mac_address :: "os_view \<Rightarrow> string option \<Rightarrow> string \<Rightarrow> string" where
  "get_mac_address os iface mac =
     (if \<not> is_valid_iface iface then mac
      else (case os_cmd os (fit 160 (''ip link show '' @ the iface @ '' 2>/dev/null'')) of
              None \<Rightarrow> mac
            | Some out \<Rightarrow> mac_lines (c_lines 256 out) mac))"

section \<open>Indented output\<close>

text \<open>A literal in a \<open>scanf\<close> format does not skip white space.\<close>

lemma scan_value_indented:
  assumes "l = [] \<or> c_isspace (hd l)" and "key \<noteq> []" and "\<not> c_isspace (hd key)"
  shows "scan_value key w l dest = dest"
proof -
  obtain k ks where "key = k # ks" using assms(2) by (cases key) auto
  then show ?thesis
    using assms by (cases l) (auto simp: scan_value_def sc_lits_def)
qed

lemma wifi_line_indented: "l = [] \<or> c_isspace (hd l) \<Longrightarrow> wifi_line info l = info"
  by (simp add: wifi_line_def scan_value_indented char_simps)

lemma wifi_line_other:
  "c_strstr l ''SSID:'' = None \<Longrightarrow> c_strstr l ''signal:'' = None \<Longrightarrow> c_strstr l ''tx bitrate:'' = None \<Longrightarrow>
   c_strstr l ''freq:'' = None \<Longrightarrow> wifi_line info l = info"
  by (simp add: wifi_line_def)

definition iw_line_plain :: "string \<Rightarrow> bool" where
  "iw_line_plain l \<longleftrightarrow> l = [] \<or> c_isspace (hd l)
     \<or> (c_strstr l ''SSID:'' = None \<and> c_strstr l ''signal:'' = None \<and> c_strstr l ''tx bitrate:'' = None
        \<and> c_strstr l ''freq:'' = None)"

text \<open>The Wi-Fi data are never found in the output of \<open>iw\<close>: its value lines are indented by a tab, and the
  formats that read the values start with a letter, so on output whose lines are indented or hold no
  key every field keeps \<open>N/A\<close>, even where the connected network is printed.\<close>

lemma wifi_info_of_indented_output:
  assumes "os_cmd os (fit 160 (iw_command iface)) = Some out"
    and "list_all iw_line_plain (c_lines 256 out)"
  shows "get_wifi_info os (Some iface) = wifi_none"
proof -
  have "foldl wifi_line wifi_none (c_lines 256 out) = wifi_none"
  proof (rule foldl_invariant [of "\<lambda>i. i = wifi_none"])
    fix i l assume "i = wifi_none" and "l \<in> set (c_lines 256 out)"
    moreover from this(2) have "iw_line_plain l" using assms(2) by (simp add: list_all_iff)
    ultimately show "wifi_line i l = wifi_none"
      using wifi_line_indented wifi_line_other by (auto simp: iw_line_plain_def)
  qed simp
  then show ?thesis using assms(1) by (simp add: get_wifi_info_def)
qed

lemma wifi_info_of_indented_output_witness:
  "get_wifi_info (os_empty\<lparr>os_cmd := (\<lambda>c. Some (''Connected to 02:00'' @ [nl] @ [tab] @ ''SSID: home'' @ [nl]))\<rparr>)
     (Some ''wlan0'') = wifi_none"
proof -
  have lines: "c_lines 256 (''Connected to 02:00'' @ [nl] @ [tab] @ ''SSID: home'' @ [nl])
      = [''Connected to 02:00'' @ [nl], [tab] @ ''SSID: home'' @ [nl]]"
    using c_lines_line [of "''Connected to 02:00''" 256 "([tab] @ ''SSID: home'') @ nl # []"]
      c_lines_line [of "[tab] @ ''SSID: home''" 256 "[]"] by simp
  have "list_all iw_line_plain (c_lines 256 (''Connected to 02:00'' @ [nl] @ [tab] @ ''SSID: home'' @ [nl]))"
    unfolding lines by (simp add: iw_line_plain_def starts_with_def char_simps)
  then show ?thesis by (rule wifi_info_of_indented_output [rotated]) simp
qed

text \<open>The hardware address survives from one interface to the next: for an interface without a
  \<open>link/ether\<close> line, or one whose name the check refuses, the function returns the address of the
  interface that was asked for before.\<close>

lemma mac_address_stale:
  assumes "list_all (\<lambda>l. c_strstr l ''link/ether'' = None) (c_lines 256 out)"
    and "is_valid_iface (Some iface) \<Longrightarrow>
       os_cmd os (fit 160 (''ip link show '' @ iface @ '' 2>/dev/null'')) = Some out"
  shows "get_mac_address os (Some iface) previous = previous"
proof -
  have "mac_lines ls previous = previous" if "list_all (\<lambda>l. c_strstr l ''link/ether'' = None) ls" for ls
    using that by (induction ls) auto
  then show ?thesis using assms by (simp add: get_mac_address_def)
qed

lemma mac_address_stale_witness:
  "get_mac_address (os_empty\<lparr>os_cmd := (\<lambda>c. Some (''1: tun0: mtu'' @ [nl]))\<rparr>) (Some ''tun0'') ''02:00:00:00:00:01''
     = ''02:00:00:00:00:01''"
proof (rule mac_address_stale)
  have "c_lines 256 (''1: tun0: mtu'' @ [nl]) = [''1: tun0: mtu'' @ [nl]]"
    using c_lines_line [of "''1: tun0: mtu''" 256 "[]"] by simp
  then show "list_all (\<lambda>l. c_strstr l ''link/ether'' = None) (c_lines 256 (''1: tun0: mtu'' @ [nl]))"
    by (simp add: starts_with_def)
qed simp

end
