(* ===== verification/SocketOwners.thy ===== *)
theory SocketOwners
  imports OsView
begin

text \<open>
  \<open>src/trfx_socket_owners.c\<close>: the map from socket inodes to the processes that hold them, built from
  the links below \<open>/proc\<close>, and the table of owned IPv4 sockets. An array with its count is the list of
  its filled rows. The addresses in \<open>/proc/net\<close> are 32-bit numbers in the byte order of the machine;
  the model is that of a little-endian one.
\<close>

record TrfxSocketOwnerMapEntry =
  ome_inode :: u64
  ome_pid :: string
  ome_process :: string

record SocketOwnerInfo =
  so_pid :: string
  so_process :: string
  so_laddr :: string
  so_lport :: string
  so_raddr :: string
  so_rport :: string
  so_proto :: string

text \<open>The return value and the two destinations afterwards.\<close>

definition trfx_find_socket_owner_by_inode ::
  "TrfxSocketOwnerMapEntry list option \<Rightarrow> int \<Rightarrow> u64 \<Rightarrow> string option \<Rightarrow> nat \<Rightarrow> string option \<Rightarrow> nat \<Rightarrow>
   int \<times> string option \<times> string option" where
  "trfx_find_socket_owner_by_inode entries entry_count inode pid pid_size process process_size =
     (let pid0 = put_buf pid pid_size ''-'';
          process0 = put_buf process process_size ''-''
      in case entries of None \<Rightarrow> (0, pid0, process0)
         | Some es \<Rightarrow>
             if entry_count \<le> 0 \<or> inode = 0 then (0, pid0, process0)
             else (case List.find (\<lambda>e. ome_inode e = inode) (take (nat entry_count) es) of
                     None \<Rightarrow> (0, pid0, process0)
                   | Some e \<Rightarrow> (1, put_buf pid0 pid_size (ome_pid e),
                                   put_buf process0 process_size (ome_process e))))"

text \<open>
  \<open>hex_to_ip_port\<close>: \<open>ip0\<close> and \<open>port0\<close> are the values of the uninitialised locals, which stay when a
  text does not start with a hexadecimal number.
\<close>

definition le_bytes :: "u32 \<Rightarrow> nat list" where
  "le_bytes w = (let n = unat w in [n mod 256, n div 256 mod 256, n div 65536 mod 256, n div 16777216 mod 256])"

definition scan_u32 :: "u32 \<Rightarrow> string \<Rightarrow> u32" where
  "scan_u32 junk s = (case c_sscanf [ScHex None] s of [ScNum v] \<Rightarrow> word_of_int v | _ \<Rightarrow> junk)"

definition hex_to_ip_port :: "u32 \<Rightarrow> u32 \<Rightarrow> string \<Rightarrow> string \<Rightarrow> string \<times> string" where
  "hex_to_ip_port ip0 port0 hex_ip hex_port =
     (fit 64 (c_inet_ntop4 (le_bytes (scan_u32 ip0 hex_ip))),
      fit 8 (show_u32 (scan_u32 port0 hex_port)))"

definition get_process_name_by_pid :: "os_view \<Rightarrow> string \<Rightarrow> nat \<Rightarrow> string" where
  "get_process_name_by_pid os pid name_size =
     (case os_file os (fit 256 (''/proc/'' @ pid @ ''/comm'')) of
        None \<Rightarrow> fit name_size ''-''
      | Some text \<Rightarrow>
          (case c_fgets name_size text of
             None \<Rightarrow> fit name_size ''-''
           | Some (name, _) \<Rightarrow> if name \<noteq> [] \<and> last name = nl then butlast name else name))"

definition socket_owner_format :: "scan_dir list" where
  "socket_owner_format =
     [ScSkipInt, ScLit CHR '':'', ScWs, ScStr 8, ScLit CHR '':'', ScStr 4, ScWs,
      ScStr 8, ScLit CHR '':'', ScStr 4, ScWs, ScHex (Some 2), ScWs, ScSkipStr, ScWs, ScSkipStr, ScWs,
      ScSkipStr, ScWs, ScUInt, ScWs, ScSkipInt, ScWs, ScUInt]"

text \<open>One line of the table: the row it adds, if any.\<close>

definition socket_owner_line ::
  "u32 \<times> u32 \<Rightarrow> string \<Rightarrow> TrfxSocketOwnerMapEntry list option \<Rightarrow> int \<Rightarrow> string \<Rightarrow> SocketOwnerInfo option" where
  "socket_owner_line junk proto entries entry_count line =
     (case c_sscanf socket_owner_format line of
        [ScText lip, ScText lport, ScText rip, ScText rport, ScNum _, ScNum _, ScNum ino] \<Rightarrow>
          (let inode = (word_of_int ino :: u32)
           in if inode = 0 then None
              else (case trfx_find_socket_owner_by_inode entries entry_count (ucast inode)
                           (Some []) 16 (Some []) 64 of
                      (found, pid, process) \<Rightarrow>
                        if found = 0 then None
                        else (let (la, lp) = hex_to_ip_port (fst junk) (snd junk) lip lport;
                                  (ra, rp) = hex_to_ip_port (fst junk) (snd junk) rip rport
                              in Some \<lparr>so_pid = fit 16 (the pid), so_process = fit 64 (the process),
                                       so_laddr = la, so_lport = lp, so_raddr = ra, so_rport = rp,
                                       so_proto = fit 8 proto\<rparr>)))
      | _ \<Rightarrow> None)"

text \<open>\<open>rows\<close> are the rows filled so far, so \<open>start_count\<close> is their number.\<close>

definition trfx_parse_socket_owner_path ::
  "os_view \<Rightarrow> u32 \<times> u32 \<Rightarrow> string option \<Rightarrow> string option \<Rightarrow> TrfxSocketOwnerMapEntry list option \<Rightarrow> int \<Rightarrow>
   SocketOwnerInfo list option \<Rightarrow> int \<Rightarrow> SocketOwnerInfo list option" where
  "trfx_parse_socket_owner_path os junk path proto entries entry_count list max_count =
     (case (path, proto, list) of
        (Some p, Some pr, Some rows) \<Rightarrow>
          if max_count \<le> int (length rows) then Some rows
          else (case os_file os p of
                  None \<Rightarrow> Some rows
                | Some text \<Rightarrow>
                    Some (collect_rows (nat max_count) (socket_owner_line junk pr entries entry_count)
                            (tl (c_lines 512 text)) rows))
      | _ \<Rightarrow> list)"

section \<open>Scanning /proc\<close>

definition socket_link_inode :: "string \<Rightarrow> u64 option" where
  "socket_link_inode target =
     (case c_sscanf (sc_lits ''socket:['' @ [ScUInt, ScLit CHR '']'']) (take 511 target) of
        [ScNum v] \<Rightarrow> if (word_of_int v :: u64) = 0 then None else Some (word_of_int v)
      | _ \<Rightarrow> None)"

definition scan_fd_entry :: "os_view \<Rightarrow> string \<Rightarrow> string \<Rightarrow> string \<Rightarrow> TrfxSocketOwnerMapEntry option" where
  "scan_fd_entry os proc_name fd_dir fd_name =
     (if (fd_name \<noteq> [] \<and> hd fd_name = CHR ''.'') \<or> 512 \<le> length fd_dir + 1 + length fd_name then None
      else (case os_link os (fd_dir @ ''/'' @ fd_name) of
              None \<Rightarrow> None
            | Some target \<Rightarrow>
                (case socket_link_inode target of
                   None \<Rightarrow> None
                 | Some inode \<Rightarrow>
                     let pid = take 15 proc_name
                     in Some \<lparr>ome_inode = inode, ome_pid = pid,
                              ome_process = get_process_name_by_pid os pid 64\<rparr>)))"

definition scan_proc_entry ::
  "os_view \<Rightarrow> nat \<Rightarrow> TrfxSocketOwnerMapEntry list \<Rightarrow> string \<Rightarrow> TrfxSocketOwnerMapEntry list" where
  "scan_proc_entry os mx acc proc_name =
     (if \<not> length acc < mx \<or> proc_name = [] \<or> \<not> c_isdigit (hd proc_name) then acc
      else (let fd_dir = fit 300 (''/proc/'' @ take 200 proc_name @ ''/fd'')
            in case os_dir os fd_dir of
                 None \<Rightarrow> acc
               | Some fds \<Rightarrow> collect_rows mx (scan_fd_entry os proc_name fd_dir) fds acc))"

definition trfx_scan_socket_owner_map :: "os_view \<Rightarrow> int \<Rightarrow> TrfxSocketOwnerMapEntry list" where
  "trfx_scan_socket_owner_map os max_entries =
     (if max_entries \<le> 0 then []
      else (case os_dir os ''/proc'' of
              None \<Rightarrow> []
            | Some names \<Rightarrow> foldl (scan_proc_entry os (nat max_entries)) [] names))"

definition max_socket_owner_map_entries :: int where "max_socket_owner_map_entries = 4096"
definition max_socket_owners :: int where "max_socket_owners = 256"

definition get_socket_owner_info ::
  "os_view \<Rightarrow> u32 \<times> u32 \<Rightarrow> int \<Rightarrow> SocketOwnerInfo list" where
  "get_socket_owner_info os junk max_owners =
     (if max_owners \<le> 0 then []
      else (let owner_map = trfx_scan_socket_owner_map os max_socket_owner_map_entries;
                n = int (length owner_map);
                tcp = trfx_parse_socket_owner_path os junk (Some ''/proc/net/tcp'') (Some ''TCP'')
                        (Some owner_map) n (Some []) max_owners
            in the (trfx_parse_socket_owner_path os junk (Some ''/proc/net/udp'') (Some ''UDP'')
                      (Some owner_map) n tcp max_owners)))"

section \<open>Looking up an owner\<close>

text \<open>The lookup of a socket's owner reports the first entry of the map with that inode and copies its
  process id and name, cut to the two buffers; without such an entry, and always for inode 0 (a
  socket that belongs to no process), it reports failure and leaves the placeholder \<open>-\<close> in both.\<close>

lemma find_owner_first_match:
  assumes "n = int (length es)" and "0 < ps" and "0 < cs"
  shows "trfx_find_socket_owner_by_inode (Some es) n inode (Some p) ps (Some c) cs =
    (case (if inode = 0 then None else find_index (\<lambda>e. ome_inode e = inode) es) of
       Some i \<Rightarrow> (1, Some (fit ps (ome_pid (es ! i))), Some (fit cs (ome_process (es ! i))))
     | None \<Rightarrow> (0, Some (fit ps ''-''), Some (fit cs ''-'')))"
proof -
  have "List.find P es = map_option (\<lambda>i. es ! i) (find_index P es)" for P
    by (induction es) (auto simp: option.map_comp comp_def)
  then show ?thesis
    using assms by (auto simp: trfx_find_socket_owner_by_inode_def Let_def split: option.splits)
qed

lemma find_owner_first_match_witness:
  "trfx_find_socket_owner_by_inode (Some [\<lparr>ome_inode = 7, ome_pid = ''12'', ome_process = ''sshd''\<rparr>,
       \<lparr>ome_inode = 7, ome_pid = ''99'', ome_process = ''cat''\<rparr>]) 2 7 (Some []) 16 (Some []) 64
     = (1, Some ''12'', Some ''sshd'')"
  by (subst find_owner_first_match) simp_all

lemma find_owner_some:
  assumes "trfx_find_socket_owner_by_inode (Some es) n inode (Some p) ps (Some c) cs = (r, a, b)" and "r \<noteq> 0"
  shows "\<exists>e\<in>set es. ome_inode e = inode \<and> inode \<noteq> 0
    \<and> a = put_buf (Some p) ps (ome_pid e) \<and> b = put_buf (Some c) cs (ome_process e)"
  using assms
  by (auto simp: trfx_find_socket_owner_by_inode_def Let_def split: if_splits option.splits
      dest!: find_Some_set dest: in_set_takeD)

section \<open>The two tables\<close>

lemma scan_proc_entry_length: "length acc \<le> mx \<Longrightarrow> length (scan_proc_entry os mx acc d) \<le> mx"
  by (auto simp: scan_proc_entry_def Let_def collect_rows_length split: option.splits)

lemma scan_map_length: "int (length (trfx_scan_socket_owner_map os mx)) \<le> max 0 mx"
proof -
  have "length (foldl (scan_proc_entry os (nat mx)) [] names) \<le> nat mx" for names
    by (rule foldl_invariant) (simp_all add: scan_proc_entry_length)
  then have "int (length (foldl (scan_proc_entry os (nat mx)) [] names)) \<le> mx" if "0 < mx" for names
    using that by (metis le_nat_iff less_imp_le of_nat_0_le_iff int_nat_eq nat_le_iff)
  then show ?thesis
    by (auto simp: trfx_scan_socket_owner_map_def split: option.splits)
qed

definition owner_entry_ok :: "TrfxSocketOwnerMapEntry \<Rightarrow> bool" where
  "owner_entry_ok e \<longleftrightarrow> ome_inode e \<noteq> 0 \<and> length (ome_pid e) < 16 \<and> length (ome_process e) < 64"

lemma process_name_length: "1 < n \<Longrightarrow> length (get_process_name_by_pid os pid n) < n"
proof -
  assume n: "1 < n"
  have "length l < n" if "c_fgets n t = Some (l, r)" for l r t
    using that n by (auto simp: c_fgets_def Let_def split: if_splits)
  with n show ?thesis
    by (auto simp: get_process_name_by_pid_def length_fit split: option.splits dest: order.strict_trans1 [rotated])
       (metis diff_le_self le_less_trans length_butlast)
qed

lemma scan_fd_entry_ok: "scan_fd_entry os d fd f = Some e \<Longrightarrow> owner_entry_ok e"
  using process_name_length [of 64]
  by (auto simp: scan_fd_entry_def owner_entry_ok_def socket_link_inode_def Let_def
      split: if_splits option.splits list.splits scan_val.splits)

lemma scan_proc_entry_ok:
  assumes "\<forall>e\<in>set acc. owner_entry_ok e"
  shows "\<forall>e\<in>set (scan_proc_entry os mx acc d). owner_entry_ok e"
proof -
  have "\<forall>e\<in>set (collect_rows mx (scan_fd_entry os d fd) fds acc). owner_entry_ok e" for fd fds
    using assms by (rule collect_rows_all) (rule scan_fd_entry_ok)
  with assms show ?thesis by (auto simp: scan_proc_entry_def Let_def split: option.splits)
qed

lemma scan_map_ok: "\<forall>e\<in>set (trfx_scan_socket_owner_map os mx). owner_entry_ok e"
proof -
  have "\<forall>e\<in>set (foldl (scan_proc_entry os (nat mx)) [] names). owner_entry_ok e" for names
    by (rule foldl_invariant) (simp_all add: scan_proc_entry_ok)
  then show ?thesis by (auto simp: trfx_scan_socket_owner_map_def split: option.splits)
qed

section \<open>The table of owned sockets\<close>

definition owned_row :: "TrfxSocketOwnerMapEntry list \<Rightarrow> SocketOwnerInfo \<Rightarrow> bool" where
  "owned_row es r \<longleftrightarrow> (\<exists>e\<in>set es. so_pid r = ome_pid e \<and> so_process r = ome_process e)
     \<and> so_proto r \<in> {''TCP'', ''UDP''} \<and> CHR '':'' \<notin> set (so_laddr r) \<and> CHR '':'' \<notin> set (so_raddr r)"

lemma hex_to_ip_port_no_colon: "CHR '':'' \<notin> set (fst (hex_to_ip_port a b s t))"
  using inet_ntop4_no_colon by (auto simp: hex_to_ip_port_def fit_def dest: in_set_takeD)

lemma owner_line_row:
  assumes "\<forall>e\<in>set es. owner_entry_ok e" and "proto \<in> {''TCP'', ''UDP''}"
    and "socket_owner_line junk proto (Some es) n line = Some r"
  shows "owned_row es r"
proof -
  from assms(3) obtain inode found pid process lip lport rip rport where
    f: "trfx_find_socket_owner_by_inode (Some es) n inode (Some []) 16 (Some []) 64 = (found, pid, process)"
      "found \<noteq> 0"
    and r: "so_pid r = fit 16 (the pid)" "so_process r = fit 64 (the process)"
      "so_laddr r = fst (hex_to_ip_port (fst junk) (snd junk) lip lport)"
      "so_raddr r = fst (hex_to_ip_port (fst junk) (snd junk) rip rport)" "so_proto r = fit 8 proto"
    by (auto simp: socket_owner_line_def Let_def split: list.splits scan_val.splits prod.splits if_splits)
       (metis fst_conv)
  from find_owner_some [OF f] obtain e where "e \<in> set es" "the pid = fit 16 (ome_pid e)"
    "the process = fit 64 (ome_process e)" by auto
  then show ?thesis
    using assms(1,2) hex_to_ip_port_no_colon
    unfolding owned_row_def r by (auto simp: owner_entry_ok_def)
qed

lemma parse_owner_path:
  assumes "\<forall>e\<in>set es. owner_entry_ok e" and "proto \<in> {''TCP'', ''UDP''}"
    and "\<forall>r\<in>set rows. owned_row es r" and "int (length rows) \<le> mx"
  shows "\<exists>rows'. trfx_parse_socket_owner_path os junk (Some p) (Some proto) (Some es) n (Some rows) mx = Some rows'
     \<and> (\<forall>r\<in>set rows'. owned_row es r) \<and> int (length rows') \<le> mx"
proof (cases "mx \<le> int (length rows) \<or> os_file os p = None")
  case True
  with assms(3,4) show ?thesis by (auto simp: trfx_parse_socket_owner_path_def)
next
  case False
  then obtain content where "os_file os p = Some content" by auto
  let ?rows = "collect_rows (nat mx) (socket_owner_line junk proto (Some es) n) (tl (c_lines 512 content)) rows"
  have "\<forall>r\<in>set ?rows. owned_row es r"
    using assms(3) by (rule collect_rows_all) (rule owner_line_row [OF assms(1,2)])
  moreover have "length ?rows \<le> nat mx" using assms(4) by (intro collect_rows_length) simp
  then have "int (length ?rows) \<le> mx" using assms(4) by simp
  ultimately show ?thesis
    using False \<open>os_file os p = Some content\<close> by (simp add: trfx_parse_socket_owner_path_def)
qed

lemma socket_rows:
  "int (length (get_socket_owner_info os junk mx)) \<le> max 0 mx
 \<and> (\<forall>r\<in>set (get_socket_owner_info os junk mx).
      owned_row (trfx_scan_socket_owner_map os max_socket_owner_map_entries) r)"
proof (cases "mx \<le> 0")
  case False
  let ?es = "trfx_scan_socket_owner_map os max_socket_owner_map_entries"
  note p = parse_owner_path [where es = ?es and mx = mx and n = "int (length ?es)", OF scan_map_ok]
  obtain tcp where tcp: "trfx_parse_socket_owner_path os junk (Some ''/proc/net/tcp'') (Some ''TCP'')
      (Some ?es) (int (length ?es)) (Some []) mx = Some tcp"
    and tcp_ok: "\<forall>r\<in>set tcp. owned_row ?es r" "int (length tcp) \<le> mx"
    using p [of "''TCP''" "[]" os junk "''/proc/net/tcp''"] False by auto
  obtain udp where "trfx_parse_socket_owner_path os junk (Some ''/proc/net/udp'') (Some ''UDP'')
      (Some ?es) (int (length ?es)) (Some tcp) mx = Some udp"
    and "\<forall>r\<in>set udp. owned_row ?es r" "int (length udp) \<le> mx"
    using p [of "''UDP''" tcp os junk "''/proc/net/udp''"] tcp_ok by auto
  with False tcp show ?thesis by (simp add: get_socket_owner_info_def Let_def)
qed (simp add: get_socket_owner_info_def)

lemma owned_rows:
  "r \<in> set (get_socket_owner_info os junk mx) \<Longrightarrow>
     owned_row (trfx_scan_socket_owner_map os max_socket_owner_map_entries) r"
  using socket_rows by blast

text \<open>The table of socket owners never overruns its array, and every row in it is a TCP or UDP socket
  whose process id and name are those of an entry of the map built from \<open>/proc\<close>: a socket without a
  known owner is never listed. Its two addresses are bare IPv4 addresses, without a port.\<close>

lemma socket_table_owned:
  "int (length (get_socket_owner_info os junk mx)) \<le> max 0 mx
 \<and> list_all (owned_row (trfx_scan_socket_owner_map os max_socket_owner_map_entries))
     (get_socket_owner_info os junk mx)"
  using socket_rows by (simp add: list_all_iff)

end
