(* ===== verification/CSort.thy ===== *)
theory CSort
  imports CLib
begin

text \<open>
  \<open>qsort\<close>. The C standard leaves the order of elements that compare equal open, so the facts that the
  development uses are those of the locale \<open>sorter\<close>: the result is a permutation, and it is ordered
  when the comparison is a total preorder. The model that the components call is an insertion sort
  that keeps the order of equal elements, as the merge sort of the GNU library does.
\<close>

definition cmp_order :: "('a \<Rightarrow> 'a \<Rightarrow> int) \<Rightarrow> bool" where
  "cmp_order cmp \<longleftrightarrow> (\<forall>a b. cmp a b \<le> 0 \<or> cmp b a \<le> 0)
                  \<and> (\<forall>a b c. cmp a b \<le> 0 \<longrightarrow> cmp b c \<le> 0 \<longrightarrow> cmp a c \<le> 0)"

lemma cmp_order_rank: "cmp_order (\<lambda>a b. f a - f b)" for f :: "'a \<Rightarrow> int"
  by (auto simp: cmp_order_def)

locale sorter =
  fixes qs :: "('a \<Rightarrow> 'a \<Rightarrow> int) \<Rightarrow> 'a list \<Rightarrow> 'a list"
  assumes qs_mset: "mset (qs cmp xs) = mset xs"
    and qs_sorted: "cmp_order cmp \<Longrightarrow> sorted_wrt (\<lambda>a b. cmp a b \<le> 0) (qs cmp xs)"
begin

lemma qs_set: "set (qs cmp xs) = set xs"
  using qs_mset [of cmp xs] by (metis set_mset_mset)

lemma qs_length: "length (qs cmp xs) = length xs"
  using qs_mset [of cmp xs] by (metis size_mset)

lemma qs_Nil: "qs cmp [] = []"
  using qs_length [of cmp "[]"] by simp

text \<open>Sorting by a rank puts every element before those of a higher rank.\<close>

lemma qs_rank_sorted: "sorted (map f (qs (\<lambda>a b. f a - f b) xs))" for f :: "'a \<Rightarrow> int"
  using qs_sorted [OF cmp_order_rank [of f], of xs] by (simp add: sorted_wrt_map)

lemma qs_rank_nth:
  fixes f :: "'a \<Rightarrow> int"
  assumes "i < j" and "j < length xs"
  shows "f (qs (\<lambda>a b. f a - f b) xs ! i) \<le> f (qs (\<lambda>a b. f a - f b) xs ! j)"
  using sorted_wrt_nth_less [OF qs_sorted [OF cmp_order_rank [of f]] assms(1)] assms(2)
  by (simp add: qs_length)

lemma qs_filter_mset: "filter_mset P (mset (qs cmp xs)) = filter_mset P (mset xs)"
  by (simp add: qs_mset)

lemma qs_count: "length (filter P (qs cmp xs)) = length (filter P xs)"
  using qs_filter_mset [of P cmp xs] by (metis mset_filter size_mset)

end

fun insert_by :: "('a \<Rightarrow> 'a \<Rightarrow> int) \<Rightarrow> 'a \<Rightarrow> 'a list \<Rightarrow> 'a list" where
  "insert_by cmp x [] = [x]"
| "insert_by cmp x (y # ys) = (if cmp x y \<le> 0 then x # y # ys else y # insert_by cmp x ys)"

definition c_qsort :: "('a \<Rightarrow> 'a \<Rightarrow> int) \<Rightarrow> 'a list \<Rightarrow> 'a list" where
  "c_qsort cmp xs = foldr (insert_by cmp) xs []"

lemma mset_insert_by: "mset (insert_by cmp x ys) = add_mset x (mset ys)"
  by (induction ys) auto

lemma set_insert_by: "set (insert_by cmp x ys) = insert x (set ys)"
  by (induction ys) auto

lemma sorted_insert_by:
  assumes "cmp_order cmp" and "sorted_wrt (\<lambda>a b. cmp a b \<le> 0) ys"
  shows "sorted_wrt (\<lambda>a b. cmp a b \<le> 0) (insert_by cmp x ys)"
  using assms(2)
proof (induction ys)
  case (Cons y ys)
  have total: "\<not> cmp x y \<le> 0 \<Longrightarrow> cmp y x \<le> 0" and trans: "\<And>z. cmp x y \<le> 0 \<Longrightarrow> cmp y z \<le> 0 \<Longrightarrow> cmp x z \<le> 0"
    using assms(1) by (auto simp: cmp_order_def)
  with Cons show ?case by (auto simp: set_insert_by)
qed simp

lemma mset_c_qsort: "mset (c_qsort cmp xs) = mset xs"
  by (induction xs) (simp_all add: c_qsort_def mset_insert_by)

lemma sorted_c_qsort: "cmp_order cmp \<Longrightarrow> sorted_wrt (\<lambda>a b. cmp a b \<le> 0) (c_qsort cmp xs)"
  by (induction xs) (simp_all add: c_qsort_def sorted_insert_by)

interpretation qs: sorter c_qsort
  by unfold_locales (simp_all add: mset_c_qsort sorted_c_qsort)

end
