(* ===== verification/Focus.thy ===== *)
theory Focus
  imports Prelude
begin

text \<open>
  The contract of a panel with a focused row. Two panels keep one: the connections
  (\<open>src/trfx_connections.c\<close>) and the bandwidth flows (\<open>src/trfx_threads.c\<close>). Collector threads
  replace the rows at any time and the keyboard thread moves the focus; every operation runs under the
  mutex of its state, so a history is a sequence of whole operations.
\<close>

datatype 'r focus_op = FocusUpdate 'r | FocusMove int

text \<open>The focus names a row, or is 0 when there is none.\<close>

definition focus_in_range :: "int \<Rightarrow> int \<Rightarrow> bool" where
  "focus_in_range n f \<longleftrightarrow> 0 \<le> f \<and> (if n = 0 then f = 0 else f < n)"

lemma focus_in_range_bounds: "focus_in_range n f \<Longrightarrow> 0 \<le> f \<and> (0 < n \<longrightarrow> f < n)"
  by (auto simp: focus_in_range_def split: if_splits)

fun focus_step :: "('r \<Rightarrow> 's \<Rightarrow> 's) \<Rightarrow> (int \<Rightarrow> 's \<Rightarrow> 's) \<Rightarrow> 'r focus_op \<Rightarrow> 's \<Rightarrow> 's" where
  "focus_step update move (FocusUpdate r) s = update r s"
| "focus_step update move (FocusMove d) s = move d s"

locale focus_panel =
  fixes rows :: "'s \<Rightarrow> int"
    and focus :: "'s \<Rightarrow> int"
    and move :: "int \<Rightarrow> 's \<Rightarrow> 's"
    and update :: "'r \<Rightarrow> 's \<Rightarrow> 's"
  assumes rows_nonneg: "0 \<le> rows s"
    and move_rows: "rows (move d s) = rows s"
    and move_focus: "focus (move d s) =
      (if 0 < rows s
       then (if focus s + d < 0 then rows s - 1 else if rows s \<le> focus s + d then 0 else focus s + d)
       else focus s)"
    and update_focus: "focus (update r s) =
      (if rows (update r s) \<le> 0 then 0
       else if rows (update r s) \<le> focus s then rows (update r s) - 1 else focus s)"
begin

lemma move_in_range:
  assumes "focus_in_range (rows s) (focus s)"
  shows "focus_in_range (rows (move d s)) (focus (move d s))"
  using assms rows_nonneg [of s] by (auto simp: focus_in_range_def move_rows move_focus split: if_splits)

lemma update_in_range:
  assumes "0 \<le> focus s"
  shows "focus_in_range (rows (update r s)) (focus (update r s))"
  using assms rows_nonneg [of "update r s"]
  by (auto simp: focus_in_range_def update_focus split: if_splits)

lemma steps_in_range:
  assumes "focus_in_range (rows s) (focus s)"
  shows "focus_in_range (rows (fold (focus_step update move) ops s))
           (focus (fold (focus_step update move) ops s))"
  using assms
proof (induction ops arbitrary: s)
  case (Cons p ops)
  have "focus_in_range (rows (focus_step update move p s)) (focus (focus_step update move p s))"
    using Cons.prems move_in_range update_in_range focus_in_range_bounds by (cases p) auto
  then show ?case using Cons.IH by simp
qed simp

text \<open>Single steps walk the rows as a circle.\<close>

lemma move_one:
  assumes "focus_in_range (rows s) (focus s)" and "0 < rows s"
  shows "focus (move 1 s) = (focus s + 1) mod rows s" and "focus (move (- 1) s) = (focus s - 1) mod rows s"
proof -
  have b: "0 \<le> focus s" "focus s < rows s" using focus_in_range_bounds [OF assms(1)] assms(2) by auto
  show "focus (move 1 s) = (focus s + 1) mod rows s"
    using b assms(2) by (cases "focus s + 1 = rows s") (auto simp: move_focus)
  have "(0 - 1) mod rows s = rows s - 1" using assms(2) by (simp add: zmod_minus1)
  then show "focus (move (- 1) s) = (focus s - 1) mod rows s"
    using b assms(2) by (cases "focus s = 0") (auto simp: move_focus)
qed

lemma moves_rows: "rows ((move d ^^ n) s) = rows s"
  by (induction n) (simp_all add: move_rows)

lemma moves_in_range:
  "focus_in_range (rows s) (focus s) \<Longrightarrow> focus_in_range (rows s) (focus ((move d ^^ n) s))"
proof (induction n)
  case (Suc n)
  then show ?case using move_in_range [of "(move d ^^ n) s" d] by (simp add: moves_rows move_rows)
qed simp

lemma moves_down:
  assumes "focus_in_range (rows s) (focus s)" and "0 < rows s"
  shows "focus ((move 1 ^^ n) s) = (focus s + int n) mod rows s"
proof (induction n)
  case 0
  then show ?case using focus_in_range_bounds [OF assms(1)] assms(2) by simp
next
  case (Suc n)
  let ?t = "(move 1 ^^ n) s"
  have r: "rows ?t = rows s" by (rule moves_rows)
  have "focus (move 1 ?t) = (focus ?t + 1) mod rows ?t"
    using moves_in_range [OF assms(1)] assms(2) by (intro move_one(1)) (simp_all add: r)
  then show ?case by (simp add: Suc r mod_add_right_eq algebra_simps)
qed

lemma move_there_and_back:
  assumes "focus_in_range (rows s) (focus s)" and "0 < rows s"
  shows "focus (move (- 1) (move 1 s)) = focus s"
proof -
  have "focus (move (- 1) (move 1 s)) = (focus (move 1 s) - 1) mod rows s"
    using move_one(2) [of "move 1 s"] move_in_range [OF assms(1), of 1] assms(2) by (simp add: move_rows)
  then show ?thesis
    using move_one(1) [OF assms] focus_in_range_bounds [OF assms(1)] assms(2) by (simp add: mod_diff_left_eq)
qed

end

end
