(* ===== verification/Connections.thy ===== *)
theory Connections
  imports SocketOwners CSort Focus
begin

text \<open>
  \<open>src/trfx_connections.c\<close>: the parser of the kernel's connection tables, the list of connections that
  the command line and the panels show, its summary, and the shared state with the focused row. A
  connection array and its count are the list of the filled rows.
\<close>

record ConnectionInfo =
  ci_protocol :: string
  ci_local_addr :: string
  ci_remote_addr :: string
  ci_state :: string
  ci_inode :: u64
  ci_uid :: u32
  ci_user :: string
  ci_pid :: string
  ci_process :: string

definition max_connections :: int where "max_connections = 512"

section \<open>Addresses\<close>

definition hex_byte :: "string \<Rightarrow> nat option" where
  "hex_byte hex = (case c_sscanf [ScHex (Some 2)] hex of [ScNum v] \<Rightarrow> Some (nat (v mod 256)) | _ \<Rightarrow> None)"

text \<open>The sixteen reads, each word of four bytes backwards; a failed one makes the function return 0.\<close>

definition parse_ipv6_bytes :: "string \<Rightarrow> nat list option" where
  "parse_ipv6_bytes hex =
     those (map (\<lambda>k. hex_byte (drop ((k div 4) * 8 + (3 - k mod 4) * 2) hex)) [0..<16])"

definition parse_ipv6_hex :: "string \<Rightarrow> nat \<Rightarrow> string option" where
  "parse_ipv6_hex hex dest_size =
     (if length hex \<noteq> 32 then None
      else (case parse_ipv6_bytes hex of
              None \<Rightarrow> None
            | Some bytes \<Rightarrow>
                let t = c_inet_ntop6 bytes
                in if length t < dest_size then Some t else None))"

definition parse_ip_port :: "string \<Rightarrow> string" where
  "parse_ip_port hex =
     (case split_last (CHR '':'') hex of
        None \<Rightarrow> ''-''
      | Some (addr, port_hex) \<Rightarrow>
          (case c_sscanf [ScHex None] port_hex of
             [ScNum port] \<Rightarrow>
               if 64 \<le> length addr then ''-''
               else if length addr = 32
               then (case parse_ipv6_hex addr 46 of
                       Some ip_str \<Rightarrow> fit 64 (''['' @ ip_str @ '']:'' @ show_u32 (word_of_int port))
                     | None \<Rightarrow> ''-'')
               else (case c_sscanf [ScHex (Some 2), ScHex (Some 2), ScHex (Some 2), ScHex (Some 2),
                                    ScLit CHR '':'', ScHex None] hex of
                       [ScNum b3, ScNum b2, ScNum b1, ScNum b0, ScNum port4] \<Rightarrow>
                         fit 64 (show_u32 (word_of_int b0) @ ''.'' @ show_u32 (word_of_int b1) @ ''.''
                           @ show_u32 (word_of_int b2) @ ''.'' @ show_u32 (word_of_int b3) @ '':''
                           @ show_u32 (word_of_int port4))
                     | _ \<Rightarrow> ''-'')
           | _ \<Rightarrow> ''-''))"

section \<open>Socket states\<close>

definition trfx_tcp_state_name :: "int \<Rightarrow> string" where
  "trfx_tcp_state_name n =
     (if n = 1 then ''ESTABLISHED'' else if n = 2 then ''SYN_SENT'' else if n = 3 then ''SYN_RECV''
      else if n = 4 then ''FIN_WAIT1'' else if n = 5 then ''FIN_WAIT2'' else if n = 6 then ''TIME_WAIT''
      else if n = 7 then ''CLOSE'' else if n = 8 then ''CLOSE_WAIT'' else if n = 9 then ''LAST_ACK''
      else if n = 10 then ''LISTEN'' else if n = 11 then ''CLOSING'' else if n = 12 then ''NEW_SYN_RECV''
      else ''UNKNOWN'')"

definition trfx_udp_state_name :: "int \<Rightarrow> string" where
  "trfx_udp_state_name n =
     (if n = 1 then ''ESTABLISHED'' else if n = 7 then ''UNCONN'' else ''UNKNOWN'')"

definition socket_state_name :: "string \<Rightarrow> int \<Rightarrow> string" where
  "socket_state_name proto n = (if proto = ''UDP'' then trfx_udp_state_name n else trfx_tcp_state_name n)"

definition should_skip_connection_state :: "string \<Rightarrow> int \<Rightarrow> bool" where
  "should_skip_connection_state proto n \<longleftrightarrow>
     (if proto \<noteq> ''TCP'' then False else n = 6 \<or> n = 7 \<or> n = 8 \<or> n = 9 \<or> n = 11)"

definition resolve_uid_name :: "os_view \<Rightarrow> u32 \<Rightarrow> nat \<Rightarrow> string" where
  "resolve_uid_name os uid dest_size =
     (case os_user os uid of Some name \<Rightarrow> fit dest_size name | None \<Rightarrow> fit dest_size ''-'')"

section \<open>The parser\<close>

definition addr_set :: "char \<Rightarrow> bool" where
  "addr_set c \<longleftrightarrow> c_isxdigit c \<or> c = CHR '':''"

definition connection_format :: "scan_dir list" where
  "connection_format =
     [ScSkipInt, ScLit CHR '':'', ScWs, ScSet 127 addr_set, ScWs, ScSet 127 addr_set, ScWs, ScHex None, ScWs,
      ScSkipStr, ScWs, ScSkipStr, ScWs, ScSkipStr, ScWs, ScUInt, ScWs, ScSkipInt, ScWs, ScUInt]"

definition connection_line :: "os_view \<Rightarrow> string \<Rightarrow> string \<Rightarrow> ConnectionInfo option" where
  "connection_line os proto line =
     (case c_sscanf connection_format line of
        [ScText local_hex, ScText remote_hex, ScNum st, ScNum uid_v, ScNum ino] \<Rightarrow>
          (let state_num = to_int32 st; uid = (word_of_int uid_v :: u32)
           in if should_skip_connection_state proto state_num then None
              else Some \<lparr>ci_protocol = fit 8 proto,
                         ci_local_addr = fit 64 (parse_ip_port local_hex),
                         ci_remote_addr = fit 64 (parse_ip_port remote_hex),
                         ci_state = fit 32 (socket_state_name proto state_num),
                         ci_inode = word_of_int ino, ci_uid = uid,
                         ci_user = resolve_uid_name os uid 64,
                         ci_pid = fit 16 ''-'', ci_process = fit 64 ''-''\<rparr>)
      | _ \<Rightarrow> None)"

text \<open>\<open>fp\<close> is the text of the open file; the first read is the header.\<close>

definition trfx_parse_connection_file ::
  "os_view \<Rightarrow> string option \<Rightarrow> string option \<Rightarrow> ConnectionInfo list option \<Rightarrow> int \<Rightarrow> ConnectionInfo list option" where
  "trfx_parse_connection_file os fp proto list mx =
     (case (fp, proto, list) of
        (Some text, Some pr, Some rows) \<Rightarrow>
          if mx \<le> 0 then Some rows
          else Some (collect_rows (nat mx) (connection_line os pr) (tl (c_lines 512 text)) rows)
      | _ \<Rightarrow> list)"

definition trfx_parse_connection_path ::
  "os_view \<Rightarrow> string \<Rightarrow> string option \<Rightarrow> ConnectionInfo list option \<Rightarrow> int \<Rightarrow> ConnectionInfo list option" where
  "trfx_parse_connection_path os path proto list mx =
     (case os_file os path of None \<Rightarrow> list
      | Some text \<Rightarrow> trfx_parse_connection_file os (Some text) proto list mx)"

definition state_priority :: "string \<Rightarrow> int" where
  "state_priority s = (if s = ''ESTABLISHED'' then 0 else if s = ''LISTEN'' then 1
                       else if s = ''TIME_WAIT'' then 2 else 100)"

definition compare_connections :: "ConnectionInfo \<Rightarrow> ConnectionInfo \<Rightarrow> int" where
  "compare_connections a b = state_priority (ci_state a) - state_priority (ci_state b)"

definition set_owner :: "TrfxSocketOwnerMapEntry list \<Rightarrow> ConnectionInfo \<Rightarrow> ConnectionInfo" where
  "set_owner owners c =
     (case trfx_find_socket_owner_by_inode (Some owners) (int (length owners)) (ci_inode c)
             (Some (ci_pid c)) 16 (Some (ci_process c)) 64 of
        (_, pid, process) \<Rightarrow> c\<lparr>ci_pid := the pid, ci_process := the process\<rparr>)"

definition apply_socket_owner_map :: "os_view \<Rightarrow> ConnectionInfo list \<Rightarrow> ConnectionInfo list" where
  "apply_socket_owner_map os cs =
     (let owners = trfx_scan_socket_owner_map os max_socket_owner_map_entries in map (set_owner owners) cs)"

definition get_connection_info :: "os_view \<Rightarrow> int \<Rightarrow> ConnectionInfo list" where
  "get_connection_info os max_conns =
     (let c0 = Some [];
          c1 = trfx_parse_connection_path os ''/proc/net/tcp'' (Some ''TCP'') c0 max_conns;
          c2 = trfx_parse_connection_path os ''/proc/net/udp'' (Some ''UDP'') c1 max_conns;
          c3 = trfx_parse_connection_path os ''/proc/net/tcp6'' (Some ''TCP'') c2 max_conns;
          c4 = trfx_parse_connection_path os ''/proc/net/udp6'' (Some ''UDP'') c3 max_conns
      in c_qsort compare_connections (apply_socket_owner_map os (the c4)))"

section \<open>The summary\<close>

record TrfxConnectionSummary =
  cs_protocol :: string
  cs_state :: string
  cs_local_endpoint :: string
  cs_remote_endpoint :: string
  cs_uid :: string
  cs_user :: string
  cs_pid :: string
  cs_process :: string
  cs_has_owner :: bool
  cs_is_listener :: bool
  cs_is_established :: bool
  cs_is_ipv6 :: bool

text \<open>\<open>csr_rows\<close> are the first \<open>count\<close> rows of the array.\<close>

record TrfxConnectionSummaryResult =
  csr_status :: int
  csr_error :: string
  csr_rows :: "TrfxConnectionSummary list"

definition trfx_init_connection_summary_result :: TrfxConnectionSummaryResult where
  "trfx_init_connection_summary_result = \<lparr>csr_status = 0, csr_error = [], csr_rows = []\<rparr>"

definition connection_is_ipv6 :: "ConnectionInfo \<Rightarrow> bool" where
  "connection_is_ipv6 c \<longleftrightarrow> CHR ''['' \<in> set (ci_local_addr c) \<or> CHR ''['' \<in> set (ci_remote_addr c)"

definition connection_is_owned :: "ConnectionInfo \<Rightarrow> bool" where
  "connection_is_owned c \<longleftrightarrow> ci_pid c \<noteq> [] \<and> ci_pid c \<noteq> ''-'' \<and> ci_process c \<noteq> [] \<and> ci_process c \<noteq> ''-''"

definition connection_summary_row :: "ConnectionInfo \<Rightarrow> TrfxConnectionSummary" where
  "connection_summary_row c =
     \<lparr>cs_protocol = fit 8 (ci_protocol c), cs_state = fit 32 (ci_state c),
      cs_local_endpoint = fit 64 (ci_local_addr c), cs_remote_endpoint = fit 64 (ci_remote_addr c),
      cs_uid = fit 16 (show_u32 (ci_uid c)), cs_user = fit 64 (ci_user c),
      cs_pid = fit 16 (ci_pid c), cs_process = fit 64 (ci_process c),
      cs_has_owner = connection_is_owned c,
      cs_is_listener = (ci_state c = ''LISTEN'' \<or> ci_state c = ''UNCONN''),
      cs_is_established = (ci_state c = ''ESTABLISHED''), cs_is_ipv6 = connection_is_ipv6 c\<rparr>"

text \<open>The return value, \<open>*result\<close> and the error buffer.\<close>

definition trfx_collect_connection_summary ::
  "ConnectionInfo list option \<Rightarrow> int \<Rightarrow> TrfxConnectionSummaryResult option \<Rightarrow> string option \<Rightarrow> nat \<Rightarrow>
   int \<times> TrfxConnectionSummaryResult option \<times> string option" where
  "trfx_collect_connection_summary connections cnt result error error_size =
     (case result of None \<Rightarrow> (0, None, error)
      | Some _ \<Rightarrow>
          (let error0 = put_buf error error_size [];
               bad = (let r = trfx_init_connection_summary_result
                              \<lparr>csr_error := fit 128 ''invalid connection snapshot'', csr_status := -1\<rparr>
                      in (0, Some r, put_buf error0 error_size (csr_error r)))
           in case connections of None \<Rightarrow> bad
              | Some cs \<Rightarrow>
                  if cnt < 0 then bad
                  else (let rows = map connection_summary_row
                                     (take (nat (min cnt max_connections)) cs)
                        in (int (length rows),
                            Some (trfx_init_connection_summary_result\<lparr>csr_rows := rows, csr_status := 0\<rparr>),
                            error0))))"

section \<open>The focused connection\<close>

record connection_focus_state =
  cf_connections :: TrfxConnectionSummaryResult
  cf_initialized :: bool
  cf_focus :: int

definition csr_count :: "TrfxConnectionSummaryResult \<Rightarrow> int" where
  "csr_count r = int (length (csr_rows r))"

definition connection_focus_start :: connection_focus_state where
  "connection_focus_start = \<lparr>cf_connections = trfx_init_connection_summary_result,
                             cf_initialized = False, cf_focus = 0\<rparr>"

definition trfx_connection_state_init :: "connection_focus_state \<Rightarrow> connection_focus_state" where
  "trfx_connection_state_init s =
     (if \<not> cf_initialized s
      then s\<lparr>cf_connections := trfx_init_connection_summary_result, cf_initialized := True\<rparr> else s)"

definition trfx_connection_state_update ::
  "TrfxConnectionSummaryResult option \<Rightarrow> connection_focus_state \<Rightarrow> connection_focus_state" where
  "trfx_connection_state_update connections s =
     (let s1 = trfx_connection_state_init s;
          s2 = (case connections of None \<Rightarrow> s1 | Some r \<Rightarrow> s1\<lparr>cf_connections := r\<rparr>);
          visible_count = csr_count (cf_connections s2)
      in if visible_count \<le> 0 then s2\<lparr>cf_focus := 0\<rparr>
         else if visible_count \<le> cf_focus s2 then s2\<lparr>cf_focus := visible_count - 1\<rparr> else s2)"

definition trfx_connection_state_copy ::
  "connection_focus_state \<Rightarrow> (TrfxConnectionSummaryResult \<times> int) option" where
  "trfx_connection_state_copy s =
     (if cf_initialized s then Some (cf_connections s, cf_focus s) else None)"

definition trfx_connection_state_move_focus :: "int \<Rightarrow> connection_focus_state \<Rightarrow> connection_focus_state" where
  "trfx_connection_state_move_focus delta s =
     (let visible_count = csr_count (cf_connections s)
      in if 0 < visible_count
         then (let f = cf_focus s + delta
               in s\<lparr>cf_focus := (if f < 0 then visible_count - 1
                                  else if visible_count \<le> f then 0 else f)\<rparr>)
         else s)"

lemma csr_count_nonneg: "0 \<le> csr_count r"
  by (simp add: csr_count_def)

interpretation conn_focus: focus_panel "\<lambda>s. csr_count (cf_connections s)" cf_focus
  trfx_connection_state_move_focus trfx_connection_state_update
  by unfold_locales
    (auto simp: csr_count_nonneg trfx_connection_state_move_focus_def trfx_connection_state_update_def
      trfx_connection_state_init_def Let_def split: option.splits)

section \<open>Parsing addresses\<close>

lemma le_bytes_bytes: "set (le_bytes w) \<subseteq> {..<256}" "length (le_bytes w) = 4"
  by (auto simp: le_bytes_def Let_def)

lemma show_hex_fixed_last_colon:
  "split_last (CHR '':'') (show_hex_fixed k a @ CHR '':'' # show_hex_fixed m b)
     = Some (show_hex_fixed k a, show_hex_fixed m b)"
proof -
  have "CHR '':'' \<notin> set (show_hex_fixed m b)"
    using show_hex_fixed_xdigits [of m b] by (auto simp: char_simps)
  then show ?thesis by (rule split_last_app)
qed

text \<open>The text of an IPv4 endpoint in \<open>/proc/net/tcp\<close>, as the kernel prints it: the address as a
  32-bit number in the machine's byte order and the port, both in upper-case hexadecimal.\<close>

definition kernel_endpoint4 :: "u32 \<Rightarrow> 16 word \<Rightarrow> string" where
  "kernel_endpoint4 ip port = show_hex_fixed 8 (unat ip) @ '':'' @ show_hex_fixed 4 (unat port)"

lemma parse_ip_port_ipv4:
  "parse_ip_port (kernel_endpoint4 ip port)
     = c_inet_ntop4 (le_bytes ip) @ '':'' @ show_nat (unat port)"
proof -
  let ?s = "kernel_endpoint4 ip port" and ?n = "unat ip"
  have "c_sscanf [ScHex (Some 2), ScHex (Some 2), ScHex (Some 2), ScHex (Some 2), ScLit CHR '':'', ScHex None] ?s
     = [ScNum (int (?n div 16777216 mod 256)), ScNum (int (?n div 65536 mod 256)),
        ScNum (int (?n div 256 mod 256)), ScNum (int (?n mod 256)), ScNum (int (unat port))]"
    by (simp add: kernel_endpoint4_def show_hex_8_split scan_byte scan_port)
  moreover have "split_last (CHR '':'') ?s = Some (show_hex_fixed 8 ?n, show_hex_fixed 4 (unat port))"
    by (simp add: kernel_endpoint4_def show_hex_fixed_last_colon)
  ultimately have "parse_ip_port ?s = fit 64 (show_nat (?n mod 256) @ ''.'' @ show_nat (?n div 256 mod 256)
     @ ''.'' @ show_nat (?n div 65536 mod 256) @ ''.'' @ show_nat (?n div 16777216 mod 256)
     @ '':'' @ show_nat (unat port))"
    by (simp add: parse_ip_port_def scan_port show_u32_byte show_u32_port)
  moreover have "length (show_nat (?n mod 256)) + length (show_nat (?n div 256 mod 256)) +
     length (show_nat (?n div 65536 mod 256)) + length (show_nat (?n div 16777216 mod 256)) +
     length (show_nat (unat port)) < 60"
    using length_show_port [of port] length_show_nat_byte [of ?n] length_show_nat_byte [of "?n div 256"]
      length_show_nat_byte [of "?n div 65536"] length_show_nat_byte [of "?n div 16777216"] by linarith
  ultimately show ?thesis
    by (simp add: c_inet_ntop4_def le_bytes_def Let_def)
qed

text \<open>C7. The parser of endpoints inverts the kernel's formatting of IPv4: the address comes out as the
  dotted quad of its four bytes in network order, followed by the port in decimal.\<close>

theorem parse_ipv4_endpoint:
  "parse_ip_port (kernel_endpoint4 ip port)
     = c_inet_ntop4 (le_bytes ip) @ '':'' @ show_nat (unat port)"
  by (rule parse_ip_port_ipv4)

text \<open>The text of an IPv6 endpoint in \<open>/proc/net/tcp6\<close>: the four words of the address, each as the
  kernel prints one, then the port.\<close>

definition kernel_endpoint6 :: "u32 \<Rightarrow> u32 \<Rightarrow> u32 \<Rightarrow> u32 \<Rightarrow> 16 word \<Rightarrow> string" where
  "kernel_endpoint6 a b c d port = show_hex_fixed 8 (unat a) @ show_hex_fixed 8 (unat b)
     @ show_hex_fixed 8 (unat c) @ show_hex_fixed 8 (unat d) @ '':'' @ show_hex_fixed 4 (unat port)"

lemma hex_byte_show: "hex_byte (show_hex_fixed 2 n @ r) = Some (n mod 256)"
  by (simp add: hex_byte_def scan_byte nat_mod_distrib)

lemma hex_byte_show_end: "hex_byte (show_hex_fixed 2 n) = Some (n mod 256)"
  using hex_byte_show [of n "[]"] by simp

lemma parse_ipv6_bytes_show:
  "parse_ipv6_bytes (show_hex_fixed 8 (unat a) @ show_hex_fixed 8 (unat b) @ show_hex_fixed 8 (unat c)
     @ show_hex_fixed 8 (unat d)) = Some (le_bytes a @ le_bytes b @ le_bytes c @ le_bytes d)"
proof -
  have "[0..<16] = [0, 1, 2, 3, 4, 5, 6, 7, 8, 9, 10, 11, 12, 13, 14, 15::nat]" by code_simp
  then show ?thesis
    by (simp add: parse_ipv6_bytes_def show_hex_8_split hex_byte_show hex_byte_show_end le_bytes_def Let_def)
qed

text \<open>C8. The parser of endpoints inverts the kernel's formatting of IPv6 too: the four little-endian words
  become the sixteen bytes in network order, printed in brackets, and nothing is cut off by the
  buffers.\<close>

theorem parse_ipv6_endpoint:
  "parse_ip_port (kernel_endpoint6 a b c d port)
     = ''['' @ c_inet_ntop6 (le_bytes a @ le_bytes b @ le_bytes c @ le_bytes d) @ '']:'' @ show_nat (unat port)"
proof -
  let ?hex = "show_hex_fixed 8 (unat a) @ show_hex_fixed 8 (unat b) @ show_hex_fixed 8 (unat c)
     @ show_hex_fixed 8 (unat d)"
  let ?t = "c_inet_ntop6 (le_bytes a @ le_bytes b @ le_bytes c @ le_bytes d)"
  have "set (le_bytes a @ le_bytes b @ le_bytes c @ le_bytes d) \<subseteq> {..<256}"
    using le_bytes_bytes(1) by simp
  then have len: "length ?t < 46" by (intro inet_ntop6_length) (simp_all add: le_bytes_bytes(2))
  have "CHR '':'' \<notin> set (show_hex_fixed 4 (unat port))"
    using show_hex_fixed_xdigits by (fastforce simp: char_simps)
  then have "split_last (CHR '':'') (kernel_endpoint6 a b c d port) = Some (?hex, show_hex_fixed 4 (unat port))"
    using split_last_app [of "CHR '':''" _ ?hex] by (simp add: kernel_endpoint6_def)
  moreover have "parse_ipv6_hex ?hex 46 = Some ?t"
    using len unfolding parse_ipv6_hex_def parse_ipv6_bytes_show by simp
  ultimately have "parse_ip_port (kernel_endpoint6 a b c d port)
      = fit 64 (''['' @ ?t @ '']:'' @ show_nat (unat port))"
    by (simp add: parse_ip_port_def scan_port show_u32_port)
  then show ?thesis using len length_show_port [of port] by simp
qed

section \<open>The table of connections\<close>

text \<open>The rows that a file contributes, and all of them in the order of the four files.\<close>

definition connection_file_rows :: "os_view \<Rightarrow> string \<Rightarrow> string \<Rightarrow> ConnectionInfo list" where
  "connection_file_rows os proto path =
     (case os_file os path of None \<Rightarrow> []
      | Some content \<Rightarrow> List.map_filter (connection_line os proto) (tl (c_lines 512 content)))"

definition connection_all_rows :: "os_view \<Rightarrow> ConnectionInfo list" where
  "connection_all_rows os =
     connection_file_rows os ''TCP'' ''/proc/net/tcp'' @ connection_file_rows os ''UDP'' ''/proc/net/udp''
     @ connection_file_rows os ''TCP'' ''/proc/net/tcp6'' @ connection_file_rows os ''UDP'' ''/proc/net/udp6''"

lemma parse_connection_path_rows:
  assumes "length rows \<le> nat mx"
  shows "trfx_parse_connection_path os path (Some proto) (Some rows) mx
     = Some (rows @ take (nat mx - length rows) (connection_file_rows os proto path))"
  using assms
  by (auto simp: trfx_parse_connection_path_def trfx_parse_connection_file_def connection_file_rows_def
      collect_rows_eq split: option.splits)

lemma parse_connection_take:
  "trfx_parse_connection_path os path (Some proto) (Some (take (nat mx) rows)) mx
     = Some (take (nat mx) (rows @ connection_file_rows os proto path))"
  by (subst parse_connection_path_rows) (auto simp: min_def)

lemma get_connection_rows:
  "get_connection_info os mx = c_qsort compare_connections
     (apply_socket_owner_map os (take (nat mx) (connection_all_rows os)))"
proof -
  have "trfx_parse_connection_path os path (Some proto) (Some []) mx
      = Some (take (nat mx) (connection_file_rows os proto path))" for path proto
    using parse_connection_path_rows [of "[]" mx os path proto] by simp
  then show ?thesis
    by (simp add: get_connection_info_def Let_def parse_connection_take connection_all_rows_def del: take_append)
qed


text \<open>What every row of the table satisfies: its texts fit their buffers, its protocol is one of the two,
  and its state is one that the protocol can show.\<close>

definition connection_row_ok :: "ConnectionInfo \<Rightarrow> bool" where
  "connection_row_ok c \<longleftrightarrow> length (ci_local_addr c) < 64 \<and> length (ci_remote_addr c) < 64
     \<and> length (ci_user c) < 64 \<and> length (ci_pid c) < 16 \<and> length (ci_process c) < 64
     \<and> (ci_protocol c, ci_state c) \<in> {''TCP''} \<times> {''ESTABLISHED'', ''SYN_SENT'', ''SYN_RECV'', ''FIN_WAIT1'',
           ''FIN_WAIT2'', ''LISTEN'', ''NEW_SYN_RECV'', ''UNKNOWN''}
         \<union> {''UDP''} \<times> {''ESTABLISHED'', ''UNCONN'', ''UNKNOWN''}"

lemma connection_line_ok:
  assumes "proto \<in> {''TCP'', ''UDP''}" and "connection_line os proto line = Some c"
  shows "connection_row_ok c"
proof -
  from assms(2) obtain st where skip: "\<not> should_skip_connection_state proto st"
    and c: "ci_protocol c = fit 8 proto" "ci_state c = fit 32 (socket_state_name proto st)"
      "length (ci_local_addr c) < 64" "length (ci_remote_addr c) < 64" "length (ci_user c) < 64"
      "ci_pid c = ''-''" "ci_process c = ''-''"
    by (auto simp: connection_line_def Let_def buf_simps resolve_uid_name_def
        split: list.splits scan_val.splits if_splits option.splits)
  then show ?thesis
    using assms(1)
    by (auto simp: connection_row_ok_def should_skip_connection_state_def socket_state_name_def
        trfx_tcp_state_name_def trfx_udp_state_name_def split: if_splits)
qed

lemma connection_all_rows_ok: "list_all connection_row_ok (connection_all_rows os)"
proof -
  have "connection_row_ok c" if "proto \<in> {''TCP'', ''UDP''}" "c \<in> set (connection_file_rows os proto p)" for p proto c
    using that connection_line_ok [OF that(1)]
    by (auto simp del: insert_iff simp: connection_file_rows_def set_map_filter split: option.splits)
  then show ?thesis by (auto simp: connection_all_rows_def list_all_iff)
qed

lemma find_owner_found_or_dash:
  assumes "trfx_find_socket_owner_by_inode (Some es) n inode (Some p) ps (Some c) cs = (r, a, b)"
    and "0 < ps" "0 < cs"
  shows "length (the a) < max ps 2 \<and> length (the b) < max cs 2"
  using assms
  by (auto simp: trfx_find_socket_owner_by_inode_def Let_def buf_simps less_max_iff_disj
      split: if_splits option.splits)

lemma set_owner_ok: "connection_row_ok c \<Longrightarrow> connection_row_ok (set_owner owners c)"
proof -
  assume ok: "connection_row_ok c"
  obtain r a b where e: "trfx_find_socket_owner_by_inode (Some owners) (int (length owners)) (ci_inode c)
      (Some (ci_pid c)) 16 (Some (ci_process c)) 64 = (r, a, b)" by (metis prod_cases3)
  then have "length (the a) < 16 \<and> length (the b) < 64"
    using find_owner_found_or_dash [OF e] by simp
  with ok e show ?thesis by (simp add: set_owner_def connection_row_ok_def)
qed

lemma get_connection_info_ok: "list_all connection_row_ok (get_connection_info os mx)"
  using connection_all_rows_ok [of os] set_owner_ok
  by (auto simp: get_connection_rows qs.qs_set apply_socket_owner_map_def Let_def list_all_iff
      dest!: in_set_takeD)


text \<open>A snapshot of connections is copied into a summary without any loss: every text of every row
  fits, the flags are read off the state, the addresses and the owner, and only rows beyond the
  512th are dropped. No row shows a TCP connection in one of the closed states that the parser skips.\<close>

lemma connection_summary_exact:
  "trfx_collect_connection_summary (Some (get_connection_info os mx))
       (int (length (get_connection_info os mx))) (Some r) err n
   = (let rows = take 512 (get_connection_info os mx)
      in (int (length rows),
          Some \<lparr>csr_status = 0, csr_error = [],
                csr_rows = map (\<lambda>c. \<lparr>cs_protocol = ci_protocol c, cs_state = ci_state c,
                  cs_local_endpoint = ci_local_addr c, cs_remote_endpoint = ci_remote_addr c,
                  cs_uid = show_u32 (ci_uid c), cs_user = ci_user c, cs_pid = ci_pid c,
                  cs_process = ci_process c, cs_has_owner = connection_is_owned c,
                  cs_is_listener = (ci_state c = ''LISTEN'' \<or> ci_state c = ''UNCONN''),
                  cs_is_established = (ci_state c = ''ESTABLISHED''), cs_is_ipv6 = connection_is_ipv6 c\<rparr>) rows\<rparr>,
          put_buf err n []))
 \<and> list_all connection_row_ok (get_connection_info os mx)"
proof -
  have uid: "fit 16 (show_u32 w) = show_u32 w" for w
  proof -
    have "unat w < 10 ^ 10" using unsigned_less [of w, where 'a = nat] by simp
    then have "length (show_u32 w) \<le> 10" unfolding show_u32_def by (rule length_show_nat) simp
    then show ?thesis by simp
  qed
  have "connection_summary_row c = \<lparr>cs_protocol = ci_protocol c, cs_state = ci_state c,
                  cs_local_endpoint = ci_local_addr c, cs_remote_endpoint = ci_remote_addr c,
                  cs_uid = show_u32 (ci_uid c), cs_user = ci_user c, cs_pid = ci_pid c,
                  cs_process = ci_process c, cs_has_owner = connection_is_owned c,
                  cs_is_listener = (ci_state c = ''LISTEN'' \<or> ci_state c = ''UNCONN''),
                  cs_is_established = (ci_state c = ''ESTABLISHED''), cs_is_ipv6 = connection_is_ipv6 c\<rparr>"
    if "connection_row_ok c" for c
    using that by (auto simp: connection_summary_row_def connection_row_ok_def uid)
  moreover have "connection_row_ok c" if "c \<in> set (take k (get_connection_info os mx))" for c k
    using that get_connection_info_ok [of os mx] by (auto simp: list_all_iff dest: in_set_takeD)
  moreover have "take (nat (min (int (length xs)) 512)) xs = take 512 xs" for xs :: "ConnectionInfo list"
    by (cases "length xs \<le> 512") (simp_all add: min_def)
  ultimately show ?thesis
    using get_connection_info_ok [of os mx]
    by (auto simp: trfx_collect_connection_summary_def trfx_init_connection_summary_result_def
        max_connections_def Let_def intro!: map_cong)
qed

section \<open>The focus\<close>

text \<open>C34. Whatever updates of the rows and moves of the focus happen in whatever order, the focused index
  always names a connection of the current snapshot (or is 0 when there is none), and a key press moves
  it by one around the circle of rows.\<close>

theorem connection_focus_cycles:
  fixes ops :: "TrfxConnectionSummaryResult option focus_op list"
  defines "s \<equiv> fold (focus_step trfx_connection_state_update trfx_connection_state_move_focus) ops
                 connection_focus_start"
  shows "focus_in_range (csr_count (cf_connections s)) (cf_focus s)
    \<and> (0 < csr_count (cf_connections s) \<longrightarrow>
         cf_focus (trfx_connection_state_move_focus 1 s) = (cf_focus s + 1) mod csr_count (cf_connections s)
       \<and> cf_focus (trfx_connection_state_move_focus (- 1) s) = (cf_focus s - 1) mod csr_count (cf_connections s))"
proof -
  have "focus_in_range (csr_count (cf_connections s)) (cf_focus s)"
    unfolding s_def
    by (rule conn_focus.steps_in_range)
      (simp add: connection_focus_start_def csr_count_def trfx_init_connection_summary_result_def focus_in_range_def)
  then show ?thesis using conn_focus.move_one [of s] by blast
qed

lemma connection_focus_cycles_witness:
  "let row = connection_summary_row \<lparr>ci_protocol = ''TCP'', ci_local_addr = ''1.2.3.4:5'', ci_remote_addr = ''-'',
         ci_state = ''LISTEN'', ci_inode = 1, ci_uid = 0, ci_user = ''root'', ci_pid = ''-'', ci_process = ''-''\<rparr>;
       snap = \<lparr>csr_status = 0, csr_error = [], csr_rows = [row, row, row]\<rparr>;
       s = fold (focus_step trfx_connection_state_update trfx_connection_state_move_focus)
             [FocusUpdate (Some snap), FocusMove (- 1)] connection_focus_start
   in cf_focus s = 2 \<and> cf_focus (trfx_connection_state_move_focus 1 s) = 0"
proof -
  let ?row = "connection_summary_row \<lparr>ci_protocol = ''TCP'', ci_local_addr = ''1.2.3.4:5'', ci_remote_addr = ''-'',
         ci_state = ''LISTEN'', ci_inode = 1, ci_uid = 0, ci_user = ''root'', ci_pid = ''-'', ci_process = ''-''\<rparr>"
  let ?ops = "[FocusUpdate (Some \<lparr>csr_status = 0, csr_error = [], csr_rows = [?row, ?row, ?row]\<rparr>), FocusMove (- 1)]"
  let ?s = "fold (focus_step trfx_connection_state_update trfx_connection_state_move_focus) ?ops
              connection_focus_start"
  have s: "cf_focus ?s = 2" "csr_count (cf_connections ?s) = 3"
    by (simp_all add: trfx_connection_state_update_def trfx_connection_state_init_def csr_count_def Let_def
        trfx_connection_state_move_focus_def connection_focus_start_def)
  then have "cf_focus (trfx_connection_state_move_focus 1 ?s) = 0"
    using connection_focus_cycles [of ?ops] by simp
  with s(1) show ?thesis by (simp add: Let_def)
qed

end
