(* ===== verification/History.thy ===== *)
theory History
  imports Prelude
begin

text \<open>
  Bounded histories. The program keeps three of them: the ring of network samples
  (\<open>src/trfx_netinfo.c\<close>), the ring of action audit entries (\<open>src/trfx_actions.c\<close>) and the shifted
  array of log lines (\<open>src/trfx_diagnostics.c\<close>). Their contract is the locale \<open>bounded_history\<close>: the
  entries, oldest first, are the last ones that were pushed.
\<close>

locale bounded_history =
  fixes cap :: nat
    and valid :: "'s \<Rightarrow> bool"
    and items :: "'s \<Rightarrow> 'a list"
    and push :: "'a \<Rightarrow> 's \<Rightarrow> 's"
  assumes cap_pos: "0 < cap"
    and valid_push: "valid s \<Longrightarrow> valid (push x s)"
    and items_push: "valid s \<Longrightarrow> items (push x s) = lastn cap (items s @ [x])"
begin

lemma lastn_step: "lastn cap (lastn cap xs @ [x]) = lastn cap (xs @ [x])"
proof -
  have "lastn cap (lastn cap xs @ [x]) = lastn (cap - 1) (lastn cap xs) @ [x]"
    by (rule lastn_snoc) (rule cap_pos)
  also have "\<dots> = lastn (cap - 1) xs @ [x]" by (simp add: lastn_lastn)
  also have "\<dots> = lastn cap (xs @ [x])" by (rule lastn_snoc [symmetric]) (rule cap_pos)
  finally show ?thesis .
qed

lemma history:
  assumes "valid s" and "items s = lastn cap xs"
  shows "valid (fold push ys s) \<and> items (fold push ys s) = lastn cap (xs @ ys)"
  using assms
proof (induction ys arbitrary: s xs)
  case (Cons y ys)
  have "valid (push y s)" "items (push y s) = lastn cap (xs @ [y])"
    using Cons.prems by (simp_all add: valid_push items_push lastn_step)
  then show ?case using Cons.IH [of "push y s" "xs @ [y]"] by simp
qed simp

lemma history_from_empty:
  assumes "valid s" and "items s = []"
  shows "valid (fold push ys s)" and "items (fold push ys s) = lastn cap ys"
    and "length (items (fold push ys s)) \<le> cap"
  using history [OF assms(1), of "[]" ys] assms(2) by (simp_all add: lastn_def)

lemma newest_last:
  assumes "valid s" and "items s = []"
  shows "last (items (fold push (ys @ [y]) s)) = y"
  using history_from_empty(2) [OF assms, of "ys @ [y]"] cap_pos by (simp add: lastn_snoc)

end

section \<open>Rings\<close>

text \<open>The entries of a ring of \<open>c\<close> slots whose oldest entry is at \<open>h\<close>.\<close>

definition ring_items :: "nat \<Rightarrow> nat \<Rightarrow> nat \<Rightarrow> 'a list \<Rightarrow> 'a list" where
  "ring_items c h n slots = map (\<lambda>i. slots ! ((h + i) mod c)) [0..<n]"

lemma length_ring_items [simp]: "length (ring_items c h n slots) = n"
  by (simp add: ring_items_def)

lemma ring_items_nth: "i < n \<Longrightarrow> ring_items c h n slots ! i = slots ! ((h + i) mod c)"
  by (simp add: ring_items_def)

lemma ring_items_0 [simp]: "ring_items c h 0 slots = []"
  by (simp add: ring_items_def)

lemma ring_slots_differ:
  assumes "i < j" and "j < i + c"
  shows "(h + i) mod c \<noteq> (h + j) mod (c :: nat)"
proof
  assume "(h + i) mod c = (h + j) mod c"
  then have "c dvd (h + j) - (h + i)" using assms(1) by (metis mod_eq_dvd_iff_nat add_le_cancel_left less_imp_le_nat)
  then have "c dvd j - i" by simp
  then have "c \<le> j - i" using assms(1) by (simp add: dvd_imp_le)
  with assms show False by arith
qed

lemma mod_shift: "k \<le> c \<Longrightarrow> (x mod c + c - k) mod c = (x + c - k) mod (c :: nat)"
  by (metis Nat.add_diff_assoc mod_add_left_eq)

text \<open>A push into a ring that is not full, and into a full one.\<close>

lemma ring_push_room:
  assumes "n < c" and "length slots = c"
  shows "ring_items c h (Suc n) (slots[(h + n) mod c := x]) = ring_items c h n slots @ [x]"
proof (rule nth_equalityI)
  fix i
  assume "i < length (ring_items c h (Suc n) (slots[(h + n) mod c := x]))"
  then have i: "i < Suc n" by simp
  have lt: "(h + n) mod c < c" using assms(1) by simp
  show "ring_items c h (Suc n) (slots[(h + n) mod c := x]) ! i = (ring_items c h n slots @ [x]) ! i"
  proof (cases "i = n")
    case True
    then show ?thesis using lt assms(2) by (simp add: ring_items_nth nth_append)
  next
    case False
    then have "(h + i) mod c \<noteq> (h + n) mod c" using i assms(1) by (intro ring_slots_differ) auto
    then show ?thesis using False i by (simp add: ring_items_nth nth_append)
  qed
qed simp

lemma ring_push_full:
  assumes "0 < c" and "length slots = c"
  shows "ring_items c (Suc h mod c) c (slots[(h + c) mod c := x]) = tl (ring_items c h c slots) @ [x]"
proof (rule nth_equalityI)
  fix i
  assume "i < length (ring_items c (Suc h mod c) c (slots[(h + c) mod c := x]))"
  then have i: "i < c" by simp
  have step: "(Suc h mod c + i) mod c = (h + Suc i) mod c" by (simp add: mod_add_left_eq)
  show "ring_items c (Suc h mod c) c (slots[(h + c) mod c := x]) ! i = (tl (ring_items c h c slots) @ [x]) ! i"
  proof (cases "Suc i = c")
    case True
    then have at: "(Suc h mod c + i) mod c = (h + c) mod c" using step by simp
    moreover have "\<not> i < c - Suc 0" using True by arith
    ultimately show ?thesis using i assms by (simp add: ring_items_nth nth_append)
  next
    case False
    then have "(h + Suc i) mod c \<noteq> (h + c) mod c" using i by (intro ring_slots_differ) auto
    then have "ring_items c (Suc h mod c) c (slots[(h + c) mod c := x]) ! i = slots ! ((h + Suc i) mod c)"
      using i step by (simp add: ring_items_nth)
    also have "\<dots> = tl (ring_items c h c slots) ! i"
      using False i by (simp add: nth_tl ring_items_nth)
    moreover have "i < c - Suc 0" using False i by arith
    ultimately show ?thesis by (simp add: nth_append)
  qed
qed (use assms in simp)

lemma ring_full_lastn:
  "0 < c \<Longrightarrow> lastn c (ring_items c h c slots @ [x]) = tl (ring_items c h c slots) @ [x]"
  by (subst lastn_snoc) (simp_all add: lastn_def drop_Suc flip: drop_Suc, metis One_nat_def drop_0 drop_Suc)

end
