(* ===== verification/NetSnapshot.thy ===== *)
theory NetSnapshot
  imports NetParse Wifi Connections History
begin

text \<open>
  \<open>src/trfx_netinfo.c\<close>, second part: the status of the interfaces, the network snapshot that the panels and
  the command line show, the two one-line summaries, and the ring of samples.
\<close>

text \<open>An entry of \<open>getifaddrs\<close>: its name, and its address when it has one of the two families.\<close>

datatype ifaddr = IfAddr4 string "nat list" | IfAddr6 string "nat list" | IfOther string

fun if_name :: "ifaddr \<Rightarrow> string" where
  "if_name (IfAddr4 n _) = n"
| "if_name (IfAddr6 n _) = n"
| "if_name (IfOther n) = n"

text \<open>The system as these functions see it; \<open>ne_strerror\<close> is the text for a file that cannot be opened.\<close>

record net_env =
  ne_os :: os_view
  ne_addrs :: "ifaddr list option"
  ne_exists :: "string \<Rightarrow> bool"
  ne_strerror :: "string \<Rightarrow> string"

record TrfxInterfaceStatus =
  st_name :: string
  st_operstate :: string
  st_carrier :: string
  st_type :: string
  st_ipv4 :: string
  st_ipv6 :: string
  st_ssid :: string
  st_mac :: string
  st_rx_bytes :: u64
  st_tx_bytes :: u64
  st_is_up :: bool
  st_has_ipv4 :: bool
  st_has_ipv6 :: bool
  st_is_wifi :: bool
  st_is_vpn :: bool

record TrfxInterfaceStatusResult =
  sr_status :: TrfxCollectorStatus
  sr_error :: string
  sr_items :: "TrfxInterfaceStatus list"

record TrfxNetworkSnapshot =
  sn_interfaces :: TrfxInterfaceStatsResult
  sn_interface_statuses :: TrfxInterfaceStatusResult
  sn_route :: TrfxRouteSummary
  sn_dns :: TrfxDnsSummary
  sn_route_status :: TrfxCollectorStatus
  sn_dns_status :: TrfxCollectorStatus
  sn_has_public_ip :: bool
  sn_public_ip :: string
  sn_has_active_interface :: bool
  sn_active_interface :: string
  sn_active_ip :: string
  sn_active_type :: string
  sn_active_ssid :: string
  sn_active_mac :: string
  sn_has_vpn_interface :: bool
  sn_vpn_interface :: string
  sn_vpn_ip :: string
  sn_connections :: "ConnectionInfo list"
  sn_listeners :: "ConnectionInfo list"
  sn_socket_owners :: "SocketOwnerInfo list"

section \<open>Addresses and interface files\<close>

text \<open>The first IPv4 entry with the name.\<close>

definition get_ip_address :: "net_env \<Rightarrow> string \<Rightarrow> string option" where
  "get_ip_address env ifname =
     (if \<not> trfx_is_valid_interface_name (Some ifname) then None
      else (case ne_addrs env of None \<Rightarrow> None
            | Some as \<Rightarrow>
                (case List.find (\<lambda>a. case a of IfAddr4 n _ \<Rightarrow> n = ifname | _ \<Rightarrow> False) as of
                   Some (IfAddr4 _ bs) \<Rightarrow> Some (c_inet_ntop4 bs)
                 | _ \<Rightarrow> None)))"

fun ssid_lines :: "string list \<Rightarrow> string option" where
  "ssid_lines [] = None"
| "ssid_lines (l # ls) =
     (case c_strstr l ''SSID:'' of
        None \<Rightarrow> ssid_lines ls
      | Some p \<Rightarrow> (case c_sscanf [ScSet 127 (\<lambda>c. c \<noteq> nl)] (drop 5 p) of [ScText t] \<Rightarrow> Some t | _ \<Rightarrow> None))"

definition get_wifi_ssid :: "net_env \<Rightarrow> string option \<Rightarrow> string option" where
  "get_wifi_ssid env ifname =
     (if \<not> trfx_is_valid_interface_name ifname then None
      else (case os_cmd (ne_os env) (fit 256 (''iw dev '' @ the ifname @ '' link 2>/dev/null'')) of
              None \<Rightarrow> None | Some out \<Rightarrow> ssid_lines (c_lines 256 out)))"

definition is_wifi_interface :: "net_env \<Rightarrow> string \<Rightarrow> bool" where
  "is_wifi_interface env name =
     (if \<not> trfx_is_valid_interface_name (Some name) then False
      else ne_exists env (fit 128 (''/sys/class/net/'' @ name @ ''/wireless'')))"

definition set_text :: "nat \<Rightarrow> string option \<Rightarrow> string option \<Rightarrow> string" where
  "set_text dest_size value fallback =
     (if value \<noteq> None \<and> value \<noteq> Some [] then fit dest_size (the value)
      else fit dest_size (case fallback of None \<Rightarrow> ''N/A'' | Some f \<Rightarrow> f))"

definition copy_text :: "nat \<Rightarrow> string option \<Rightarrow> string option \<Rightarrow> string" where
  "copy_text dest_size src fallback =
     (if src \<noteq> None \<and> src \<noteq> Some [] then fit dest_size (the src)
      else fit dest_size (case fallback of None \<Rightarrow> ''N/A'' | Some f \<Rightarrow> f))"

definition trim_line_end :: "string \<Rightarrow> string" where
  "trim_line_end t = rev (dropWhile (\<lambda>c. c = nl \<or> c = cr) (rev t))"

definition read_interface_operstate :: "net_env \<Rightarrow> string \<Rightarrow> nat \<Rightarrow> string" where
  "read_interface_operstate env name operstate_size =
     (let unknown = fit operstate_size ''unknown''
      in if \<not> trfx_is_valid_interface_name (Some name) then unknown
         else (case os_file (ne_os env) (fit 128 (''/sys/class/net/'' @ name @ ''/operstate'')) of
                 None \<Rightarrow> unknown
               | Some content \<Rightarrow>
                   (case c_fgets operstate_size content of
                      None \<Rightarrow> unknown
                    | Some (l, _) \<Rightarrow> (let t = trim_line_end l in if t = [] then unknown else t))))"

definition read_interface_carrier :: "net_env \<Rightarrow> string \<Rightarrow> nat \<Rightarrow> string" where
  "read_interface_carrier env name carrier_size =
     (let unknown = fit carrier_size ''unknown''
      in if \<not> trfx_is_valid_interface_name (Some name) then unknown
         else (case os_file (ne_os env) (fit 128 (''/sys/class/net/'' @ name @ ''/carrier'')) of
                 None \<Rightarrow> unknown
               | Some content \<Rightarrow>
                   (case c_fgets 16 content of
                      None \<Rightarrow> unknown
                    | Some (l, _) \<Rightarrow>
                        (let t = trim_line_end l
                         in if t = ''1'' then fit carrier_size ''up''
                            else if t = ''0'' then fit carrier_size ''down'' else unknown))))"

fun address_step :: "string \<Rightarrow> nat \<Rightarrow> nat \<Rightarrow> string \<times> string \<Rightarrow> ifaddr \<Rightarrow> string \<times> string" where
  "address_step name s4 s6 (ipv4, ipv6) (IfAddr4 n bs) =
     (if n = name \<and> ipv4 = ''N/A'' then (fit s4 (c_inet_ntop4 bs), ipv6) else (ipv4, ipv6))"
| "address_step name s4 s6 (ipv4, ipv6) (IfAddr6 n bs) =
     (if n = name \<and> ipv6 = ''N/A'' then (ipv4, fit s6 (c_inet_ntop6 bs)) else (ipv4, ipv6))"
| "address_step name s4 s6 (ipv4, ipv6) (IfOther n) = (ipv4, ipv6)"

definition collect_interface_addresses :: "net_env \<Rightarrow> string \<Rightarrow> nat \<Rightarrow> nat \<Rightarrow> string \<times> string" where
  "collect_interface_addresses env name s4 s6 =
     (if \<not> trfx_is_valid_interface_name (Some name) then (fit s4 ''N/A'', fit s6 ''N/A'')
      else (case ne_addrs env of None \<Rightarrow> (fit s4 ''N/A'', fit s6 ''N/A'')
            | Some as \<Rightarrow> foldl (address_step name s4 s6) (fit s4 ''N/A'', fit s6 ''N/A'') as))"

section \<open>Interface statuses\<close>

definition init_interface_status :: TrfxInterfaceStatus where
  "init_interface_status =
     \<lparr>st_name = [], st_operstate = set_text 16 (Some ''unknown'') (Some ''unknown''),
      st_carrier = set_text 16 (Some ''unknown'') (Some ''unknown''),
      st_type = set_text 16 (Some ''N/A'') (Some ''N/A''), st_ipv4 = set_text 64 (Some ''N/A'') (Some ''N/A''),
      st_ipv6 = set_text 64 (Some ''N/A'') (Some ''N/A''), st_ssid = set_text 64 (Some ''N/A'') (Some ''N/A''),
      st_mac = set_text 32 (Some ''N/A'') (Some ''N/A''), st_rx_bytes = 0, st_tx_bytes = 0, st_is_up = False,
      st_has_ipv4 = False, st_has_ipv6 = False, st_is_wifi = False, st_is_vpn = False\<rparr>"

text \<open>The status and the static hardware address after the call.\<close>

definition fill_interface_status ::
  "net_env \<Rightarrow> TrfxInterfaceStat \<Rightarrow> string \<Rightarrow> TrfxInterfaceStatus \<times> string" where
  "fill_interface_status env stat mac =
     (let name = is_name stat;
          operstate = read_interface_operstate env name 16;
          carrier = read_interface_carrier env name 16;
          addrs = collect_interface_addresses env name 64 64;
          wifi = is_wifi_interface env name;
          vpn = is_vpn_interface (Some name);
          typ = (if vpn then set_text 16 (Some ''VPN'') (Some ''VPN'')
                 else if name = ''lo'' then set_text 16 (Some ''Loopback'') (Some ''Loopback'')
                 else if wifi then set_text 16 (Some ''Wi-Fi'') (Some ''Wi-Fi'')
                 else set_text 16 (Some ''Ethernet'') (Some ''Ethernet''));
          ssid = (if \<not> vpn \<and> name \<noteq> ''lo'' \<and> wifi
                  then set_text 64 (Some (wi_ssid (get_wifi_info (ne_os env) (Some name)))) (Some ''N/A'')
                  else st_ssid init_interface_status);
          mac' = get_mac_address (ne_os env) (Some name) mac
      in (init_interface_status
            \<lparr>st_name := fit 32 (take 31 name), st_rx_bytes := is_rx_bytes stat, st_tx_bytes := is_tx_bytes stat,
             st_operstate := operstate, st_carrier := carrier, st_ipv4 := fst addrs, st_ipv6 := snd addrs,
             st_has_ipv4 := (fst addrs \<noteq> ''N/A''), st_has_ipv6 := (snd addrs \<noteq> ''N/A''),
             st_is_wifi := wifi, st_is_vpn := vpn, st_is_up := (operstate = ''up'' \<or> carrier = ''up''),
             st_type := typ, st_ssid := ssid, st_mac := set_text 32 (Some mac') (Some ''N/A'')\<rparr>, mac'))"

definition trfx_init_interface_statuses :: TrfxInterfaceStatusResult where
  "trfx_init_interface_statuses = \<lparr>sr_status = TRFX_COLLECTOR_PARSE_FAILED, sr_error = [], sr_items = []\<rparr>"

fun fill_statuses :: "net_env \<Rightarrow> TrfxInterfaceStat list \<Rightarrow> string \<Rightarrow> TrfxInterfaceStatus list \<times> string" where
  "fill_statuses env [] mac = ([], mac)"
| "fill_statuses env (s # ss) mac =
     (case fill_interface_status env s mac of
        (st, mac1) \<Rightarrow> (case fill_statuses env ss mac1 of (sts, mac2) \<Rightarrow> (st # sts, mac2)))"

text \<open>The return value, \<open>*status\<close>, the error buffer and the static hardware address.\<close>

definition trfx_collect_interface_statuses ::
  "net_env \<Rightarrow> TrfxInterfaceStatsResult option \<Rightarrow> TrfxInterfaceStatusResult option \<Rightarrow> string option \<Rightarrow> nat \<Rightarrow>
   string \<Rightarrow> TrfxCollectorStatus \<times> TrfxInterfaceStatusResult option \<times> string option \<times> string" where
  "trfx_collect_interface_statuses env interfaces status error error_size mac =
     (if interfaces = None \<or> status = None then (TRFX_COLLECTOR_INVALID_ARGUMENT, status, error, mac)
      else (let e0 = put_buf error error_size []; i = the interfaces;
                s = trfx_init_interface_statuses\<lparr>sr_status := isr_status i\<rparr>
            in if isr_status i = TRFX_COLLECTOR_INVALID_ARGUMENT
               then (let s1 = s\<lparr>sr_error := fit 128 (if isr_error i \<noteq> [] then isr_error i
                                                     else ''invalid interface snapshot'')\<rparr>
                     in (sr_status s1, Some s1, put_buf e0 error_size (sr_error s1), mac))
               else (case fill_statuses env (take trfx_max_interfaces (isr_stats i)) mac of
                       (items, mac') \<Rightarrow> (sr_status s, Some (s\<lparr>sr_items := items\<rparr>), e0, mac'))))"

section \<open>The snapshot\<close>

definition should_skip_snapshot_interface :: "string \<Rightarrow> bool" where
  "should_skip_snapshot_interface name \<longleftrightarrow>
     name = [] \<or> name = ''lo'' \<or> starts_with ''br-'' name \<or> starts_with ''docker'' name \<or> starts_with ''veth'' name
     \<or> starts_with ''virbr'' name \<or> starts_with ''vmnet'' name"

definition connection_is_listener :: "ConnectionInfo \<Rightarrow> bool" where
  "connection_is_listener c \<longleftrightarrow> ci_state c = ''LISTEN'' \<or> ci_state c = ''UNCONN''"

definition trfx_init_network_snapshot :: TrfxNetworkSnapshot where
  "trfx_init_network_snapshot =
     \<lparr>sn_interfaces = \<lparr>isr_status = TRFX_COLLECTOR_PARSE_FAILED, isr_error = [], isr_stats = []\<rparr>,
      sn_interface_statuses = trfx_init_interface_statuses,
      sn_route = \<lparr>rs_has_default = 0, rs_destination = fit 64 ''N/A'', rs_gateway = fit 64 ''N/A'',
                   rs_interface = fit 32 ''N/A'', rs_metric = fit 32 ''N/A''\<rparr>,
      sn_dns = \<lparr>ds_servers = []\<rparr>, sn_route_status = TRFX_COLLECTOR_PARSE_FAILED,
      sn_dns_status = TRFX_COLLECTOR_PARSE_FAILED, sn_has_public_ip = False, sn_public_ip = [],
      sn_has_active_interface = False, sn_active_interface = [], sn_active_ip = [],
      sn_active_type = copy_text 16 None (Some ''N/A''), sn_active_ssid = [], sn_active_mac = [],
      sn_has_vpn_interface = False, sn_vpn_interface = [], sn_vpn_ip = [], sn_connections = [],
      sn_listeners = [], sn_socket_owners = []\<rparr>"

text \<open>The first interface that a loop accepts, with its address.\<close>

fun first_with_ip :: "net_env \<Rightarrow> (string \<Rightarrow> bool) \<Rightarrow> TrfxInterfaceStat list \<Rightarrow> (string \<times> string) option" where
  "first_with_ip env ok [] = None"
| "first_with_ip env ok (s # ss) =
     (if \<not> ok (is_name s) then first_with_ip env ok ss
      else (case get_ip_address env (is_name s) of
              None \<Rightarrow> first_with_ip env ok ss | Some ip \<Rightarrow> Some (is_name s, ip)))"

definition set_active_interface ::
  "net_env \<Rightarrow> string \<Rightarrow> TrfxNetworkSnapshot \<Rightarrow> TrfxNetworkSnapshot \<times> string" where
  "set_active_interface env mac s =
     (case first_with_ip env (\<lambda>n. \<not> should_skip_snapshot_interface n) (isr_stats (sn_interfaces s)) of
        None \<Rightarrow> (s, mac)
      | Some (name, ip) \<Rightarrow>
          (let wifi = is_wifi_interface env name;
               mac' = get_mac_address (ne_os env) (Some name) mac
           in (s\<lparr>sn_has_active_interface := True, sn_active_interface := fit 32 (take 31 name),
                 sn_active_ip := fit 64 (take 63 ip),
                 sn_active_type := fit 16 (if wifi then ''Wi-Fi'' else ''Ethernet''),
                 sn_active_ssid := (if wifi
                    then copy_text 64 (Some (wi_ssid (get_wifi_info (ne_os env) (Some name)))) (Some ''N/A'')
                    else copy_text 64 None (Some ''N/A'')),
                 sn_active_mac := copy_text 32 (Some mac') (Some ''N/A'')\<rparr>, mac')))"

definition set_vpn_interface :: "net_env \<Rightarrow> TrfxNetworkSnapshot \<Rightarrow> TrfxNetworkSnapshot" where
  "set_vpn_interface env s =
     (case first_with_ip env (\<lambda>n. is_vpn_interface (Some n)) (isr_stats (sn_interfaces s)) of
        None \<Rightarrow> s
      | Some (name, ip) \<Rightarrow>
          s\<lparr>sn_has_vpn_interface := True, sn_vpn_interface := fit 32 (take 31 name),
            sn_vpn_ip := fit 64 (take 63 ip)\<rparr>)"

definition first_failure :: "TrfxCollectorStatus \<Rightarrow> TrfxCollectorStatus \<Rightarrow> TrfxCollectorStatus" where
  "first_failure final st = (if st \<noteq> TRFX_COLLECTOR_OK \<and> final = TRFX_COLLECTOR_OK then st else final)"

text \<open>The connection and owner tables of the snapshot.\<close>

definition set_connections :: "net_env \<Rightarrow> u32 \<times> u32 \<Rightarrow> TrfxNetworkSnapshot \<Rightarrow> TrfxNetworkSnapshot" where
  "set_connections env junk s =
     (let cs = get_connection_info (ne_os env) max_connections
      in s\<lparr>sn_connections := cs,
           sn_listeners := collect_rows (nat max_connections)
             (\<lambda>c. if connection_is_listener c then Some c else None) cs [],
           sn_socket_owners := get_socket_owner_info (ne_os env) junk max_socket_owners\<rparr>)"

text \<open>The return value, \<open>*snapshot\<close>, the error buffer and the static hardware address. \<open>junk\<close> are the
  uninitialised locals of the socket table.\<close>

definition trfx_collect_network_snapshot ::
  "net_env \<Rightarrow> u32 \<times> u32 \<Rightarrow> TrfxNetworkSnapshot option \<Rightarrow> string option \<Rightarrow> nat \<Rightarrow> string \<Rightarrow>
   TrfxCollectorStatus \<times> TrfxNetworkSnapshot option \<times> string option \<times> string" where
  "trfx_collect_network_snapshot env junk snapshot error error_size mac =
     (if snapshot = None then (TRFX_COLLECTOR_INVALID_ARGUMENT, None, error, mac)
      else (let os = ne_os env; e0 = put_buf error error_size [];
                s0 = trfx_init_network_snapshot;
                ifs = trfx_collect_interface_stats_path os (ne_strerror env ''/proc/net/dev'') (Some ''/proc/net/dev'');
                f1 = first_failure TRFX_COLLECTOR_OK (isr_status ifs);
                (_, sts, e1, mac1) = trfx_collect_interface_statuses env (Some ifs)
                                       (Some (sn_interface_statuses s0)) e0 error_size mac;
                (route_st, route) = (case os_cmd os ''ip route 2>/dev/null'' of
                    Some out \<Rightarrow> trfx_collect_route_summary_file (Some out) (Some (sn_route s0))
                  | None \<Rightarrow> (TRFX_COLLECTOR_OPEN_FAILED, Some (sn_route s0)));
                f2 = first_failure f1 route_st;
                (dns_st, dns, e2) = trfx_collect_dns_summary_path os (ne_strerror env ''/etc/resolv.conf'')
                                      (Some ''/etc/resolv.conf'') (Some (sn_dns s0)) e1 error_size;
                f3 = first_failure f2 dns_st;
                (has_ip, ip) = (case os_cmd os ''ip route get 1.1.1.1 2>/dev/null'' of
                    None \<Rightarrow> (False, sn_public_ip s0)
                  | Some out \<Rightarrow> (case collect_public_ip_from_file out 64 of (st, t) \<Rightarrow> (st = TRFX_COLLECTOR_OK, t)));
                s1 = s0\<lparr>sn_interfaces := ifs, sn_interface_statuses := the sts, sn_route := the route,
                       sn_route_status := route_st, sn_dns := the dns, sn_dns_status := dns_st,
                       sn_has_public_ip := has_ip, sn_public_ip := ip\<rparr>;
                (s2, mac2) = set_active_interface env mac1 s1
            in (f3, Some (set_connections env junk (set_vpn_interface env s2)), e2, mac2)))"

section \<open>One-line summaries\<close>

definition route_present :: "TrfxNetworkSnapshot \<Rightarrow> bool" where
  "route_present s \<longleftrightarrow> sn_route_status s = TRFX_COLLECTOR_OK \<and> rs_has_default (sn_route s) \<noteq> 0
     \<and> rs_interface (sn_route s) \<noteq> [] \<and> rs_interface (sn_route s) \<noteq> ''N/A''"

definition or_na :: "string \<Rightarrow> string" where
  "or_na t = (if t \<noteq> [] then t else ''N/A'')"

definition trfx_format_route_consistency_summary :: "TrfxNetworkSnapshot \<Rightarrow> nat \<Rightarrow> string" where
  "trfx_format_route_consistency_summary s summary_size =
     (let has_route = route_present s;
          has_active = (sn_has_active_interface s \<and> sn_active_interface s \<noteq> []);
          route_matches_active = (has_route \<and> has_active \<and> rs_interface (sn_route s) = sn_active_interface s)
      in if \<not> has_route \<and> \<not> has_active then fit summary_size ''Route check: unavailable''
         else if route_matches_active
         then fit summary_size (''Route check: route '' @ rs_interface (sn_route s) @ '' | active ''
                @ sn_active_interface s @ '' | IP '' @ or_na (sn_active_ip s) @ '' | ok'')
         else if has_route \<and> has_active
         then fit summary_size (''Route check: route '' @ rs_interface (sn_route s) @ '' | active ''
                @ sn_active_interface s @ '' | IP '' @ or_na (sn_active_ip s) @ '' | mismatch'')
         else if has_route
         then fit summary_size (''Route check: route '' @ rs_interface (sn_route s)
                @ '' | active unavailable | IP '' @ or_na (sn_active_ip s) @ '' | partial'')
         else fit summary_size (''Route check: active '' @ sn_active_interface s @ '' | IP ''
                @ or_na (sn_active_ip s) @ '' | partial''))"

definition trfx_format_network_health_line :: "TrfxNetworkSnapshot \<Rightarrow> nat \<Rightarrow> string" where
  "trfx_format_network_health_line s summary_size =
     (let route_status = (if route_present s then ''ok'' else ''missing'');
          dns_status = (if sn_dns_status s = TRFX_COLLECTOR_OK \<and> 0 < length (ds_servers (sn_dns s))
                        then ''ok'' else ''missing'');
          active_status = (if sn_has_active_interface s then ''ok'' else ''missing'');
          owner_status = (if 0 < length (sn_socket_owners s) then ''visible'' else ''missing'')
      in fit summary_size (''Health: route '' @ route_status @ '' | dns '' @ dns_status @ '' | active ''
           @ active_status @ '' | owners '' @ owner_status))"

section \<open>The ring of samples\<close>

record TrfxNetworkSample =
  sm_captured_at :: int
  sm_snapshot :: TrfxNetworkSnapshot

record TrfxNetworkSampleBuffer =
  sb_count :: nat
  sb_head :: nat
  sb_samples :: "TrfxNetworkSample list"

definition sample_history :: nat where "sample_history = 12"

definition zero_sample :: TrfxNetworkSample where
  "zero_sample = \<lparr>sm_captured_at = 0, sm_snapshot = trfx_init_network_snapshot\<rparr>"

text \<open>The content of an unused slot does not matter; the model fills it with the initial snapshot.\<close>

definition trfx_init_network_sample_buffer :: TrfxNetworkSampleBuffer where
  "trfx_init_network_sample_buffer = \<lparr>sb_count = 0, sb_head = 0, sb_samples = replicate sample_history zero_sample\<rparr>"

definition trfx_network_sample_buffer_push ::
  "TrfxNetworkSnapshot option \<Rightarrow> int \<Rightarrow> TrfxNetworkSampleBuffer \<Rightarrow> TrfxNetworkSampleBuffer" where
  "trfx_network_sample_buffer_push snapshot captured_at b =
     (case snapshot of None \<Rightarrow> b
      | Some s \<Rightarrow>
          (let slot = (sb_head b + sb_count b) mod sample_history;
               b1 = b\<lparr>sb_samples := (sb_samples b)[slot := \<lparr>sm_captured_at = captured_at, sm_snapshot = s\<rparr>]\<rparr>
           in if sb_count b < sample_history then b1\<lparr>sb_count := sb_count b + 1\<rparr>
              else b1\<lparr>sb_head := (sb_head b + 1) mod sample_history\<rparr>))"

definition trfx_network_sample_buffer_count :: "TrfxNetworkSampleBuffer option \<Rightarrow> nat" where
  "trfx_network_sample_buffer_count buffer = (case buffer of None \<Rightarrow> 0 | Some b \<Rightarrow> sb_count b)"

definition trfx_network_sample_buffer_at :: "TrfxNetworkSampleBuffer option \<Rightarrow> nat \<Rightarrow> TrfxNetworkSample option" where
  "trfx_network_sample_buffer_at buffer index =
     (case buffer of None \<Rightarrow> None
      | Some b \<Rightarrow> if sb_count b \<le> index then None
                   else Some (sb_samples b ! ((sb_head b + index) mod sample_history)))"

section \<open>The ring keeps the last samples\<close>

definition sample_push :: "TrfxNetworkSample \<Rightarrow> TrfxNetworkSampleBuffer \<Rightarrow> TrfxNetworkSampleBuffer" where
  "sample_push x b = trfx_network_sample_buffer_push (Some (sm_snapshot x)) (sm_captured_at x) b"

definition sample_valid :: "TrfxNetworkSampleBuffer \<Rightarrow> bool" where
  "sample_valid b \<longleftrightarrow> length (sb_samples b) = sample_history \<and> sb_count b \<le> sample_history"

definition sample_items :: "TrfxNetworkSampleBuffer \<Rightarrow> TrfxNetworkSample list" where
  "sample_items b = ring_items sample_history (sb_head b) (sb_count b) (sb_samples b)"

lemma sample_eta [simp]: "\<lparr>sm_captured_at = sm_captured_at x, sm_snapshot = sm_snapshot x\<rparr> = x"
  by (cases x) simp

lemma sample_items_push:
  assumes "sample_valid b"
  shows "sample_items (sample_push x b) = lastn sample_history (sample_items b @ [x])"
proof (cases "sb_count b < sample_history")
  case True
  then show ?thesis
    using assms ring_push_room [of "sb_count b" sample_history "sb_samples b" "sb_head b" x]
    by (simp add: sample_items_def sample_push_def trfx_network_sample_buffer_push_def sample_valid_def Let_def)
next
  case False
  then have full: "sb_count b = sample_history" using assms by (simp add: sample_valid_def)
  have pos: "0 < sample_history" by (simp add: sample_history_def)
  show ?thesis
    using full assms ring_push_full [OF pos, of "sb_samples b" "sb_head b" x]
    by (simp add: sample_items_def sample_push_def trfx_network_sample_buffer_push_def sample_valid_def Let_def
        ring_full_lastn [OF pos])
qed

interpretation samples: bounded_history sample_history sample_valid sample_items sample_push
  by unfold_locales
    (simp_all add: sample_items_push, auto simp: sample_history_def sample_valid_def sample_push_def
      trfx_network_sample_buffer_push_def Let_def)

lemma sample_at_items:
  "trfx_network_sample_buffer_at (Some b) i = (if i < length (sample_items b) then Some (sample_items b ! i) else None)"
  by (simp add: trfx_network_sample_buffer_at_def sample_items_def ring_items_nth)

abbreviation sampled :: "TrfxNetworkSample list \<Rightarrow> TrfxNetworkSampleBuffer" where
  "sampled xs \<equiv> fold sample_push xs trfx_init_network_sample_buffer"

lemma sampled_items: "sample_items (sampled xs) = lastn 12 xs"
proof -
  have start: "sample_valid trfx_init_network_sample_buffer" "sample_items trfx_init_network_sample_buffer = []"
    by (simp_all add: sample_valid_def trfx_init_network_sample_buffer_def sample_items_def)
  show ?thesis using samples.history_from_empty(2) [OF start, of xs] by (simp add: sample_history_def)
qed

lemma sampled_count: "trfx_network_sample_buffer_count (Some (sampled xs)) = min 12 (length xs)"
proof -
  have "length (sample_items (sampled xs)) = sb_count (sampled xs)" by (simp add: sample_items_def)
  then show ?thesis using sampled_items [of xs] by (simp add: trfx_network_sample_buffer_count_def)
qed

lemma sampled_at:
  "trfx_network_sample_buffer_at (Some (sampled xs)) i
     = (if i < min 12 (length xs) then Some (lastn 12 xs ! i) else None)"
  by (simp add: sample_at_items sampled_items)

text \<open>C15. The ring of samples is a sliding window: after any number of pushes it holds the last twelve
  samples, and index \<open>i\<close> counts from the oldest of them, so the newest is at \<open>count - 1\<close> and nothing else can
  be read.\<close>

theorem sample_buffer_window:
  "trfx_network_sample_buffer_count (Some (fold sample_push xs trfx_init_network_sample_buffer)) = min 12 (length xs)
 \<and> trfx_network_sample_buffer_at (Some (fold sample_push xs trfx_init_network_sample_buffer)) i
     = (if i < min 12 (length xs) then Some (xs ! (length xs - min 12 (length xs) + i)) else None)"
proof -
  have "lastn 12 xs ! i = xs ! (length xs - min 12 (length xs) + i)" if "i < min 12 (length xs)"
  proof -
    have "length xs - min 12 (length xs) = length xs - 12" by simp
    then show ?thesis using that by (simp add: lastn_def)
  qed
  then show ?thesis by (simp add: sampled_count sampled_at)
qed

section \<open>What a snapshot holds\<close>

lemma set_connections_fields [simp]:
  "sn_route (set_connections env junk s) = sn_route s"
  "sn_route_status (set_connections env junk s) = sn_route_status s"
  "sn_dns (set_connections env junk s) = sn_dns s"
  "sn_dns_status (set_connections env junk s) = sn_dns_status s"
  "sn_interfaces (set_connections env junk s) = sn_interfaces s"
  "sn_has_active_interface (set_connections env junk s) = sn_has_active_interface s"
  "sn_active_interface (set_connections env junk s) = sn_active_interface s"
  "sn_active_ip (set_connections env junk s) = sn_active_ip s"
  by (simp_all add: set_connections_def Let_def)

lemma set_vpn_fields [simp]:
  "sn_route (set_vpn_interface env s) = sn_route s"
  "sn_route_status (set_vpn_interface env s) = sn_route_status s"
  "sn_dns (set_vpn_interface env s) = sn_dns s"
  "sn_dns_status (set_vpn_interface env s) = sn_dns_status s"
  "sn_interfaces (set_vpn_interface env s) = sn_interfaces s"
  "sn_has_active_interface (set_vpn_interface env s) = sn_has_active_interface s"
  "sn_active_interface (set_vpn_interface env s) = sn_active_interface s"
  "sn_active_ip (set_vpn_interface env s) = sn_active_ip s"
  by (simp_all add: set_vpn_interface_def split: option.splits)

lemma set_active_fields [simp]:
  "sn_route (fst (set_active_interface env m s)) = sn_route s"
  "sn_route_status (fst (set_active_interface env m s)) = sn_route_status s"
  "sn_dns (fst (set_active_interface env m s)) = sn_dns s"
  "sn_dns_status (fst (set_active_interface env m s)) = sn_dns_status s"
  "sn_interfaces (fst (set_active_interface env m s)) = sn_interfaces s"
  by (simp_all add: set_active_interface_def Let_def split: option.splits)

lemma set_connections_listeners:
  "sn_listeners (set_connections env junk s) = filter connection_is_listener (sn_connections (set_connections env junk s))"
  "length (sn_connections (set_connections env junk s)) \<le> 512"
proof -
  let ?cs = "get_connection_info (ne_os env) max_connections"
  have len: "length ?cs \<le> 512"
    by (simp add: get_connection_rows qs.qs_length apply_socket_owner_map_def Let_def max_connections_def)
  have "List.map_filter (\<lambda>c. if connection_is_listener c then Some c else None) cs = filter connection_is_listener cs" for cs
    by (induction cs) simp_all
  then have "collect_rows (nat max_connections) (\<lambda>c. if connection_is_listener c then Some c else None) ?cs []
      = filter connection_is_listener ?cs"
    using le_trans [OF length_filter_le len, of connection_is_listener]
    by (simp add: collect_rows_eq max_connections_def)
  with len show "sn_listeners (set_connections env junk s) = filter connection_is_listener (sn_connections (set_connections env junk s))"
    "length (sn_connections (set_connections env junk s)) \<le> 512"
    by (simp_all add: set_connections_def Let_def)
qed

text \<open>The snapshot that a collection stores, in terms of the collectors it calls.\<close>

lemma snapshot_parts:
  assumes "trfx_collect_network_snapshot env junk (Some old) err n mac = (st, Some s, e, m)"
  obtains s1 m1 where "s = set_connections env junk (set_vpn_interface env (fst (set_active_interface env m1 s1)))"
    and "st = first_failure (first_failure (first_failure TRFX_COLLECTOR_OK (isr_status (sn_interfaces s1)))
               (sn_route_status s1)) (sn_dns_status s1)"
    and "(sn_route_status s1 = TRFX_COLLECTOR_OK) = (rs_has_default (sn_route s1) = 1)"
    and "rs_has_default (sn_route s1) \<in> {0, 1}"
    and "distinct (ds_servers (sn_dns s1))"
    and "sn_has_active_interface s1 = False"
    and "sn_interfaces s1 = trfx_collect_interface_stats_path (ne_os env) (ne_strerror env ''/proc/net/dev'')
           (Some ''/proc/net/dev'')"
proof -
  let ?os = "ne_os env"
  let ?ifs = "trfx_collect_interface_stats_path ?os (ne_strerror env ''/proc/net/dev'') (Some ''/proc/net/dev'')"
  define rt where "rt = (case os_cmd ?os ''ip route 2>/dev/null'' of
      Some out \<Rightarrow> trfx_collect_route_summary_file (Some out) (Some (sn_route trfx_init_network_snapshot))
    | None \<Rightarrow> (TRFX_COLLECTOR_OPEN_FAILED, Some (sn_route trfx_init_network_snapshot)))"
  obtain a sts e1 m1 where sts: "trfx_collect_interface_statuses env (Some ?ifs)
      (Some (sn_interface_statuses trfx_init_network_snapshot)) (put_buf err n []) n mac = (a, sts, e1, m1)"
    by (metis prod_cases4)
  obtain dns_st dns e2 where dns: "trfx_collect_dns_summary_path ?os (ne_strerror env ''/etc/resolv.conf'')
      (Some ''/etc/resolv.conf'') (Some (sn_dns trfx_init_network_snapshot)) e1 n = (dns_st, dns, e2)"
    by (metis prod_cases3)
  obtain has_ip ip where ip: "(case os_cmd ?os ''ip route get 1.1.1.1 2>/dev/null'' of
                    None \<Rightarrow> (False, sn_public_ip trfx_init_network_snapshot)
                  | Some out \<Rightarrow> (case collect_public_ip_from_file out 64 of (st, t) \<Rightarrow> (st = TRFX_COLLECTOR_OK, t)))
      = (has_ip, ip)" by fastforce
  define s1 where "s1 = trfx_init_network_snapshot\<lparr>sn_interfaces := ?ifs, sn_interface_statuses := the sts,
     sn_route := the (snd rt), sn_route_status := fst rt, sn_dns := the dns, sn_dns_status := dns_st,
     sn_has_public_ip := has_ip, sn_public_ip := ip\<rparr>"
  have st: "st = first_failure (first_failure (first_failure TRFX_COLLECTOR_OK (isr_status (sn_interfaces s1)))
               (sn_route_status s1)) (sn_dns_status s1)"
    and s: "s = set_connections env junk (set_vpn_interface env (fst (set_active_interface env m1 s1)))"
    using assms
    by (simp_all add: trfx_collect_network_snapshot_def Let_def sts dns ip rt_def [symmetric] s1_def
        split: prod.splits)
  have route: "(fst rt = TRFX_COLLECTOR_OK) = (rs_has_default (the (snd rt)) = 1)" "rs_has_default (the (snd rt)) \<in> {0, 1}"
    using route_summary_status
    by (auto simp: rt_def trfx_init_network_snapshot_def split: option.splits)
  have "distinct (ds_servers (the b))" if "trfx_collect_dns_summary_file (Some c) (Some s0) = (a, b)" for a b c s0
    using dns_summary_distinct [of c s0] that by simp
  then have "distinct (ds_servers (the dns))"
    using dns
    by (auto simp: trfx_collect_dns_summary_path_def trfx_init_network_snapshot_def Let_def
        split: option.splits prod.splits)
  then show thesis
    using that [OF s st] route by (simp add: s1_def trfx_init_network_snapshot_def)
qed

lemma first_with_ip_Some:
  "first_with_ip env ok ss = Some (name, ip) \<Longrightarrow>
     ok name \<and> name \<in> is_name ` set ss \<and> get_ip_address env name = Some ip"
  by (induction ss) (auto split: if_splits option.splits)

lemma snapshot_consistency:
  assumes "trfx_collect_network_snapshot env junk (Some old) err n mac = (st, Some s, e, m)"
  shows "sn_listeners s = filter connection_is_listener (sn_connections s) \<and> length (sn_connections s) \<le> 512
    \<and> (sn_route_status s = TRFX_COLLECTOR_OK \<longleftrightarrow> rs_has_default (sn_route s) = 1)
    \<and> distinct (ds_servers (sn_dns s))
    \<and> (st = TRFX_COLLECTOR_OK \<longleftrightarrow> isr_status (sn_interfaces s) = TRFX_COLLECTOR_OK
         \<and> sn_route_status s = TRFX_COLLECTOR_OK \<and> sn_dns_status s = TRFX_COLLECTOR_OK)"
proof -
  obtain s1 m1 where "s = set_connections env junk (set_vpn_interface env (fst (set_active_interface env m1 s1)))"
    and "st = first_failure (first_failure (first_failure TRFX_COLLECTOR_OK (isr_status (sn_interfaces s1)))
               (sn_route_status s1)) (sn_dns_status s1)"
    and "(sn_route_status s1 = TRFX_COLLECTOR_OK) = (rs_has_default (sn_route s1) = 1)"
    and "distinct (ds_servers (sn_dns s1))"
    using snapshot_parts [OF assms] by metis
  then show ?thesis by (simp add: set_connections_listeners) (auto simp: first_failure_def)
qed

text \<open>C33. A network snapshot is consistent: its listeners are exactly the listening ones among its
  connections, in order; its route status is OK exactly when it has a default route; its name servers
  are distinct; and the status that the collection returns is OK exactly when interfaces, route and name
  servers were all collected.\<close>

theorem snapshot_consistent:
  assumes "trfx_collect_network_snapshot env junk (Some old) err n mac = (st, Some s, e, m)"
  shows "sn_listeners s = filter connection_is_listener (sn_connections s) \<and> length (sn_connections s) \<le> 512
    \<and> (sn_route_status s = TRFX_COLLECTOR_OK \<longleftrightarrow> rs_has_default (sn_route s) = 1)
    \<and> distinct (ds_servers (sn_dns s))
    \<and> (st = TRFX_COLLECTOR_OK \<longleftrightarrow> isr_status (sn_interfaces s) = TRFX_COLLECTOR_OK
         \<and> sn_route_status s = TRFX_COLLECTOR_OK \<and> sn_dns_status s = TRFX_COLLECTOR_OK)"
  using assms by (rule snapshot_consistency)

text \<open>The active interface of a snapshot is a real one: it is one of the listed interfaces, not the
  loopback and not one of the virtual bridges, and the address shown for it is its own IPv4 address.\<close>

lemma snapshot_active_interface:
  assumes "trfx_collect_network_snapshot env junk (Some old) err n mac = (st, Some s, e, m)"
    and "sn_has_active_interface s"
  shows "\<exists>name ip. name \<in> is_name ` set (isr_stats (sn_interfaces s)) \<and> \<not> should_skip_snapshot_interface name
    \<and> get_ip_address env name = Some ip
    \<and> sn_active_interface s = take 31 name \<and> sn_active_ip s = take 63 ip"
proof -
  obtain s1 m1 where s: "s = set_connections env junk (set_vpn_interface env (fst (set_active_interface env m1 s1)))"
    and none: "sn_has_active_interface s1 = False"
    using snapshot_parts [OF assms(1)] by metis
  let ?a = "fst (set_active_interface env m1 s1)"
  have "sn_has_active_interface ?a" using assms(2) s by simp
  with none obtain name ip where f: "first_with_ip env (\<lambda>n. \<not> should_skip_snapshot_interface n)
      (isr_stats (sn_interfaces s1)) = Some (name, ip)"
    by (auto simp: set_active_interface_def split: option.splits)
  then have "sn_active_interface ?a = take 31 name" "sn_active_ip ?a = take 63 ip"
    by (simp_all add: set_active_interface_def Let_def fit_def)
  then show ?thesis using first_with_ip_Some [OF f] s by auto
qed

text \<open>A system with one Ethernet interface and nothing else, for the witnesses.\<close>

definition demo_dev :: string where
  "demo_dev = ''Inter-|'' @ [nl] @ '' face |'' @ [nl]
     @ dev_line 2 ''eth0'' [(1, 9), (1, 1), (1, 0), (1, 0), (1, 0), (1, 0), (1, 0), (1, 0), (1, 8), (1, 0)]"

definition demo_net :: net_env where
  "demo_net = \<lparr>ne_os = os_empty\<lparr>os_file := (\<lambda>p. if p = ''/proc/net/dev'' then Some demo_dev else None)\<rparr>,
     ne_addrs = Some [IfAddr4 ''lo'' [127, 0, 0, 1], IfAddr4 ''eth0'' [10, 0, 0, 2]],
     ne_exists = (\<lambda>_. False), ne_strerror = (\<lambda>_. ''No such file'')\<rparr>"

lemma demo_dev_lines:
  "c_lines 256 demo_dev = [''Inter-|'' @ [nl], '' face |'' @ [nl],
     dev_line 2 ''eth0'' [(1, 9), (1, 1), (1, 0), (1, 0), (1, 0), (1, 0), (1, 0), (1, 0), (1, 8), (1, 0)]]"
proof -
  have dev: "dev_line 2 ''eth0'' [(1, 9), (1, 1), (1, 0), (1, 0), (1, 0), (1, 0), (1, 0), (1, 0), (1, 8), (1, 0)]
      = ''  eth0: 9 1 0 0 0 0 0 0 8 0'' @ nl # []"
    by (simp add: dev_line_def show_nat.simps digit_char_numerals numeral_2_eq_2)
  have "c_lines 256 demo_dev
      = (''Inter-|'' @ [nl]) # c_lines 256 ('' face |'' @ nl # ''  eth0: 9 1 0 0 0 0 0 0 8 0'' @ nl # [])"
    unfolding demo_dev_def dev append.assoc [symmetric] append_Cons append_Nil
    by (rule c_lines_line [of "''Inter-|''", unfolded append_Cons append_Nil]) simp_all
  also have "\<dots> = [''Inter-|'' @ [nl], '' face |'' @ [nl], ''  eth0: 9 1 0 0 0 0 0 0 8 0'' @ [nl]]"
    by (subst c_lines_line, simp, simp)+ simp
  finally show ?thesis by (simp only: dev)
qed

lemma demo_interfaces:
  "isr_stats (trfx_collect_interface_stats_path (ne_os demo_net) e (Some ''/proc/net/dev''))
     = [\<lparr>is_name = ''eth0'', is_rx_bytes = word_of_nat 9, is_tx_bytes = word_of_nat 8\<rparr>]"
proof -
  have "interface_stats_line (dev_line 2 ''eth0'' [(1, 9), (1, 1), (1, 0), (1, 0), (1, 0), (1, 0), (1, 0), (1, 0), (1, 8), (1, 0)])
      = Some \<lparr>is_name = ''eth0'', is_rx_bytes = word_of_nat 9, is_tx_bytes = word_of_nat 8\<rparr>"
    by (rule interface_line) (simp_all add: char_simps)
  then show ?thesis
    unfolding trfx_collect_interface_stats_path_def trfx_parse_interface_stats_file_def
    by (simp add: demo_net_def demo_dev_lines trfx_max_interfaces_def collect_rows_def)
qed

lemma snapshot_result: "\<exists>st s e m. trfx_collect_network_snapshot env junk (Some old) err n mac = (st, Some s, e, m)"
  by (simp add: trfx_collect_network_snapshot_def Let_def split: prod.splits)

lemma demo_active:
  assumes "trfx_collect_network_snapshot demo_net junk (Some old) err n mac = (st, Some s, e, m)"
  shows "sn_has_active_interface s"
proof -
  obtain s1 m1 where s: "s = set_connections demo_net junk (set_vpn_interface demo_net (fst (set_active_interface demo_net m1 s1)))"
    and i: "sn_interfaces s1 = trfx_collect_interface_stats_path (ne_os demo_net) (ne_strerror demo_net ''/proc/net/dev'')
           (Some ''/proc/net/dev'')"
    using snapshot_parts [OF assms] by metis
  have "first_with_ip demo_net (\<lambda>n. \<not> should_skip_snapshot_interface n) (isr_stats (sn_interfaces s1))
      = Some (''eth0'', c_inet_ntop4 [10, 0, 0, 2])"
    unfolding i demo_interfaces
    by (simp add: should_skip_snapshot_interface_def starts_with_def get_ip_address_def demo_net_def
        trfx_is_valid_interface_name_def char_simps)
  then show ?thesis by (simp add: s set_active_interface_def Let_def)
qed

lemma snapshot_consistent_witness:
  "\<exists>s. sn_listeners s = filter connection_is_listener (sn_connections s)
     \<and> (\<exists>st e m. trfx_collect_network_snapshot demo_net (0, 0) (Some trfx_init_network_snapshot) None 0 mac_start
          = (st, Some s, e, m))"
proof -
  obtain st s e m where "trfx_collect_network_snapshot demo_net (0, 0) (Some trfx_init_network_snapshot) None 0 mac_start
      = (st, Some s, e, m)" using snapshot_result by metis
  then show ?thesis using snapshot_consistent by blast
qed

lemma snapshot_active_interface_witness:
  "\<exists>s. sn_active_interface s = ''eth0''
     \<and> (\<exists>st e m. trfx_collect_network_snapshot demo_net (0, 0) (Some trfx_init_network_snapshot) None 0 mac_start
          = (st, Some s, e, m))"
proof -
  obtain st s e m where ex: "trfx_collect_network_snapshot demo_net (0, 0) (Some trfx_init_network_snapshot) None 0 mac_start
      = (st, Some s, e, m)" using snapshot_result by metis
  obtain name where n: "name \<in> is_name ` set (isr_stats (sn_interfaces s))" "sn_active_interface s = take 31 name"
    using snapshot_active_interface [OF ex demo_active [OF ex]] by blast
  obtain s1 m1 where "s = set_connections demo_net (0, 0) (set_vpn_interface demo_net (fst (set_active_interface demo_net m1 s1)))"
    and "sn_interfaces s1 = trfx_collect_interface_stats_path (ne_os demo_net) (ne_strerror demo_net ''/proc/net/dev'')
           (Some ''/proc/net/dev'')"
    using snapshot_parts [OF ex] by metis
  then have "name = ''eth0''" using n(1) by (simp add: demo_interfaces)
  then show ?thesis using n(2) ex by auto
qed

end
