(* ===== verification/Bandwidth.thy ===== *)
theory Bandwidth
  imports NetSnapshot CSort
begin

text \<open>
  \<open>src/trfx_bandwidth.c\<close>: the estimate of the bandwidth of sockets or processes from two samples of the
  interface counters, and the trend over the recent samples. Sums and shares are rounded as \<open>double\<close>.
\<close>

datatype TrfxBandwidthMode =
    TRFX_BW_MODE_UNSUPPORTED | TRFX_BW_MODE_INTERFACE_FALLBACK
  | TRFX_BW_MODE_PROCESS_ESTIMATED | TRFX_BW_MODE_SOCKET_ESTIMATED

record TrfxBandwidthFlow =
  bf_label :: string
  bf_pid :: string
  bf_process :: string
  bf_local :: string
  bf_remote :: string
  bf_proto :: string
  bf_detail :: string
  bf_rx_bytes_per_sec :: rat
  bf_tx_bytes_per_sec :: rat

record TrfxBandwidthReport =
  br_mode :: TrfxBandwidthMode
  br_source :: string
  br_interface_rates :: "TrfxInterfaceRate list"
  br_flows :: "TrfxBandwidthFlow list"

text \<open>One entry of the three arrays of a trend.\<close>

record trend_point =
  tp_captured_at :: int
  tp_rx_bytes_per_sec :: rat
  tp_tx_bytes_per_sec :: rat

record TrfxBandwidthTrend =
  bt_source :: string
  bt_points :: "trend_point list"

definition max_bandwidth_flows :: nat where "max_bandwidth_flows = 64"
definition max_bandwidth_trend_points :: nat where "max_bandwidth_trend_points = 4"

section \<open>Operations\<close>

definition connection_has_owner :: "ConnectionInfo \<Rightarrow> bool" where
  "connection_has_owner c \<longleftrightarrow> ci_pid c \<noteq> ''-'' \<or> ci_process c \<noteq> ''-''"

definition sum_interface_rate :: "TrfxInterfaceRate list \<Rightarrow> bool \<Rightarrow> rat" where
  "sum_interface_rate rates use_rx =
     foldl (\<lambda>total r. dbl (total + (if use_rx then ir_rx_bytes_per_sec r else ir_tx_bytes_per_sec r))) 0 rates"

definition sum_rate_bytes :: "TrfxInterfaceRate list \<Rightarrow> bool \<Rightarrow> rat" where
  "sum_rate_bytes rates use_rx =
     foldl (\<lambda>total r. dbl (total + (if use_rx then ir_rx_bytes_per_sec r else ir_tx_bytes_per_sec r))) 0 rates"

definition copy_rate_interfaces :: "TrfxInterfaceRate list \<Rightarrow> TrfxBandwidthReport \<Rightarrow> TrfxBandwidthReport" where
  "copy_rate_interfaces rates report = report\<lparr>br_interface_rates := take trfx_max_interfaces rates\<rparr>"

definition flow_total_bytes_per_sec :: "TrfxBandwidthFlow \<Rightarrow> rat" where
  "flow_total_bytes_per_sec flow = dbl (bf_rx_bytes_per_sec flow + bf_tx_bytes_per_sec flow)"

definition compare_bandwidth_flows :: "TrfxBandwidthFlow \<Rightarrow> TrfxBandwidthFlow \<Rightarrow> int" where
  "compare_bandwidth_flows a b =
     (let total_a = flow_total_bytes_per_sec a; total_b = flow_total_bytes_per_sec b
      in if total_a < total_b then 1 else if total_b < total_a then -1 else c_strcmp (bf_label a) (bf_label b))"

definition sort_bandwidth_flows :: "TrfxBandwidthReport \<Rightarrow> TrfxBandwidthReport" where
  "sort_bandwidth_flows report =
     (if length (br_flows report) \<le> 1 then report
      else report\<lparr>br_flows := c_qsort compare_bandwidth_flows (br_flows report)\<rparr>)"

definition format_connection_label :: "ConnectionInfo option \<Rightarrow> nat \<Rightarrow> string" where
  "format_connection_label connection buf_size =
     (case connection of None \<Rightarrow> fit buf_size ''unknown''
      | Some c \<Rightarrow> fit buf_size (ci_protocol c @ '' '' @ ci_local_addr c @ '' -> '' @ ci_remote_addr c))"

record ProcessGroup =
  pg_pid :: string
  pg_process :: string
  pg_socket_count :: nat

definition find_process_group :: "ProcessGroup list \<Rightarrow> SocketOwnerInfo \<Rightarrow> nat option" where
  "find_process_group groups owner =
     find_index (\<lambda>g. pg_pid g = so_pid owner \<and> pg_process g = so_process owner) groups"

definition trfx_init_bandwidth_report :: TrfxBandwidthReport where
  "trfx_init_bandwidth_report = \<lparr>br_mode = TRFX_BW_MODE_UNSUPPORTED, br_source = fit 128 ''insufficient samples'',
     br_interface_rates = [], br_flows = []\<rparr>"

definition trfx_init_bandwidth_trend :: TrfxBandwidthTrend where
  "trfx_init_bandwidth_trend = \<lparr>bt_source = fit 128 ''sample history unavailable'', bt_points = []\<rparr>"

definition trfx_bandwidth_mode_name :: "TrfxBandwidthMode \<Rightarrow> string" where
  "trfx_bandwidth_mode_name mode = (case mode of
     TRFX_BW_MODE_INTERFACE_FALLBACK \<Rightarrow> ''interface fallback''
   | TRFX_BW_MODE_PROCESS_ESTIMATED \<Rightarrow> ''process estimated''
   | TRFX_BW_MODE_SOCKET_ESTIMATED \<Rightarrow> ''socket estimated''
   | TRFX_BW_MODE_UNSUPPORTED \<Rightarrow> ''unsupported'')"

definition rates_between :: "TrfxNetworkSample \<Rightarrow> TrfxNetworkSample \<Rightarrow> TrfxInterfaceRate list" where
  "rates_between previous current =
     (let diff = sm_captured_at current - sm_captured_at previous;
          elapsed_seconds = (if diff \<le> 0 then 1 else of_int diff)
      in case trfx_calculate_interface_rates (Some (isr_stats (sn_interfaces (sm_snapshot previous))))
                (Some (isr_stats (sn_interfaces (sm_snapshot current)))) elapsed_seconds (int trfx_max_interfaces) of
           None \<Rightarrow> [] | Some rates \<Rightarrow> rates)"

text \<open>The flows of the owned connections, numbered from \<open>out + 1\<close>.\<close>

fun socket_flows :: "nat \<Rightarrow> nat \<Rightarrow> rat \<Rightarrow> rat \<Rightarrow> ConnectionInfo list \<Rightarrow> TrfxBandwidthFlow list" where
  "socket_flows out owned rx tx [] = []"
| "socket_flows out owned rx tx (c # cs) =
     (if \<not> out < max_bandwidth_flows then []
      else if \<not> connection_has_owner c then socket_flows out owned rx tx cs
      else \<lparr>bf_label = format_connection_label (Some c) 128, bf_pid = fit 16 (ci_pid c),
            bf_process = fit 64 (ci_process c), bf_local = fit 64 (ci_local_addr c),
            bf_remote = fit 64 (ci_remote_addr c), bf_proto = fit 8 (ci_protocol c),
            bf_detail = fit 64 (''socket '' @ show_nat (Suc out) @ ''/'' @ show_nat owned),
            bf_rx_bytes_per_sec = rx, bf_tx_bytes_per_sec = tx\<rparr> # socket_flows (Suc out) owned rx tx cs)"

text \<open>The groups of sockets by process, and the number of sockets that were counted.\<close>

definition group_step :: "ProcessGroup list \<times> nat \<Rightarrow> SocketOwnerInfo \<Rightarrow> ProcessGroup list \<times> nat" where
  "group_step st owner =
     (case st of (groups, sockets) \<Rightarrow>
        (case find_process_group groups owner of
           Some i \<Rightarrow> (groups[i := (groups ! i)\<lparr>pg_socket_count := pg_socket_count (groups ! i) + 1\<rparr>], sockets + 1)
         | None \<Rightarrow>
             if length groups < max_bandwidth_flows
             then (groups @ [\<lparr>pg_pid = fit 16 (so_pid owner), pg_process = fit 64 (so_process owner),
                              pg_socket_count = 1\<rparr>], sockets + 1)
             else (groups, sockets)))"

definition process_flow :: "rat \<Rightarrow> rat \<Rightarrow> nat \<Rightarrow> ProcessGroup \<Rightarrow> TrfxBandwidthFlow" where
  "process_flow total_rx total_tx total_sockets g =
     (let share = dbl (of_nat (pg_socket_count g) / of_nat total_sockets)
      in \<lparr>bf_label = fit 128 (take 63 (pg_process g)), bf_pid = fit 16 (take 15 (pg_pid g)),
          bf_process = fit 64 (take 63 (pg_process g)), bf_local = [], bf_remote = [], bf_proto = [],
          bf_detail = fit 64 (show_nat (pg_socket_count g) @ '' sockets''),
          bf_rx_bytes_per_sec = dbl (total_rx * share), bf_tx_bytes_per_sec = dbl (total_tx * share)\<rparr>)"

definition estimate_source :: string where
  "estimate_source = ''estimated from interface deltas and socket ownership''"

text \<open>The part of the report after the two samples were found.\<close>

definition report_from_samples :: "TrfxNetworkSample \<Rightarrow> TrfxNetworkSample \<Rightarrow> TrfxBandwidthReport \<Rightarrow> TrfxBandwidthReport" where
  "report_from_samples previous current report =
     (let rates = rates_between previous current;
          r = copy_rate_interfaces rates report;
          total_rx = sum_interface_rate rates True;
          total_tx = sum_interface_rate rates False;
          conns = sn_connections (sm_snapshot current);
          owned_count = length (filter connection_has_owner conns);
          owners = sn_socket_owners (sm_snapshot current);
          (groups, total_sockets) = foldl group_step ([], 0) owners
      in if 0 < owned_count
         then sort_bandwidth_flows (r\<lparr>br_mode := TRFX_BW_MODE_SOCKET_ESTIMATED, br_source := fit 128 estimate_source,
                br_flows := socket_flows 0 owned_count (dbl (total_rx / of_nat owned_count))
                              (dbl (total_tx / of_nat owned_count)) conns\<rparr>)
         else if 0 < length groups \<and> 0 < total_sockets
         then sort_bandwidth_flows (r\<lparr>br_mode := TRFX_BW_MODE_PROCESS_ESTIMATED, br_source := fit 128 estimate_source,
                br_flows := map (process_flow total_rx total_tx total_sockets) (take max_bandwidth_flows groups)\<rparr>)
         else r\<lparr>br_mode := TRFX_BW_MODE_INTERFACE_FALLBACK,
                br_source := fit 128 ''interface-level fallback only''\<rparr>)"

text \<open>The return value, \<open>*report\<close> and the error buffer.\<close>

definition trfx_collect_bandwidth_report ::
  "TrfxNetworkSampleBuffer option \<Rightarrow> TrfxBandwidthReport option \<Rightarrow> string option \<Rightarrow> nat \<Rightarrow>
   TrfxCollectorStatus \<times> TrfxBandwidthReport option \<times> string option" where
  "trfx_collect_bandwidth_report buffer report error error_size =
     (let e0 = put_buf error error_size []
      in if buffer = None \<or> report = None
         then (TRFX_COLLECTOR_INVALID_ARGUMENT, report, put_buf e0 error_size ''invalid argument'')
         else (let r = trfx_init_bandwidth_report; n = trfx_network_sample_buffer_count buffer
               in if n < 2
                  then (TRFX_COLLECTOR_OK, Some (r\<lparr>br_source :=
                          fit 128 ''need at least two samples for bandwidth estimates''\<rparr>), e0)
                  else (case (trfx_network_sample_buffer_at buffer (n - 2), trfx_network_sample_buffer_at buffer (n - 1)) of
                          (Some previous, Some current) \<Rightarrow>
                            (TRFX_COLLECTOR_OK, Some (report_from_samples previous current r), e0)
                        | _ \<Rightarrow> (TRFX_COLLECTOR_OK, Some (r\<lparr>br_source := fit 128 ''sample history unavailable''\<rparr>), e0))))"

definition trend_point_of :: "TrfxNetworkSample \<Rightarrow> TrfxNetworkSample \<Rightarrow> trend_point" where
  "trend_point_of previous current =
     (let rates = rates_between previous current
      in \<lparr>tp_captured_at = sm_captured_at current, tp_rx_bytes_per_sec = sum_rate_bytes rates True,
          tp_tx_bytes_per_sec = sum_rate_bytes rates False\<rparr>)"

text \<open>Both samples of a point always exist, because the indices are below the count.\<close>

definition trfx_collect_bandwidth_trend ::
  "TrfxNetworkSampleBuffer option \<Rightarrow> TrfxBandwidthTrend option \<Rightarrow> string option \<Rightarrow> nat \<Rightarrow>
   TrfxCollectorStatus \<times> TrfxBandwidthTrend option \<times> string option" where
  "trfx_collect_bandwidth_trend buffer trend error error_size =
     (let e0 = put_buf error error_size []
      in if buffer = None \<or> trend = None
         then (TRFX_COLLECTOR_INVALID_ARGUMENT, trend, put_buf e0 error_size ''invalid argument'')
         else (let t = trfx_init_bandwidth_trend; sample_count = trfx_network_sample_buffer_count buffer
               in if sample_count < 2
                  then (TRFX_COLLECTOR_OK, Some (t\<lparr>bt_source :=
                          fit 128 ''need at least two samples for trend rendering''\<rparr>), e0)
                  else (let point_count = min (sample_count - 1) max_bandwidth_trend_points;
                            start_index = sample_count - point_count - 1;
                            points = map (\<lambda>i. trend_point_of
                                (the (trfx_network_sample_buffer_at buffer (start_index + i)))
                                (the (trfx_network_sample_buffer_at buffer (start_index + i + 1)))) [0..<point_count];
                            k = length points
                        in (TRFX_COLLECTOR_OK,
                            Some (t\<lparr>bt_points := points,
                                    bt_source := fit 128 (''recent '' @ show_nat k @ '' sample''
                                      @ (if k = 1 then [] else ''s''))\<rparr>), e0))))"

section \<open>Flows\<close>

lemma compare_flows_order: "cmp_order compare_bandwidth_flows"
proof -
  have "compare_bandwidth_flows a b \<le> 0 \<or> compare_bandwidth_flows b a \<le> 0" for a b
    using c_strcmp_swap [of "bf_label a" "bf_label b"] by (auto simp: compare_bandwidth_flows_def Let_def)
  moreover have "compare_bandwidth_flows a c \<le> 0"
    if "compare_bandwidth_flows a b \<le> 0" "compare_bandwidth_flows b c \<le> 0" for a b c
    using that c_strcmp_trans [of "bf_label a" "bf_label b" "bf_label c"]
    by (auto simp: compare_bandwidth_flows_def Let_def split: if_splits)
  ultimately show ?thesis unfolding cmp_order_def by blast
qed

text \<open>A flow may stand before another one.\<close>

definition flow_before :: "TrfxBandwidthFlow \<Rightarrow> TrfxBandwidthFlow \<Rightarrow> bool" where
  "flow_before a b \<longleftrightarrow> flow_total_bytes_per_sec b < flow_total_bytes_per_sec a
     \<or> (flow_total_bytes_per_sec a = flow_total_bytes_per_sec b \<and> c_strcmp (bf_label a) (bf_label b) \<le> 0)"

lemma sort_flows:
  "mset (br_flows (sort_bandwidth_flows r)) = mset (br_flows r)"
  "sorted_wrt flow_before (br_flows (sort_bandwidth_flows r))"
  "br_mode (sort_bandwidth_flows r) = br_mode r"
proof -
  have "sorted_wrt (\<lambda>a b. compare_bandwidth_flows a b \<le> 0) (c_qsort compare_bandwidth_flows fs)" for fs
    by (rule qs.qs_sorted) (rule compare_flows_order)
  then have s: "sorted_wrt flow_before (c_qsort compare_bandwidth_flows fs)" for fs
    by (rule sorted_wrt_mono_rel [rotated])
      (auto simp: flow_before_def compare_bandwidth_flows_def Let_def split: if_splits)
  have short: "sorted_wrt flow_before fs" if "length fs \<le> 1" for fs
    using that by (cases fs) auto
  show "mset (br_flows (sort_bandwidth_flows r)) = mset (br_flows r)"
    "sorted_wrt flow_before (br_flows (sort_bandwidth_flows r))"
    "br_mode (sort_bandwidth_flows r) = br_mode r"
    using s short by (auto simp: sort_bandwidth_flows_def qs.qs_mset)
qed

lemma socket_flows_length:
  "n \<le> 64 \<Longrightarrow> length (socket_flows n owned rx tx cs) = min (64 - n) (length (filter connection_has_owner cs))"
  by (induction n owned rx tx cs rule: socket_flows.induct) (auto simp: max_bandwidth_flows_def)

lemma socket_flows_rates:
  "f \<in> set (socket_flows n owned rx tx cs) \<Longrightarrow> bf_rx_bytes_per_sec f = rx \<and> bf_tx_bytes_per_sec f = tx"
  by (induction n owned rx tx cs rule: socket_flows.induct) (auto split: if_splits)

text \<open>The counts of the groups add up to the sockets that were counted.\<close>

definition groups_ok :: "ProcessGroup list \<times> nat \<Rightarrow> bool" where
  "groups_ok st \<longleftrightarrow> sum_list (map pg_socket_count (fst st)) = snd st \<and> length (fst st) \<le> 64
     \<and> (fst st = [] \<longleftrightarrow> snd st = 0) \<and> list_all (\<lambda>g. 0 < pg_socket_count g) (fst st)"

lemma sum_list_inc:
  "i < length gs \<Longrightarrow> sum_list (map pg_socket_count (gs[i := (gs ! i)\<lparr>pg_socket_count := pg_socket_count (gs ! i) + 1\<rparr>]))
     = Suc (sum_list (map pg_socket_count gs))"
proof (induction gs arbitrary: i)
  case (Cons g gs)
  then show ?case by (cases i) auto
qed simp

lemma group_step_ok:
  assumes "groups_ok st"
  shows "groups_ok (group_step st owner)"
proof (cases "find_process_group (fst st) owner")
  case None
  with assms show ?thesis
    by (cases st) (auto simp: group_step_def groups_ok_def max_bandwidth_flows_def)
next
  case (Some i)
  then have "i < length (fst st)" unfolding find_process_group_def by (blast dest: find_index_Some)
  moreover have "list_all (\<lambda>g. 0 < pg_socket_count g) ((fst st)[i := (fst st ! i)\<lparr>pg_socket_count := n + 1\<rparr>])" for n
    using assms by (auto simp: groups_ok_def list_all_iff dest!: set_update_subset_insert [THEN subsetD])
  ultimately show ?thesis
    using assms Some sum_list_inc [of i "fst st"]
    by (cases st) (auto simp: group_step_def groups_ok_def)
qed

lemma groups_fold_ok: "groups_ok (foldl group_step ([], 0) owners)"
  by (rule foldl_invariant) (simp_all add: groups_ok_def [of "([], 0)"] group_step_ok)

lemma groups_fold_nonempty: "owners \<noteq> [] \<Longrightarrow> 0 < snd (foldl group_step ([], 0) owners)"
proof -
  assume "owners \<noteq> []"
  have mono: "snd st \<le> snd (foldl group_step st os)" for st and os
  proof (induction os arbitrary: st)
    case (Cons o' os)
    have "snd st \<le> snd (group_step st o')" by (cases st) (auto simp: group_step_def split: option.splits)
    then show ?case using Cons [of "group_step st o'"] by simp
  qed simp
  obtain o' os where "owners = o' # os" using \<open>owners \<noteq> []\<close> by (cases owners) auto
  moreover have "snd (group_step ([], 0) o') = 1"
    by (simp add: group_step_def find_process_group_def max_bandwidth_flows_def)
  ultimately show ?thesis using mono [of "group_step ([], 0) o'" os] by simp
qed

section \<open>The report and the trend\<close>

lemma rates_between_length: "length (rates_between p c) \<le> 20"
  by (simp add: rates_between_def trfx_calculate_interface_rates_def trfx_max_interfaces_def Let_def)

lemma lastn_12_last: "lastn 12 (ys @ [p, c]) ! (min 12 (Suc (Suc (length ys))) - 2) = p"
  "lastn 12 (ys @ [p, c]) ! (min 12 (Suc (Suc (length ys))) - 1) = c"
proof -
  have l: "lastn 12 (ys @ [p, c]) = lastn 10 ys @ [p, c]"
    using lastn_snoc [of 12 "ys @ [p]" c] lastn_snoc [of 11 ys p] by simp
  have n: "min 12 (Suc (Suc (length ys))) = Suc (Suc (length (lastn 10 ys)))" by simp
  have "(zs @ [p, c]) ! (Suc (Suc (length zs)) - 2) = p" "(zs @ [p, c]) ! (Suc (Suc (length zs)) - 1) = c" for zs
    by (simp_all add: nth_append)
  then show "lastn 12 (ys @ [p, c]) ! (min 12 (Suc (Suc (length ys))) - 2) = p"
    "lastn 12 (ys @ [p, c]) ! (min 12 (Suc (Suc (length ys))) - 1) = c"
    unfolding l n by blast+
qed

lemma report_of_samples:
  "trfx_collect_bandwidth_report (Some (sampled (ys @ [p, c]))) (Some r0) err n
     = (TRFX_COLLECTOR_OK, Some (report_from_samples p c trfx_init_bandwidth_report), put_buf err n [])"
proof -
  have "\<not> min 12 (Suc (Suc (length ys))) < 2" "min 12 (Suc (Suc (length ys))) - 2 < min 12 (Suc (Suc (length ys)))"
    "min 12 (Suc (Suc (length ys))) - 1 < min 12 (Suc (Suc (length ys)))" by simp_all
  then show ?thesis
    using sampled_count [of "ys @ [p, c]"] sampled_at [of "ys @ [p, c]"] lastn_12_last [of ys p c]
    by (simp add: trfx_collect_bandwidth_report_def Let_def)
qed

text \<open>The three modes of the report of two samples.\<close>

lemma socket_report:
  assumes "owned = length (filter connection_has_owner (sn_connections (sm_snapshot c)))" and "0 < owned"
    and "r = report_from_samples p c trfx_init_bandwidth_report"
  shows "br_mode r = TRFX_BW_MODE_SOCKET_ESTIMATED" "sorted_wrt flow_before (br_flows r)" "length (br_flows r) = min 64 owned"
    and "list_all (\<lambda>f. bf_rx_bytes_per_sec f = dbl (sum_interface_rate (rates_between p c) True / of_nat owned)
      \<and> bf_tx_bytes_per_sec f = dbl (sum_interface_rate (rates_between p c) False / of_nat owned)) (br_flows r)"
proof -
  let ?rx = "dbl (sum_interface_rate (rates_between p c) True / of_nat owned)"
  let ?tx = "dbl (sum_interface_rate (rates_between p c) False / of_nat owned)"
  obtain groups k where g: "foldl group_step ([], 0) (sn_socket_owners (sm_snapshot c)) = (groups, k)" by fastforce
  define fs where "fs = socket_flows 0 owned ?rx ?tx (sn_connections (sm_snapshot c))"
  define x where "x = (copy_rate_interfaces (rates_between p c) trfx_init_bandwidth_report)
     \<lparr>br_mode := TRFX_BW_MODE_SOCKET_ESTIMATED, br_source := fit 128 estimate_source, br_flows := fs\<rparr>"
  have rx: "r = sort_bandwidth_flows x"
    using assms by (simp add: report_from_samples_def g Let_def x_def fs_def)
  then show "br_mode r = TRFX_BW_MODE_SOCKET_ESTIMATED" "sorted_wrt flow_before (br_flows r)"
    using sort_flows(2,3) [of x] by (simp_all add: x_def)
  have m: "mset (br_flows r) = mset fs" using sort_flows(1) [of x] rx by (simp add: x_def)
  then have "length (br_flows r) = length fs" by (metis size_mset)
  then show "length (br_flows r) = min 64 owned" by (simp add: fs_def socket_flows_length assms(1))
  have "bf_rx_bytes_per_sec f = ?rx \<and> bf_tx_bytes_per_sec f = ?tx" if "f \<in> set fs" for f
    using that unfolding fs_def by (rule socket_flows_rates)
  then show "list_all (\<lambda>f. bf_rx_bytes_per_sec f = ?rx \<and> bf_tx_bytes_per_sec f = ?tx) (br_flows r)"
    using mset_eq_setD [OF m] by (simp add: list_all_iff)
qed

lemma process_report:
  assumes "filter connection_has_owner (sn_connections (sm_snapshot c)) = []" and "sn_socket_owners (sm_snapshot c) \<noteq> []"
    and "r = report_from_samples p c trfx_init_bandwidth_report"
  shows "br_mode r = TRFX_BW_MODE_PROCESS_ESTIMATED" "sorted_wrt flow_before (br_flows r)" "length (br_flows r) \<le> 64"
proof -
  let ?rates = "rates_between p c" and ?owners = "sn_socket_owners (sm_snapshot c)"
  obtain groups k where g: "foldl group_step ([], 0) ?owners = (groups, k)" by fastforce
  have k: "0 < k" "groups_ok (groups, k)" using groups_fold_nonempty [of ?owners] groups_fold_ok [of ?owners] assms(2) g by simp_all
  then have "groups \<noteq> []" by (auto simp: groups_ok_def)
  define fs where "fs = map (process_flow (sum_interface_rate ?rates True) (sum_interface_rate ?rates False) k)
     (take max_bandwidth_flows groups)"
  define x where "x = (copy_rate_interfaces ?rates trfx_init_bandwidth_report)
     \<lparr>br_mode := TRFX_BW_MODE_PROCESS_ESTIMATED, br_source := fit 128 estimate_source, br_flows := fs\<rparr>"
  have rx: "r = sort_bandwidth_flows x"
    using assms k \<open>groups \<noteq> []\<close> by (simp add: report_from_samples_def g Let_def x_def fs_def)
  then show "br_mode r = TRFX_BW_MODE_PROCESS_ESTIMATED" "sorted_wrt flow_before (br_flows r)"
    using sort_flows(2,3) [of x] by (simp_all add: x_def)
  have "mset (br_flows r) = mset fs" using sort_flows(1) [of x] rx by (simp add: x_def)
  then have "length (br_flows r) = length fs" by (metis size_mset)
  then show "length (br_flows r) \<le> 64" by (simp add: fs_def max_bandwidth_flows_def)
qed

lemma fallback_report:
  assumes "filter connection_has_owner (sn_connections (sm_snapshot c)) = []" and "sn_socket_owners (sm_snapshot c) = []"
    and "r = report_from_samples p c trfx_init_bandwidth_report"
  shows "br_mode r = TRFX_BW_MODE_INTERFACE_FALLBACK" "br_flows r = []"
  using assms by (simp_all add: report_from_samples_def Let_def copy_rate_interfaces_def trfx_init_bandwidth_report_def)

lemma report_interface_rates:
  "br_interface_rates (report_from_samples p c trfx_init_bandwidth_report) = rates_between p c"
proof -
  obtain groups k where g: "foldl group_step ([], 0) (sn_socket_owners (sm_snapshot c)) = (groups, k)" by fastforce
  have "br_interface_rates (sort_bandwidth_flows x) = br_interface_rates x" for x by (simp add: sort_bandwidth_flows_def)
  then show ?thesis
    using rates_between_length [of p c]
    by (simp add: report_from_samples_def g copy_rate_interfaces_def trfx_max_interfaces_def Let_def)
qed

text \<open>C14. From two samples on, the report is made of the last two: it lists the interface rates between them,
  its mode is \<open>socket estimated\<close> if some connection has an owner, else \<open>process estimated\<close> if some socket owner
  is known, else the interface fallback, and its flows, at most 64, are ordered by their total rate,
  largest first, and by label. In socket mode each listed flow gets the same share, the total rate
  divided by the number of all owned connections.\<close>

theorem bandwidth_report_modes:
  "\<exists>r. trfx_collect_bandwidth_report (Some (fold sample_push (ys @ [p, c]) trfx_init_network_sample_buffer)) (Some r0) err n
         = (TRFX_COLLECTOR_OK, Some r, put_buf err n [])
     \<and> br_mode r = (if list_ex connection_has_owner (sn_connections (sm_snapshot c)) then TRFX_BW_MODE_SOCKET_ESTIMATED
                     else if sn_socket_owners (sm_snapshot c) \<noteq> [] then TRFX_BW_MODE_PROCESS_ESTIMATED
                     else TRFX_BW_MODE_INTERFACE_FALLBACK)
     \<and> br_interface_rates r = rates_between p c
     \<and> sorted_wrt flow_before (br_flows r) \<and> length (br_flows r) \<le> 64
     \<and> (if br_mode r = TRFX_BW_MODE_SOCKET_ESTIMATED
        then (let owned = length (filter connection_has_owner (sn_connections (sm_snapshot c)))
              in length (br_flows r) = min 64 owned
                 \<and> list_all (\<lambda>f. bf_rx_bytes_per_sec f = dbl (sum_interface_rate (rates_between p c) True / of_nat owned)
                      \<and> bf_tx_bytes_per_sec f = dbl (sum_interface_rate (rates_between p c) False / of_nat owned)) (br_flows r))
        else True)"
proof -
  let ?conns = "sn_connections (sm_snapshot c)" and ?owners = "sn_socket_owners (sm_snapshot c)"
  define r where "r = report_from_samples p c trfx_init_bandwidth_report"
  have owned: "list_ex connection_has_owner ?conns \<longleftrightarrow> filter connection_has_owner ?conns \<noteq> []"
    by (auto simp: list_ex_iff filter_empty_conv)
  have rates: "br_interface_rates r = rates_between p c" unfolding r_def by (rule report_interface_rates)
  have run: "trfx_collect_bandwidth_report (Some (fold sample_push (ys @ [p, c]) trfx_init_network_sample_buffer)) (Some r0) err n
      = (TRFX_COLLECTOR_OK, Some r, put_buf err n [])"
    by (simp add: report_of_samples r_def [symmetric] Let_def del: fold_append fold_Cons fold_simps)
  consider (socket) "filter connection_has_owner ?conns \<noteq> []"
    | (process) "filter connection_has_owner ?conns = []" "?owners \<noteq> []"
    | (fallback) "filter connection_has_owner ?conns = []" "?owners = []" by blast
  then show ?thesis
  proof cases
    case socket
    then have "0 < length (filter connection_has_owner ?conns)" by simp
    then show ?thesis
      using run rates owned socket socket_report [OF refl _ r_def] by (intro exI [of _ r]) (simp add: Let_def)
  next
    case process
    then show ?thesis
      using run rates owned process_report [OF _ _ r_def] by (intro exI [of _ r]) simp
  next
    case fallback
    then show ?thesis
      using run rates owned fallback_report [OF _ _ r_def] by (intro exI [of _ r]) simp
  qed
qed

text \<open>The trend shows the most recent intervals: it has one point for each of the last four pairs of
  neighbouring samples (fewer when fewer samples are kept), oldest first, each stamped with the time of
  its later sample and summing the rates between the two.\<close>

lemma bandwidth_trend_window:
  "\<exists>t. trfx_collect_bandwidth_trend (Some (fold sample_push xs trfx_init_network_sample_buffer)) (Some t0) err n
         = (TRFX_COLLECTOR_OK, Some t, put_buf err n [])
     \<and> length (bt_points t) = min 4 (length xs - 1)
     \<and> map tp_captured_at (bt_points t) = map sm_captured_at (lastn (min 4 (length xs - 1)) xs)
     \<and> bt_points t = map2 trend_point_of (butlast (lastn (Suc (min 4 (length xs - 1))) xs))
                          (tl (lastn (Suc (min 4 (length xs - 1))) xs))"
proof (cases "length xs < 2")
  case True
  then have "xs = [] \<or> (\<exists>x. xs = [x])" by (cases xs) auto
  moreover have "trfx_collect_bandwidth_trend (Some (sampled xs)) (Some t0) err n
      = (TRFX_COLLECTOR_OK, Some (trfx_init_bandwidth_trend\<lparr>bt_source :=
           fit 128 ''need at least two samples for trend rendering''\<rparr>), put_buf err n [])"
    using True sampled_count [of xs] by (simp add: trfx_collect_bandwidth_trend_def Let_def)
  ultimately show ?thesis by (auto simp: trfx_init_bandwidth_trend_def lastn_def)
next
  case False
  define m where "m = min 12 (length xs)"
  define k where "k = min (m - 1) 4"
  define W where "W = lastn 12 xs"
  have m: "length W = m" "2 \<le> m" using False by (auto simp: W_def m_def)
  have k: "k = min 4 (length xs - 1)" "Suc k \<le> m" "0 < k" using False by (auto simp: k_def m_def)
  define P where "P = map (\<lambda>i. trend_point_of (W ! (m - k - 1 + i)) (W ! (m - k - 1 + i + 1))) [0..<k]"
  have idx: "m - k - 1 + i < m" "m - k - 1 + i + 1 < m" if "i < k" for i using that k(2) by linarith+
  have pts: "map (\<lambda>i. trend_point_of (the (trfx_network_sample_buffer_at (Some (sampled xs)) (m - k - 1 + i)))
      (the (trfx_network_sample_buffer_at (Some (sampled xs)) (m - k - 1 + i + 1)))) [0..<k] = P"
    unfolding P_def sampled_at m_def [symmetric] W_def [symmetric] using idx by (intro map_cong) simp_all
  have kk: "min (m - 1) max_bandwidth_trend_points = k" by (simp add: k_def max_bandwidth_trend_points_def)
  have "trfx_collect_bandwidth_trend (Some (sampled xs)) (Some t0) err n
      = (TRFX_COLLECTOR_OK, Some (trfx_init_bandwidth_trend\<lparr>bt_points := P,
           bt_source := fit 128 (''recent '' @ show_nat (length P) @ '' sample'' @ (if length P = 1 then [] else ''s''))\<rparr>),
         put_buf err n [])"
    unfolding trfx_collect_bandwidth_trend_def Let_def sampled_count m_def [symmetric] kk pts using m(2) by simp
  then have col: "\<exists>t. trfx_collect_bandwidth_trend (Some (sampled xs)) (Some t0) err n
      = (TRFX_COLLECTOR_OK, Some t, put_buf err n []) \<and> bt_points t = P" by simp
  define L where "L = lastn (Suc k) xs"
  have L: "length L = Suc k" using k(1) False by (simp add: L_def)
  have LW: "L ! i = W ! (m - k - 1 + i)" if "i \<le> k" for i
  proof -
    have "L = lastn (Suc k) W" using k(2) by (simp add: L_def W_def lastn_lastn m_def)
    then show ?thesis using that m(1) k(2) by (simp add: lastn_def)
  qed
  have P: "P = map2 trend_point_of (butlast L) (tl L)"
    using L LW by (intro nth_equalityI) (auto simp: P_def nth_butlast nth_tl)
  have "map tp_captured_at P = map sm_captured_at (tl L)"
    using L by (intro nth_equalityI) (auto simp: P trend_point_of_def Let_def)
  moreover have "tl L = lastn k xs" using k(1) False by (simp add: L_def tl_lastn)
  moreover have "length P = k" by (simp add: P_def)
  ultimately show ?thesis using col P L_def k(1) by auto
qed

end
