(* ===== verification/Actions.thy ===== *)
theory Actions
  imports Connections History
begin

text \<open>
  \<open>src/trfx_actions.c\<close>: requests to kill a process or to drop a connection or socket, their review,
  their execution and the audit trail. The system calls are parameters of the model: \<open>kill\<close> yields an
  \<open>errno\<close> (0 for success), the \<open>ss\<close> command an outcome, and the calls that were made are recorded as a
  list of effects.
\<close>

datatype TrfxActionPermissionStatus =
    TRFX_ACTION_PERMISSION_UNKNOWN | TRFX_ACTION_PERMISSION_ALLOWED
  | TRFX_ACTION_PERMISSION_DENIED | TRFX_ACTION_PERMISSION_UNSUPPORTED

datatype TrfxActionKind =
    TRFX_ACTION_KIND_NONE | TRFX_ACTION_KIND_KILL_PROCESS
  | TRFX_ACTION_KIND_DROP_CONNECTION | TRFX_ACTION_KIND_DROP_SOCKET

datatype TrfxActionTargetKind =
    TRFX_ACTION_TARGET_NONE | TRFX_ACTION_TARGET_PROCESS
  | TRFX_ACTION_TARGET_CONNECTION | TRFX_ACTION_TARGET_SOCKET

datatype TrfxActionResultStatus =
    TRFX_ACTION_RESULT_OK | TRFX_ACTION_RESULT_CANCELLED | TRFX_ACTION_RESULT_PERMISSION_DENIED
  | TRFX_ACTION_RESULT_UNSUPPORTED | TRFX_ACTION_RESULT_INVALID | TRFX_ACTION_RESULT_NOT_FOUND
  | TRFX_ACTION_RESULT_FAILED

record TrfxActionTarget =
  at_kind :: TrfxActionTargetKind
  at_pid :: string
  at_process :: string
  at_protocol :: string
  at_local :: string
  at_remote :: string
  at_inode :: string

record TrfxActionRequest =
  ar_kind :: TrfxActionKind
  ar_target :: TrfxActionTarget
  ar_requires_confirmation :: int
  ar_requires_permission_check :: int
  ar_label :: string
  ar_description :: string

record TrfxActionReview =
  av_request :: TrfxActionRequest
  av_permission :: TrfxActionPermissionStatus
  av_can_execute :: int
  av_requires_confirmation :: int
  av_prompt :: string
  av_details :: string

record TrfxActionResult =
  as_request :: TrfxActionRequest
  as_status :: TrfxActionResultStatus
  as_system_errno :: int
  as_message :: string

record TrfxActionAuditEntry =
  aa_when :: int
  aa_request :: TrfxActionRequest
  aa_status :: TrfxActionResultStatus
  aa_message :: string

section \<open>Texts\<close>

definition set_string :: "nat \<Rightarrow> string option \<Rightarrow> string" where
  "set_string dest_size value = (case value of None \<Rightarrow> fit dest_size ''-''
     | Some v \<Rightarrow> if v = [] then fit dest_size ''-'' else fit dest_size v)"

definition parse_pid_value :: "string option \<Rightarrow> int option" where
  "parse_pid_value pid =
     (case pid of None \<Rightarrow> None
      | Some p \<Rightarrow>
          if p = [] then None
          else (case c_strtol p of (parsed, endp, erange) \<Rightarrow>
                  if erange \<or> endp \<noteq> [] \<or> parsed \<le> 0 then None else Some (to_int32 parsed)))"

definition uid_line :: "string \<Rightarrow> u32 option" where
  "uid_line line = (case c_sscanf (sc_lits ''Uid:'' @ [ScUInt]) line of
                      [ScNum v] \<Rightarrow> Some (word_of_int v) | _ \<Rightarrow> None)"

fun first_uid :: "string list \<Rightarrow> u32 option" where
  "first_uid [] = None"
| "first_uid (l # ls) = (case uid_line l of Some u \<Rightarrow> Some u | None \<Rightarrow> first_uid ls)"

definition lookup_process_uid_file :: "string \<Rightarrow> u32 option" where
  "lookup_process_uid_file content = first_uid (c_lines 256 content)"

text \<open>\<open>None\<close> is the return value 0; the caller does not use the buffers then.\<close>

definition split_endpoint :: "string \<Rightarrow> nat \<Rightarrow> nat \<Rightarrow> (string \<times> string) option" where
  "split_endpoint endpoint host_size port_size =
     (if host_size = 0 \<or> port_size = 0 then None
      else if endpoint \<noteq> [] \<and> hd endpoint = CHR ''[''
      then (case split_first (CHR '']'') endpoint of
              None \<Rightarrow> None
            | Some (before, after) \<Rightarrow>
                if after = [] \<or> hd after \<noteq> CHR '':'' then None
                else (let host = tl before; port = fit port_size (tl after)
                      in if host = [] \<or> host_size \<le> length host then None
                         else if port = [] then None else Some (host, port)))
      else (case split_last (CHR '':'') endpoint of
              None \<Rightarrow> None
            | Some (host, after) \<Rightarrow>
                if host = [] \<or> host_size \<le> length host then None
                else (let port = fit port_size after
                      in if port = [] then None else Some (host, port))))"

definition trfx_action_kind_name :: "TrfxActionKind \<Rightarrow> string" where
  "trfx_action_kind_name k = (case k of
     TRFX_ACTION_KIND_KILL_PROCESS \<Rightarrow> ''kill process''
   | TRFX_ACTION_KIND_DROP_CONNECTION \<Rightarrow> ''drop connection''
   | TRFX_ACTION_KIND_DROP_SOCKET \<Rightarrow> ''drop socket''
   | TRFX_ACTION_KIND_NONE \<Rightarrow> ''none'')"

definition trfx_action_target_kind_name :: "TrfxActionTargetKind \<Rightarrow> string" where
  "trfx_action_target_kind_name k = (case k of
     TRFX_ACTION_TARGET_PROCESS \<Rightarrow> ''process''
   | TRFX_ACTION_TARGET_CONNECTION \<Rightarrow> ''connection''
   | TRFX_ACTION_TARGET_SOCKET \<Rightarrow> ''socket''
   | TRFX_ACTION_TARGET_NONE \<Rightarrow> ''none'')"

definition trfx_action_permission_status_name :: "TrfxActionPermissionStatus \<Rightarrow> string" where
  "trfx_action_permission_status_name s = (case s of
     TRFX_ACTION_PERMISSION_ALLOWED \<Rightarrow> ''allowed''
   | TRFX_ACTION_PERMISSION_DENIED \<Rightarrow> ''permission denied''
   | TRFX_ACTION_PERMISSION_UNSUPPORTED \<Rightarrow> ''unsupported''
   | TRFX_ACTION_PERMISSION_UNKNOWN \<Rightarrow> ''unknown'')"

definition trfx_action_result_status_name :: "TrfxActionResultStatus \<Rightarrow> string" where
  "trfx_action_result_status_name s = (case s of
     TRFX_ACTION_RESULT_OK \<Rightarrow> ''ok''
   | TRFX_ACTION_RESULT_CANCELLED \<Rightarrow> ''cancelled''
   | TRFX_ACTION_RESULT_PERMISSION_DENIED \<Rightarrow> ''permission denied''
   | TRFX_ACTION_RESULT_UNSUPPORTED \<Rightarrow> ''unsupported''
   | TRFX_ACTION_RESULT_NOT_FOUND \<Rightarrow> ''not found''
   | TRFX_ACTION_RESULT_FAILED \<Rightarrow> ''failed''
   | TRFX_ACTION_RESULT_INVALID \<Rightarrow> ''invalid'')"

section \<open>Requests and reviews\<close>

definition empty_action_target :: TrfxActionTarget where
  "empty_action_target = \<lparr>at_kind = TRFX_ACTION_TARGET_NONE, at_pid = [], at_process = [], at_protocol = [],
     at_local = [], at_remote = [], at_inode = []\<rparr>"

definition trfx_init_action_request :: TrfxActionRequest where
  "trfx_init_action_request = \<lparr>ar_kind = TRFX_ACTION_KIND_NONE, ar_target = empty_action_target,
     ar_requires_confirmation = 1, ar_requires_permission_check = 1,
     ar_label = fit 128 ''no action'', ar_description = fit 256 ''no action selected''\<rparr>"

text \<open>The request that \<open>memset\<close> leaves in a review or a result.\<close>

definition zero_action_request :: TrfxActionRequest where
  "zero_action_request = \<lparr>ar_kind = TRFX_ACTION_KIND_NONE, ar_target = empty_action_target,
     ar_requires_confirmation = 0, ar_requires_permission_check = 0, ar_label = [], ar_description = []\<rparr>"

definition trfx_init_action_review :: TrfxActionReview where
  "trfx_init_action_review = \<lparr>av_request = zero_action_request,
     av_permission = TRFX_ACTION_PERMISSION_UNKNOWN, av_can_execute = 0, av_requires_confirmation = 0,
     av_prompt = fit 256 ''no action selected'', av_details = fit 256 ''no action selected''\<rparr>"

definition trfx_init_action_result :: TrfxActionResult where
  "trfx_init_action_result = \<lparr>as_request = zero_action_request, as_status = TRFX_ACTION_RESULT_INVALID,
     as_system_errno = 0, as_message = fit 256 ''no action selected''\<rparr>"

definition trfx_action_request_set_process_kill :: "string option \<Rightarrow> string option \<Rightarrow> TrfxActionRequest" where
  "trfx_action_request_set_process_kill pid process =
     (let t = empty_action_target\<lparr>at_kind := TRFX_ACTION_TARGET_PROCESS,
                at_pid := set_string 16 pid, at_process := set_string 64 process\<rparr>
      in trfx_init_action_request\<lparr>ar_kind := TRFX_ACTION_KIND_KILL_PROCESS, ar_target := t,
           ar_label := fit 128 (''kill process '' @ at_pid t),
           ar_description := fit 256 (''kill process '' @ at_pid t @ '' ('' @ at_process t @ '')'')\<rparr>)"

definition trfx_action_request_set_connection_drop :: "ConnectionInfo option \<Rightarrow> TrfxActionRequest" where
  "trfx_action_request_set_connection_drop connection =
     (let r = trfx_init_action_request\<lparr>ar_kind := TRFX_ACTION_KIND_DROP_CONNECTION,
                ar_target := empty_action_target\<lparr>at_kind := TRFX_ACTION_TARGET_CONNECTION\<rparr>\<rparr>
      in case connection of
           Some c \<Rightarrow>
             (let t = empty_action_target\<lparr>at_kind := TRFX_ACTION_TARGET_CONNECTION,
                        at_protocol := set_string 8 (Some (ci_protocol c)),
                        at_local := set_string 64 (Some (ci_local_addr c)),
                        at_remote := set_string 64 (Some (ci_remote_addr c)),
                        at_pid := set_string 16 (Some (ci_pid c)),
                        at_process := set_string 64 (Some (ci_process c)),
                        at_inode := set_string 16 (Some ''-'')\<rparr>
              in r\<lparr>ar_target := t,
                   ar_label := fit 128 (''drop connection '' @ at_remote t),
                   ar_description := fit 256 (''drop '' @ at_protocol t @ '' '' @ at_local t @ '' -> ''
                     @ at_remote t @ '' ('' @ at_pid t @ ''/'' @ at_process t @ '')'')\<rparr>)
         | None \<Rightarrow> r\<lparr>ar_label := fit 128 ''drop connection'',
                      ar_description := fit 256 ''drop selected connection''\<rparr>)"

definition trfx_action_request_set_socket_drop :: "SocketOwnerInfo option \<Rightarrow> TrfxActionRequest" where
  "trfx_action_request_set_socket_drop socket_owner =
     (let r = trfx_init_action_request\<lparr>ar_kind := TRFX_ACTION_KIND_DROP_SOCKET,
                ar_target := empty_action_target\<lparr>at_kind := TRFX_ACTION_TARGET_SOCKET\<rparr>\<rparr>
      in case socket_owner of
           Some s \<Rightarrow>
             (let t = empty_action_target\<lparr>at_kind := TRFX_ACTION_TARGET_SOCKET,
                        at_protocol := set_string 8 (Some (so_proto s)),
                        at_local := set_string 64 (Some (so_laddr s)),
                        at_remote := set_string 64 (Some (so_raddr s)),
                        at_pid := set_string 16 (Some (so_pid s)),
                        at_process := set_string 64 (Some (so_process s))\<rparr>
              in r\<lparr>ar_target := t,
                   ar_label := fit 128 (''drop socket '' @ at_local t),
                   ar_description := fit 256 (''drop '' @ at_protocol t @ '' socket '' @ at_local t @ '' -> ''
                     @ at_remote t @ '' ('' @ at_pid t @ ''/'' @ at_process t @ '')'')\<rparr>)
         | None \<Rightarrow> r\<lparr>ar_label := fit 128 ''drop socket'',
                      ar_description := fit 256 ''drop selected socket''\<rparr>)"

definition trfx_prepare_action_review ::
  "TrfxActionRequest option \<Rightarrow> u32 \<Rightarrow> u32 \<Rightarrow> int \<Rightarrow> TrfxActionReview" where
  "trfx_prepare_action_review request effective_uid target_uid supported =
     (case request of None \<Rightarrow> trfx_init_action_review
      | Some rq \<Rightarrow>
          (let v = trfx_init_action_review\<lparr>av_request := rq,
                     av_requires_confirmation := ar_requires_confirmation rq,
                     av_details := fit 256 (ar_description rq)\<rparr>
           in if supported = 0
              then v\<lparr>av_permission := TRFX_ACTION_PERMISSION_UNSUPPORTED, av_can_execute := 0,
                     av_prompt := fit 256 (trfx_action_kind_name (ar_kind rq) @ '' is not supported on this system'')\<rparr>
              else if ar_requires_permission_check rq \<noteq> 0 \<and> effective_uid \<noteq> 0 \<and> effective_uid \<noteq> target_uid
              then v\<lparr>av_permission := TRFX_ACTION_PERMISSION_DENIED, av_can_execute := 0,
                     av_prompt := fit 256 (''permission denied: requires root or uid '' @ show_u32 target_uid)\<rparr>
              else v\<lparr>av_permission := TRFX_ACTION_PERMISSION_ALLOWED, av_can_execute := 1,
                     av_prompt := fit 256 (''confirm '' @ take 240 (ar_description rq) @ ''?'')\<rparr>))"

section \<open>The audit trail\<close>

record audit_log =
  au_entries :: "TrfxActionAuditEntry list"
  au_count :: nat
  au_next :: nat

definition audit_max :: nat where "audit_max = 8"

definition zero_audit_entry :: TrfxActionAuditEntry where
  "zero_audit_entry = \<lparr>aa_when = 0, aa_request = zero_action_request, aa_status = TRFX_ACTION_RESULT_OK,
     aa_message = []\<rparr>"

definition audit_start :: audit_log where
  "audit_start = \<lparr>au_entries = replicate audit_max zero_audit_entry, au_count = 0, au_next = 0\<rparr>"

definition audit_entry_of :: "int \<Rightarrow> TrfxActionRequest option \<Rightarrow> TrfxActionResult option \<Rightarrow> TrfxActionAuditEntry" where
  "audit_entry_of now request result =
     (let rq = (case request of Some r \<Rightarrow> r | None \<Rightarrow> trfx_init_action_request)
      in case result of
           Some r \<Rightarrow> \<lparr>aa_when = now, aa_request = rq, aa_status = as_status r,
                      aa_message = (if as_message r \<noteq> [] then fit 256 (as_message r)
                                    else fit 256 (trfx_action_result_status_name (as_status r)))\<rparr>
         | None \<Rightarrow> \<lparr>aa_when = now, aa_request = rq, aa_status = TRFX_ACTION_RESULT_INVALID,
                    aa_message = fit 256 ''no result available''\<rparr>)"

definition audit_push :: "TrfxActionAuditEntry \<Rightarrow> audit_log \<Rightarrow> audit_log" where
  "audit_push entry au =
     au\<lparr>au_entries := (au_entries au)[au_next au := entry],
        au_next := (au_next au + 1) mod audit_max,
        au_count := (if au_count au < audit_max then au_count au + 1 else au_count au)\<rparr>"

definition trfx_record_action_audit ::
  "int \<Rightarrow> TrfxActionRequest option \<Rightarrow> TrfxActionResult option \<Rightarrow> audit_log \<Rightarrow> audit_log" where
  "trfx_record_action_audit now request result au = audit_push (audit_entry_of now request result) au"

definition trfx_action_audit_count :: "audit_log \<Rightarrow> nat" where
  "trfx_action_audit_count au = au_count au"

definition trfx_action_audit_at :: "audit_log \<Rightarrow> nat \<Rightarrow> TrfxActionAuditEntry option" where
  "trfx_action_audit_at au index =
     (if index < au_count au
      then Some (au_entries au ! ((au_next au + audit_max - 1 - index) mod audit_max)) else None)"

section \<open>Execution\<close>

datatype ss_outcome = SsForkFailed int | SsWaitFailed int | SsExited int | SsSignalled

datatype action_effect = EffKill int int | EffRun "string list"

record action_env =
  ae_os :: os_view
  ae_kill :: "int \<Rightarrow> int \<Rightarrow> int"
  ae_ss :: "string list \<Rightarrow> ss_outcome"
  ae_strerror :: "int \<Rightarrow> string"
  ae_now :: int

definition errno_eperm :: int where "errno_eperm = 1"
definition errno_esrch :: int where "errno_esrch = 3"
definition sigterm :: int where "sigterm = 15"

definition ss_argv :: "TrfxActionTarget \<Rightarrow> string \<times> string \<Rightarrow> string \<times> string \<Rightarrow> string list" where
  "ss_argv t l r =
     [''ss'', ''-K'', if at_protocol t = ''UDP'' then ''udp'' else ''tcp'']
     @ (if fst l \<noteq> [] \<and> snd l \<noteq> [] then [''src'', fst l, ''sport'', snd l] else [])
     @ (if fst r \<noteq> [] \<and> snd r \<noteq> [] then [''dst'', fst r, ''dport'', snd r] else [])"

definition run_ss_drop_action ::
  "action_env \<Rightarrow> TrfxActionRequest \<Rightarrow> string option \<Rightarrow> nat \<Rightarrow> bool \<times> string option \<times> action_effect list" where
  "run_ss_drop_action env request error error_size =
     (let e0 = put_buf error error_size []; t = ar_target request
      in case (split_endpoint (at_local t) 64 8, split_endpoint (at_remote t) 64 8) of
           (Some l, Some r) \<Rightarrow>
             (let argv = ss_argv t l r
              in case ae_ss env argv of
                   SsForkFailed e \<Rightarrow> (False, put_buf e0 error_size (''failed to launch ss: '' @ ae_strerror env e), [])
                 | SsWaitFailed e \<Rightarrow>
                     (False, put_buf e0 error_size (''failed to wait for ss: '' @ ae_strerror env e), [EffRun argv])
                 | SsExited st \<Rightarrow>
                     if st = 0 then (True, e0, [EffRun argv])
                     else if st = 127 then (False, put_buf e0 error_size ''ss is not installed'', [EffRun argv])
                     else (False, put_buf e0 error_size ''ss could not drop the selected target'', [EffRun argv])
                 | SsSignalled \<Rightarrow>
                     (False, put_buf e0 error_size ''ss could not drop the selected target'', [EffRun argv]))
         | _ \<Rightarrow> (False, put_buf e0 error_size ''connection endpoints unavailable'', []))"

definition trfx_lookup_process_uid ::
  "os_view \<Rightarrow> string option \<Rightarrow> string option \<Rightarrow> nat \<Rightarrow> u32 option \<times> string option" where
  "trfx_lookup_process_uid os pid error error_size =
     (let e0 = put_buf error error_size []
      in case pid of
           None \<Rightarrow> (None, put_buf e0 error_size ''invalid argument'')
         | Some p \<Rightarrow>
             (case os_file os (fit 256 (''/proc/'' @ p @ ''/status'')) of
                None \<Rightarrow> (None, put_buf e0 error_size (''process '' @ p @ '' not found''))
              | Some content \<Rightarrow>
                  (case lookup_process_uid_file content of
                     None \<Rightarrow> (None, put_buf e0 error_size (''uid unavailable for process '' @ p))
                   | Some uid \<Rightarrow> (Some uid, e0))))"

text \<open>The return value, the \<open>process\<close> buffer and the error buffer.\<close>

definition trfx_lookup_process_name ::
  "os_view \<Rightarrow> string option \<Rightarrow> string option \<Rightarrow> nat \<Rightarrow> string option \<Rightarrow> nat \<Rightarrow> bool \<times> string option \<times> string option" where
  "trfx_lookup_process_name os pid process process_size error error_size =
     (let e0 = put_buf error error_size []
      in if pid = None \<or> process = None \<or> process_size = 0
         then (False, process, put_buf e0 error_size ''invalid argument'')
         else (let p = the pid
               in case os_file os (fit 256 (''/proc/'' @ p @ ''/comm'')) of
                    None \<Rightarrow> (False, process, put_buf e0 error_size (''process '' @ p @ '' not found''))
                  | Some content \<Rightarrow>
                      (case c_fgets process_size content of
                         None \<Rightarrow> (False, process, put_buf e0 error_size (''process name unavailable for '' @ p))
                       | Some (l, _) \<Rightarrow>
                           (let name = cut_nl l
                            in (True, Some (if name = [] then fit process_size ''-'' else name), e0)))))"

definition finalize_action_result ::
  "int \<Rightarrow> TrfxActionRequest option \<Rightarrow> TrfxActionResult \<Rightarrow> audit_log \<Rightarrow> TrfxActionResult \<times> audit_log" where
  "finalize_action_result now request result au =
     (result, trfx_record_action_audit now request (Some result) au)"

definition error_text_set :: "string option \<Rightarrow> nat \<Rightarrow> bool" where
  "error_text_set error error_size \<longleftrightarrow> (case error of None \<Rightarrow> False | Some e \<Rightarrow> 0 < error_size \<and> e \<noteq> [])"

text \<open>The result before it is audited, the error buffer and the effects.\<close>

definition execute_kill ::
  "action_env \<Rightarrow> TrfxActionRequest \<Rightarrow> u32 \<Rightarrow> string option \<Rightarrow> nat \<Rightarrow>
   TrfxActionResult \<times> string option \<times> action_effect list" where
  "execute_kill env rq effective_uid e0 error_size =
     (let res = trfx_init_action_result\<lparr>as_request := rq\<rparr>;
          pid = at_pid (ar_target rq);
          finish = (\<lambda>st en msg err. let m = fit 256 msg
                      in (res\<lparr>as_status := st, as_system_errno := en, as_message := m\<rparr>, put_buf err error_size m))
      in case parse_pid_value (Some pid) of
           None \<Rightarrow> (case finish TRFX_ACTION_RESULT_INVALID 0
                       (''invalid process id: '' @ (if pid \<noteq> [] then pid else ''-'')) e0 of (r, e) \<Rightarrow> (r, e, []))
         | Some pid_value \<Rightarrow>
             (case trfx_lookup_process_uid (ae_os env) (Some pid) e0 error_size of
                (None, e1) \<Rightarrow>
                  (let m = fit 256 (''process '' @ pid @ '' not found'')
                   in (res\<lparr>as_status := TRFX_ACTION_RESULT_NOT_FOUND, as_message := m\<rparr>,
                       if error_text_set e1 error_size then e1 else put_buf e1 error_size m, []))
              | (Some target_uid, e1) \<Rightarrow>
                  if effective_uid \<noteq> 0 \<and> effective_uid \<noteq> target_uid
                  then (case finish TRFX_ACTION_RESULT_PERMISSION_DENIED 0
                          (''permission denied: requires root or uid '' @ show_u32 target_uid) e1 of
                          (r, e) \<Rightarrow> (r, e, []))
                  else (let en = ae_kill env pid_value sigterm;
                            out = (if en = 0
                              then finish TRFX_ACTION_RESULT_OK 0 (''sent SIGTERM to '' @ pid) e1
                              else if en = errno_esrch
                              then finish TRFX_ACTION_RESULT_NOT_FOUND en (''process '' @ pid @ '' not found'') e1
                              else if en = errno_eperm
                              then finish TRFX_ACTION_RESULT_PERMISSION_DENIED en
                                     (''permission denied while killing '' @ pid) e1
                              else finish TRFX_ACTION_RESULT_FAILED en
                                     (''failed to kill '' @ pid @ '': '' @ ae_strerror env en) e1)
                        in (fst out, snd out, [EffKill pid_value sigterm]))))"

definition execute_drop ::
  "action_env \<Rightarrow> TrfxActionRequest \<Rightarrow> u32 \<Rightarrow> string option \<Rightarrow> nat \<Rightarrow>
   TrfxActionResult \<times> string option \<times> action_effect list" where
  "execute_drop env rq effective_uid e0 error_size =
     (let res = trfx_init_action_result\<lparr>as_request := rq\<rparr>
      in if effective_uid \<noteq> 0
         then (let m = fit 256 ''permission denied: root required to drop sockets''
               in (res\<lparr>as_status := TRFX_ACTION_RESULT_PERMISSION_DENIED, as_message := m\<rparr>,
                   put_buf e0 error_size m, []))
         else (case run_ss_drop_action env rq e0 error_size of
                 (False, e1, effs) \<Rightarrow>
                   if error_text_set e1 error_size
                   then (res\<lparr>as_status := (if c_strstr (the e1) ''not installed'' \<noteq> None
                                            then TRFX_ACTION_RESULT_UNSUPPORTED else TRFX_ACTION_RESULT_FAILED),
                              as_message := fit 256 (the e1)\<rparr>, e1, effs)
                   else (res\<lparr>as_status := TRFX_ACTION_RESULT_UNSUPPORTED,
                              as_message := fit 256 (trfx_action_kind_name (ar_kind rq) @ '' is not supported yet'')\<rparr>,
                         e1, effs)
               | (True, e1, effs) \<Rightarrow>
                   (let m = fit 256 (trfx_action_kind_name (ar_kind rq) @ '' completed'')
                    in (res\<lparr>as_status := TRFX_ACTION_RESULT_OK, as_message := m\<rparr>, put_buf e1 error_size m, effs))))"

definition execute_request ::
  "action_env \<Rightarrow> TrfxActionRequest option \<Rightarrow> int \<Rightarrow> u32 \<Rightarrow> string option \<Rightarrow> nat \<Rightarrow>
   TrfxActionResult \<times> string option \<times> action_effect list" where
  "execute_request env request confirmed effective_uid error error_size =
     (let e0 = put_buf error error_size [];
          plain = (\<lambda>res st msg. let m = fit 256 msg
                     in (res\<lparr>as_status := st, as_message := m\<rparr>, put_buf e0 error_size m, []))
      in case request of
           None \<Rightarrow> plain trfx_init_action_result TRFX_ACTION_RESULT_INVALID ''no action selected''
         | Some rq \<Rightarrow>
             (let res = trfx_init_action_result\<lparr>as_request := rq\<rparr>
              in if ar_kind rq = TRFX_ACTION_KIND_NONE
                 then plain res TRFX_ACTION_RESULT_INVALID ''no action selected''
                 else if confirmed = 0 then plain res TRFX_ACTION_RESULT_CANCELLED ''action cancelled''
                 else if ar_kind rq = TRFX_ACTION_KIND_KILL_PROCESS
                 then execute_kill env rq effective_uid e0 error_size
                 else if ar_kind rq = TRFX_ACTION_KIND_DROP_CONNECTION \<or> ar_kind rq = TRFX_ACTION_KIND_DROP_SOCKET
                 then execute_drop env rq effective_uid e0 error_size
                 else plain res TRFX_ACTION_RESULT_UNSUPPORTED
                        (trfx_action_kind_name (ar_kind rq) @ '' is not supported yet'')))"

text \<open>The result, the error buffer, the effects and the audit log.\<close>

definition trfx_execute_action_request ::
  "action_env \<Rightarrow> TrfxActionRequest option \<Rightarrow> int \<Rightarrow> u32 \<Rightarrow> string option \<Rightarrow> nat \<Rightarrow> audit_log \<Rightarrow>
   TrfxActionResult \<times> string option \<times> action_effect list \<times> audit_log" where
  "trfx_execute_action_request env request confirmed effective_uid error error_size au =
     (case execute_request env request confirmed effective_uid error error_size of
        (res, e, effs) \<Rightarrow>
          (case finalize_action_result (ae_now env) request res au of (r, au') \<Rightarrow> (r, e, effs, au')))"

section \<open>The audit trail keeps the last entries\<close>

definition audit_valid :: "audit_log \<Rightarrow> bool" where
  "audit_valid au \<longleftrightarrow> length (au_entries au) = audit_max \<and> au_count au \<le> audit_max \<and> au_next au < audit_max"

text \<open>The slot of the oldest entry, and the entries from there on.\<close>

definition audit_head :: "audit_log \<Rightarrow> nat" where
  "audit_head au = (au_next au + audit_max - au_count au) mod audit_max"

definition audit_items :: "audit_log \<Rightarrow> TrfxActionAuditEntry list" where
  "audit_items au = ring_items audit_max (audit_head au) (au_count au) (au_entries au)"

lemma audit_head_next: "audit_valid au \<Longrightarrow> (audit_head au + au_count au) mod audit_max = au_next au"
proof -
  assume v: "audit_valid au"
  then have "((au_next au + audit_max - au_count au) + au_count au) mod audit_max = au_next au"
    by (simp add: audit_valid_def)
  then show ?thesis by (simp add: audit_head_def mod_add_left_eq)
qed

lemma audit_items_push:
  assumes v: "audit_valid au"
  shows "audit_items (audit_push e au) = lastn audit_max (audit_items au @ [e])"
proof (cases "au_count au < audit_max")
  case True
  have "audit_head (audit_push e au) = (Suc (au_next au) mod audit_max + audit_max - Suc (au_count au)) mod audit_max"
    using True by (simp add: audit_head_def audit_push_def)
  also have "\<dots> = audit_head au" using True by (simp add: mod_shift audit_head_def)
  finally have "audit_head (audit_push e au) = audit_head au" .
  moreover have "audit_push e au = au\<lparr>au_entries := (au_entries au)[(audit_head au + au_count au) mod audit_max := e],
      au_next := (au_next au + 1) mod audit_max, au_count := Suc (au_count au)\<rparr>"
    using True by (simp add: audit_push_def audit_head_next [OF v])
  ultimately have "audit_items (audit_push e au) = audit_items au @ [e]"
    using True v ring_push_room [of "au_count au" audit_max "au_entries au" "audit_head au" e]
    by (simp add: audit_items_def audit_valid_def)
  then show ?thesis using True by (simp add: audit_items_def)
next
  case False
  then have full: "au_count au = audit_max" using v by (simp add: audit_valid_def)
  have pos: "0 < audit_max" by (simp add: audit_max_def)
  have h: "audit_head au = au_next au" using v full by (simp add: audit_head_def audit_valid_def)
  have "audit_head (audit_push e au) = Suc (audit_head au) mod audit_max"
    using full h by (simp add: audit_head_def audit_push_def)
  moreover have "au_entries (audit_push e au) = (au_entries au)[(audit_head au + audit_max) mod audit_max := e]"
    using h v by (simp add: audit_push_def audit_valid_def)
  moreover have "au_count (audit_push e au) = audit_max" using full by (simp add: audit_push_def)
  ultimately show ?thesis
    using ring_push_full [OF pos, of "au_entries au" "audit_head au" e] v full
    by (simp add: audit_items_def audit_valid_def ring_full_lastn [OF pos])
qed

interpretation audit: bounded_history audit_max audit_valid audit_items audit_push
  by unfold_locales
    (simp_all add: audit_items_push, simp_all add: audit_valid_def audit_push_def audit_max_def)

lemma audit_at_items:
  assumes "audit_valid au"
  shows "trfx_action_audit_at au i = (if i < length (audit_items au) then Some (rev (audit_items au) ! i) else None)"
proof (cases "i < au_count au")
  case True
  let ?k = "au_count au - 1 - i"
  have "(audit_head au + ?k) mod audit_max = (au_next au + audit_max - 1 - i) mod audit_max"
  proof -
    have "au_next au + audit_max - au_count au + ?k = au_next au + audit_max - 1 - i"
      using True assms by (simp add: audit_valid_def)
    then show ?thesis by (metis audit_head_def mod_add_left_eq)
  qed
  then show ?thesis
    using True by (simp add: trfx_action_audit_at_def audit_items_def rev_nth ring_items_nth)
qed (simp add: trfx_action_audit_at_def audit_items_def)

lemma audit_start_valid: "audit_valid audit_start" "audit_items audit_start = []"
  by (simp_all add: audit_valid_def audit_start_def audit_max_def audit_items_def)

lemma audit_window:
  "trfx_action_audit_count (fold audit_push es audit_start) = min 8 (length es)
 \<and> trfx_action_audit_at (fold audit_push es audit_start) i
     = (if i < min 8 (length es) then Some (rev es ! i) else None)"
proof -
  note v = audit.history_from_empty [OF audit_start_valid, of es]
  have count: "trfx_action_audit_count (fold audit_push es audit_start) = min 8 (length es)"
    using arg_cong [OF v(2), of length]
    by (simp add: trfx_action_audit_count_def audit_items_def audit_max_def)
  have "length es - (length es - 8) = min 8 (length es)" by arith
  then have "rev (lastn audit_max es) ! i = rev es ! i" if "i < min 8 (length es)"
    using that by (simp add: lastn_def audit_max_def rev_drop)
  with count show ?thesis
    by (simp add: audit_at_items [OF v(1)] v(2)) (simp add: audit_max_def)
qed

text \<open>C16. The audit trail is the list of the last eight recorded actions, newest first: after any sequence of
  records it holds as many entries as were recorded, at most eight, and the entry at index \<open>i\<close> is the
  one recorded \<open>i\<close> records before the last.\<close>

theorem audit_keeps_last:
  "trfx_action_audit_count (fold audit_push es audit_start) = min 8 (length es)
 \<and> trfx_action_audit_at (fold audit_push es audit_start) i
     = (if i < min 8 (length es) then Some (rev es ! i) else None)"
  by (rule audit_window)

text \<open>C10. Every execution of a request, whatever its outcome, adds exactly one entry to the audit trail: it
  becomes the newest one, with the time, the request, the status and the message of the result, and the
  entries before it move back by one.\<close>

theorem execution_audited:
  assumes "trfx_execute_action_request env request confirmed euid err n (fold audit_push es audit_start)
      = (res, err', effs, au)"
  shows "trfx_action_audit_at au 0 = Some (audit_entry_of (ae_now env) request (Some res))
    \<and> (i < 7 \<longrightarrow> trfx_action_audit_at au (Suc i) = trfx_action_audit_at (fold audit_push es audit_start) i)"
proof -
  let ?e = "audit_entry_of (ae_now env) request (Some res)"
  have "au = fold audit_push (es @ [?e]) audit_start"
    using assms
    by (simp add: trfx_execute_action_request_def finalize_action_result_def trfx_record_action_audit_def
        split: prod.splits)
  then show ?thesis
    using audit_window [of "es @ [?e]" 0] audit_window [of "es @ [?e]" "Suc i"]
      audit_window [of es i] by auto
qed

section \<open>Killing a process\<close>

lemma execute_kill_effects:
  assumes "execute_kill env rq euid e n = (res, e', effs)" and "EffKill v sig \<in> set effs"
  shows "\<exists>uid. parse_pid_value (Some (at_pid (ar_target rq))) = Some v
    \<and> fst (trfx_lookup_process_uid (ae_os env) (Some (at_pid (ar_target rq))) e n) = Some uid
    \<and> (euid = 0 \<or> euid = uid) \<and> effs = [EffKill v sigterm]"
  using assms
  by (auto simp: execute_kill_def Let_def split: option.splits prod.splits if_splits)

lemma run_ss_no_kill: "run_ss_drop_action env rq e n = (ok, e', effs) \<Longrightarrow> EffKill v sig \<notin> set effs"
  by (auto simp: run_ss_drop_action_def Let_def split: option.splits ss_outcome.splits if_splits)

lemma execute_drop_no_kill: "execute_drop env rq euid e n = (res, e', effs) \<Longrightarrow> EffKill v sig \<notin> set effs"
  using run_ss_no_kill
  by (fastforce simp: execute_drop_def Let_def split: prod.splits bool.splits if_splits)

lemma lookup_uid_file:
  "fst (trfx_lookup_process_uid os (Some p) e n) =
     Option.bind (os_file os (fit 256 (''/proc/'' @ p @ ''/status''))) lookup_process_uid_file"
  by (simp add: trfx_lookup_process_uid_def Let_def split: option.splits)

lemma kill_authorised:
  assumes "trfx_execute_action_request env request confirmed euid err n au = (res, err', effs, au')"
    and "EffKill v sig \<in> set effs"
  shows "\<exists>rq content uid. request = Some rq \<and> ar_kind rq = TRFX_ACTION_KIND_KILL_PROCESS \<and> confirmed \<noteq> 0
    \<and> parse_pid_value (Some (at_pid (ar_target rq))) = Some v
    \<and> os_file (ae_os env) (fit 256 (''/proc/'' @ at_pid (ar_target rq) @ ''/status'')) = Some content
    \<and> lookup_process_uid_file content = Some uid \<and> (euid = 0 \<or> euid = uid)
    \<and> effs = [EffKill v sigterm]"
proof -
  have ex: "execute_request env request confirmed euid err n = (res, err', effs)"
    using assms(1) by (simp add: trfx_execute_action_request_def finalize_action_result_def split: prod.splits)
  then obtain rq where rq: "request = Some rq" "confirmed \<noteq> 0" "ar_kind rq = TRFX_ACTION_KIND_KILL_PROCESS"
    "execute_kill env rq euid (put_buf err n []) n = (res, err', effs)"
    using assms(2) execute_drop_no_kill
    by (fastforce simp: execute_request_def Let_def split: option.splits if_splits)
  from execute_kill_effects [OF rq(4) assms(2)] obtain uid where
    u: "parse_pid_value (Some (at_pid (ar_target rq))) = Some v" "euid = 0 \<or> euid = uid" "effs = [EffKill v sigterm]"
      "Option.bind (os_file (ae_os env) (fit 256 (''/proc/'' @ at_pid (ar_target rq) @ ''/status'')))
         lookup_process_uid_file = Some uid"
    unfolding lookup_uid_file by blast
  then show ?thesis using rq by (auto simp: bind_eq_Some_conv)
qed

text \<open>
  When an effect is allowed: a signal is the \<open>SIGTERM\<close> of a kill request to an existing process of the user, or by root;
  a command is the call of \<open>ss\<close> for the two ends of a drop request, by root.
\<close>

fun effect_allowed :: "action_env \<Rightarrow> u32 \<Rightarrow> TrfxActionRequest \<Rightarrow> action_effect \<Rightarrow> bool" where
  "effect_allowed env euid rq (EffKill v sig) =
     (ar_kind rq = TRFX_ACTION_KIND_KILL_PROCESS \<and> sig = sigterm \<and> parse_pid_value (Some (at_pid (ar_target rq))) = Some v
      \<and> (case os_file (ae_os env) (fit 256 (''/proc/'' @ at_pid (ar_target rq) @ ''/status'')) of None \<Rightarrow> False
         | Some content \<Rightarrow> (case lookup_process_uid_file content of None \<Rightarrow> False | Some uid \<Rightarrow> euid = 0 \<or> euid = uid)))"
| "effect_allowed env euid rq (EffRun argv) =
     (ar_kind rq \<in> {TRFX_ACTION_KIND_DROP_CONNECTION, TRFX_ACTION_KIND_DROP_SOCKET} \<and> euid = 0
      \<and> (case (split_endpoint (at_local (ar_target rq)) 64 8, split_endpoint (at_remote (ar_target rq)) 64 8) of
           (Some l, Some r) \<Rightarrow> argv = ss_argv (ar_target rq) l r | _ \<Rightarrow> False))"

lemma run_ss_effects:
  assumes "run_ss_drop_action env rq e n = (ok, e', effs)" and "EffRun argv \<in> set effs"
  shows "effs = [EffRun argv] \<and> (\<exists>l r. split_endpoint (at_local (ar_target rq)) 64 8 = Some l
    \<and> split_endpoint (at_remote (ar_target rq)) 64 8 = Some r \<and> argv = ss_argv (ar_target rq) l r)"
  using assms by (auto simp: run_ss_drop_action_def Let_def split: option.splits ss_outcome.splits if_splits)

lemma execute_drop_effects:
  assumes "execute_drop env rq euid e n = (res, e', effs)" and "EffRun argv \<in> set effs"
  shows "euid = 0 \<and> effs = [EffRun argv] \<and> (\<exists>l r. split_endpoint (at_local (ar_target rq)) 64 8 = Some l
    \<and> split_endpoint (at_remote (ar_target rq)) 64 8 = Some r \<and> argv = ss_argv (ar_target rq) l r)"
proof -
  obtain ok e1 effs' where r: "run_ss_drop_action env rq e n = (ok, e1, effs')" by (metis prod_cases3)
  then have "euid = 0" "effs = effs'"
    using assms by (auto simp: execute_drop_def Let_def split: bool.splits if_splits)
  then show ?thesis using run_ss_effects [OF r] assms(2) by simp
qed

lemma execute_kill_no_run: "execute_kill env rq euid e n = (res, e', effs) \<Longrightarrow> EffRun argv \<notin> set effs"
  by (auto simp: execute_kill_def Let_def split: option.splits prod.splits if_splits)

lemma effects_authorised:
  assumes "trfx_execute_action_request env request confirmed euid err n au = (res, err', effs, au')" and "eff \<in> set effs"
  shows "\<exists>rq. request = Some rq \<and> confirmed \<noteq> 0 \<and> effs = [eff] \<and> effect_allowed env euid rq eff"
proof (cases eff)
  case (EffKill v sig)
  then show ?thesis using kill_authorised [OF assms(1), of v sig] assms(2) by auto
next
  case (EffRun argv)
  have ex: "execute_request env request confirmed euid err n = (res, err', effs)"
    using assms(1) by (simp add: trfx_execute_action_request_def finalize_action_result_def split: prod.splits)
  then obtain rq where rq: "request = Some rq" "confirmed \<noteq> 0"
    "ar_kind rq \<in> {TRFX_ACTION_KIND_DROP_CONNECTION, TRFX_ACTION_KIND_DROP_SOCKET}"
    "execute_drop env rq euid (put_buf err n []) n = (res, err', effs)"
    using assms(2) EffRun execute_kill_no_run
    by (fastforce simp: execute_request_def Let_def split: option.splits if_splits)
  then show ?thesis using execute_drop_effects [OF rq(4), of argv] assms(2) EffRun by auto
qed

text \<open>A confirmed kill for an existing process signals it exactly when the user may do so.\<close>

lemma kill_executes:
  assumes "ar_kind rq = TRFX_ACTION_KIND_KILL_PROCESS" and "parse_pid_value (Some (at_pid (ar_target rq))) = Some v"
    and "fst (trfx_lookup_process_uid (ae_os env) (Some (at_pid (ar_target rq))) e' n') = Some uid"
    and "trfx_execute_action_request env (Some rq) 1 euid err n au = (res, err', effs, au')"
  shows "effs = (if euid = 0 \<or> euid = uid then [EffKill v sigterm] else [])
    \<and> (\<not> (euid = 0 \<or> euid = uid) \<longrightarrow> as_status res = TRFX_ACTION_RESULT_PERMISSION_DENIED)"
proof -
  have "execute_kill env rq euid (put_buf err n []) n = (res, err', effs)"
    using assms(1,4)
    by (simp add: trfx_execute_action_request_def finalize_action_result_def execute_request_def Let_def
        split: prod.splits)
  moreover have "fst (trfx_lookup_process_uid (ae_os env) (Some (at_pid (ar_target rq))) (put_buf err n []) n) = Some uid"
    using assms(3) unfolding lookup_uid_file .
  ultimately show ?thesis
    using assms(2) by (auto simp: execute_kill_def Let_def split: option.splits prod.splits if_splits)
qed


text \<open>A process 42 that belongs to user 1000, for the witnesses.\<close>

definition demo_env :: action_env where
  "demo_env = \<lparr>ae_os = os_empty\<lparr>os_file := (\<lambda>p. if p = ''/proc/42/status''
       then Some (''Name: vi'' @ [nl] @ ''Uid: 1000 1000'' @ [nl]) else None)\<rparr>,
     ae_kill = (\<lambda>_ _. 0), ae_ss = (\<lambda>_. SsExited 0), ae_strerror = (\<lambda>_. []), ae_now = 0\<rparr>"

lemma demo_lookup: "lookup_process_uid_file (''Name: vi'' @ [nl] @ ''Uid: 1000 1000'' @ [nl]) = Some 1000"
  by code_simp

lemma demo_pid: "parse_pid_value (Some ''42'') = Some 42"
  by code_simp

lemma demo_request: "at_pid (ar_target (trfx_action_request_set_process_kill (Some ''42'') (Some ''vi''))) = ''42''"
  by code_simp

lemma demo_effects:
  "case trfx_execute_action_request demo_env (Some (trfx_action_request_set_process_kill (Some ''42'') (Some ''vi'')))
     1 1000 None 0 audit_start of (res, e, effs, au) \<Rightarrow> effs = [EffKill 42 15] \<and> as_status res = TRFX_ACTION_RESULT_OK"
  by code_simp


lemma execution_audited_witness:
  "\<exists>e au. trfx_action_audit_at au 0 = Some e \<and> aa_status e = TRFX_ACTION_RESULT_OK
     \<and> fst (snd (snd (trfx_execute_action_request demo_env
           (Some (trfx_action_request_set_process_kill (Some ''42'') (Some ''vi''))) 1 1000 None 0 audit_start))) = [EffKill 42 15]
     \<and> au = snd (snd (snd (trfx_execute_action_request demo_env
           (Some (trfx_action_request_set_process_kill (Some ''42'') (Some ''vi''))) 1 1000 None 0 audit_start)))"
proof -
  obtain res e effs au where ex: "trfx_execute_action_request demo_env
      (Some (trfx_action_request_set_process_kill (Some ''42'') (Some ''vi''))) 1 1000 None 0 (fold audit_push [] audit_start)
      = (res, e, effs, au)" by (metis prod_cases4)
  have "effs = [EffKill 42 15]" "as_status res = TRFX_ACTION_RESULT_OK" using demo_effects ex by simp_all
  then show ?thesis
    using execution_audited [OF ex, of 0] ex by (auto simp: audit_entry_of_def Let_def)
qed

text \<open>C35. The review that the user confirms tells the truth about a kill: for a supported request for an
  existing process, executing it after confirmation sends the signal exactly when the review said that
  it can be executed, and is refused with \<open>permission denied\<close>, without any signal, when it said not.\<close>

theorem review_agrees_with_execution:
  assumes "rq = trfx_action_request_set_process_kill (Some pid) process"
    and "parse_pid_value (Some (at_pid (ar_target rq))) = Some v"
    and "fst (trfx_lookup_process_uid (ae_os env) (Some (at_pid (ar_target rq))) None 0) = Some uid"
    and "trfx_execute_action_request env (Some rq) 1 euid err n au = (res, err', effs, au')"
  shows "effs = (if av_can_execute (trfx_prepare_action_review (Some rq) euid uid 1) = 1
                 then [EffKill v sigterm] else [])
    \<and> (av_can_execute (trfx_prepare_action_review (Some rq) euid uid 1) \<noteq> 1 \<longrightarrow>
         as_status res = TRFX_ACTION_RESULT_PERMISSION_DENIED
       \<and> av_permission (trfx_prepare_action_review (Some rq) euid uid 1) = TRFX_ACTION_PERMISSION_DENIED)"
proof -
  have kind: "ar_kind rq = TRFX_ACTION_KIND_KILL_PROCESS" "ar_requires_permission_check rq = 1"
    using assms(1) by (simp_all add: trfx_action_request_set_process_kill_def trfx_init_action_request_def Let_def)
  have can: "av_can_execute (trfx_prepare_action_review (Some rq) euid uid 1) = (if euid = 0 \<or> euid = uid then 1 else 0)"
    "\<not> (euid = 0 \<or> euid = uid) \<Longrightarrow>
      av_permission (trfx_prepare_action_review (Some rq) euid uid 1) = TRFX_ACTION_PERMISSION_DENIED"
    using kind by (auto simp: trfx_prepare_action_review_def Let_def)
  then show ?thesis using kill_executes [OF kind(1) assms(2-4)] by (auto split: if_splits)
qed

lemma review_agrees_with_execution_witness:
  "fst (snd (snd (trfx_execute_action_request demo_env
       (Some (trfx_action_request_set_process_kill (Some ''42'') (Some ''vi''))) 1 7 None 0 audit_start))) = []"
proof -
  let ?rq = "trfx_action_request_set_process_kill (Some ''42'') (Some ''vi'')"
  obtain res e effs au where ex: "trfx_execute_action_request demo_env (Some ?rq) 1 7 None 0 audit_start
      = (res, e, effs, au)" by (metis prod_cases4)
  have "av_can_execute (trfx_prepare_action_review (Some ?rq) 7 1000 1) = 0"
    by (simp add: trfx_prepare_action_review_def trfx_action_request_set_process_kill_def
        trfx_init_action_request_def Let_def)
  then show ?thesis
    using review_agrees_with_execution [OF refl _ _ ex, of 42 1000] ex
    by (simp add: demo_request demo_pid lookup_uid_file demo_env_def fit_def demo_lookup [simplified])
qed

text \<open>The parsed number is stored in a 32-bit \<open>pid_t\<close>, so a text beyond that range is accepted and
  becomes the id of another process; only the lookup in \<open>/proc\<close> keeps it from being signalled.\<close>

lemma pid_truncated: "parse_pid_value (Some ''4294967297'') = Some 1"
proof -
  have "show_nat 4294967297 = ''4294967297''" by (simp add: show_nat.simps digit_char_numerals)
  then have "c_strtol ''4294967297'' = (4294967297, [], False)"
    using c_strtol_show_nat [of 4294967297 "[]"] by (simp add: long_max_def)
  moreover have "to_int32 4294967297 = 1" by (simp add: to_int32_def)
  ultimately show ?thesis by (simp add: parse_pid_value_def)
qed

section \<open>Dropping a connection or a socket\<close>

lemma drop_connection_runs:
  assumes "ci_local_addr c = parse_ip_port (kernel_endpoint4 ip1 port1)"
    and "ci_remote_addr c = parse_ip_port (kernel_endpoint4 ip2 port2)"
    and "ci_protocol c \<in> {''TCP'', ''UDP''}"
    and "argv = [''ss'', ''-K'', if ci_protocol c = ''UDP'' then ''udp'' else ''tcp'',
       ''src'', c_inet_ntop4 (le_bytes ip1), ''sport'', show_nat (unat port1),
       ''dst'', c_inet_ntop4 (le_bytes ip2), ''dport'', show_nat (unat port2)]"
    and "ae_ss env argv = SsExited 0"
    and "trfx_execute_action_request env (Some (trfx_action_request_set_connection_drop (Some c))) 1 0 err n au
      = (res, err', effs, au')"
  shows "effs = [EffRun argv] \<and> as_status res = TRFX_ACTION_RESULT_OK"
proof -
  let ?rq = "trfx_action_request_set_connection_drop (Some c)"
  have host: "length (c_inet_ntop4 (le_bytes ip)) < 17" "c_inet_ntop4 (le_bytes ip) \<noteq> []"
    "hd (c_inet_ntop4 (le_bytes ip)) \<noteq> CHR ''[''" for ip
    using inet_ntop4_length [of "le_bytes ip"] inet_ntop4_nonempty [of "le_bytes ip"]
      inet_ntop4_chars [of "hd (c_inet_ntop4 (le_bytes ip))" "le_bytes ip"] le_bytes_bytes [of ip]
    by (auto simp: char_simps)
  have split: "split_endpoint (c_inet_ntop4 (le_bytes ip) @ '':'' @ show_nat (unat port)) 64 8
      = Some (c_inet_ntop4 (le_bytes ip), show_nat (unat port))" for ip and port :: "16 word"
  proof -
    have "CHR '':'' \<notin> set (show_nat (unat port))" using show_nat_digits by (fastforce simp: char_simps)
    then have "split_last (CHR '':'') (c_inet_ntop4 (le_bytes ip) @ CHR '':'' # show_nat (unat port))
        = Some (c_inet_ntop4 (le_bytes ip), show_nat (unat port))" by (rule split_last_app)
    then show ?thesis
      using host [of ip] length_show_port [of port] by (simp add: split_endpoint_def Let_def)
  qed
  have keep: "set_string 64 (Some (c_inet_ntop4 (le_bytes ip) @ '':'' @ show_nat (unat port)))
      = c_inet_ntop4 (le_bytes ip) @ '':'' @ show_nat (unat port)" for ip and port :: "16 word"
    using host [of ip] length_show_port [of port] by (simp add: set_string_def)
  have kind: "ar_kind ?rq = TRFX_ACTION_KIND_DROP_CONNECTION"
    and t: "at_local (ar_target ?rq) = c_inet_ntop4 (le_bytes ip1) @ '':'' @ show_nat (unat port1)"
      "at_remote (ar_target ?rq) = c_inet_ntop4 (le_bytes ip2) @ '':'' @ show_nat (unat port2)"
      "at_protocol (ar_target ?rq) = ci_protocol c"
    using assms(1-3) keep
    by (auto simp: trfx_action_request_set_connection_drop_def Let_def parse_ip_port_ipv4 set_string_def)
  have "run_ss_drop_action env ?rq e n = (True, put_buf e n [], [EffRun argv])" for e
    using assms(4,5) host split t by (simp add: run_ss_drop_action_def ss_argv_def Let_def)
  then have drop: "as_status (fst (execute_drop env ?rq 0 e n)) = TRFX_ACTION_RESULT_OK"
    "snd (snd (execute_drop env ?rq 0 e n)) = [EffRun argv]" for e
    by (simp_all add: execute_drop_def Let_def)
  have "execute_request env (Some ?rq) 1 0 err n = execute_drop env ?rq 0 (put_buf err n []) n"
    by (simp add: execute_request_def Let_def kind)
  then have "execute_drop env ?rq 0 (put_buf err n []) n = (res, err', effs)"
    using assms(6)
    by (simp add: trfx_execute_action_request_def finalize_action_result_def split: prod.splits)
  then show ?thesis using drop [of "put_buf err n []"] by simp
qed

text \<open>C36. Dropping a connection hands \<open>ss\<close> the endpoints of that connection: for an IPv4 connection as the
  kernel lists it, root's confirmed request runs exactly one command, with the protocol, the dotted
  addresses and the decimal ports of the two ends, and reports success when the command exits with 0.\<close>

theorem drop_connection_command:
  assumes "ci_local_addr c = parse_ip_port (kernel_endpoint4 ip1 port1)"
    and "ci_remote_addr c = parse_ip_port (kernel_endpoint4 ip2 port2)"
    and "ci_protocol c \<in> {''TCP'', ''UDP''}"
    and "argv = [''ss'', ''-K'', if ci_protocol c = ''UDP'' then ''udp'' else ''tcp'',
       ''src'', c_inet_ntop4 (le_bytes ip1), ''sport'', show_nat (unat port1),
       ''dst'', c_inet_ntop4 (le_bytes ip2), ''dport'', show_nat (unat port2)]"
    and "ae_ss env argv = SsExited 0"
    and "trfx_execute_action_request env (Some (trfx_action_request_set_connection_drop (Some c))) 1 0 err n au
      = (res, err', effs, au')"
  shows "effs = [EffRun argv] \<and> as_status res = TRFX_ACTION_RESULT_OK"
  using assms by (rule drop_connection_runs)

lemma drop_connection_command_witness:
  "fst (snd (snd (trfx_execute_action_request demo_env
     (Some (trfx_action_request_set_connection_drop (Some \<lparr>ci_protocol = ''TCP'',
        ci_local_addr = parse_ip_port (kernel_endpoint4 0x0100007F 22), ci_remote_addr = parse_ip_port
        (kernel_endpoint4 0x08080808 443), ci_state = ''ESTABLISHED'', ci_inode = 1, ci_uid = 0, ci_user = ''root'',
        ci_pid = ''-'', ci_process = ''-''\<rparr>))) 1 0 None 0 audit_start)))
   = [EffRun [''ss'', ''-K'', ''tcp'', ''src'', ''127.0.0.1'', ''sport'', ''22'', ''dst'', ''8.8.8.8'', ''dport'', ''443'']]"
proof -
  let ?c = "\<lparr>ci_protocol = ''TCP'', ci_local_addr = parse_ip_port (kernel_endpoint4 0x0100007F 22),
     ci_remote_addr = parse_ip_port (kernel_endpoint4 0x08080808 443), ci_state = ''ESTABLISHED'', ci_inode = 1,
     ci_uid = 0, ci_user = ''root'', ci_pid = ''-'', ci_process = ''-''\<rparr>"
  have v: "c_inet_ntop4 (le_bytes 0x0100007F) = ''127.0.0.1''" "c_inet_ntop4 (le_bytes 0x08080808) = ''8.8.8.8''"
    "show_nat 22 = ''22''" "show_nat 443 = ''443''"
    by (simp_all add: le_bytes_def Let_def c_inet_ntop4_def show_nat.simps digit_char_numerals)
  obtain res e effs au where ex: "trfx_execute_action_request demo_env
      (Some (trfx_action_request_set_connection_drop (Some ?c))) 1 0 None 0 audit_start = (res, e, effs, au)"
    by (metis prod_cases4)
  show ?thesis
    using drop_connection_command [of ?c _ _ _ _ _ demo_env, OF _ _ _ refl _ ex] ex
    by (simp add: demo_env_def v)
qed

lemma split_endpoint_no_colon:
  assumes "CHR '':'' \<notin> set e"
  shows "split_endpoint e hs ps = None"
proof -
  have "after = [] \<or> hd after \<noteq> CHR '':''" if "split_first (CHR '']'') e = Some (before, after)" for before after
    using split_first_Some [OF that] assms by (cases after) auto
  moreover have "split_last (CHR '':'') e = None" using assms by (simp add: split_last_None)
  ultimately show ?thesis by (auto simp: split_endpoint_def Let_def split: option.splits)
qed

text \<open>C37. Dropping a socket from the table of owned sockets never happens: the addresses of that table have
  no port, so the endpoints of the request cannot be split, no command is run, and even root gets a
  failed or unsupported action.\<close>

theorem drop_socket_never_runs:
  "list_all (\<lambda>s. case trfx_execute_action_request env (Some (trfx_action_request_set_socket_drop (Some s)))
       confirmed euid err n au of
     (res, _, effs, _) \<Rightarrow> effs = [] \<and> as_status res \<noteq> TRFX_ACTION_RESULT_OK)
   (get_socket_owner_info os junk mx)"
proof -
  have "case trfx_execute_action_request env (Some (trfx_action_request_set_socket_drop (Some s)))
       confirmed euid err n au of
     (res, _, effs, _) \<Rightarrow> effs = [] \<and> as_status res \<noteq> TRFX_ACTION_RESULT_OK"
    if "s \<in> set (get_socket_owner_info os junk mx)" for s
  proof -
    let ?rq = "trfx_action_request_set_socket_drop (Some s)"
    have "CHR '':'' \<notin> set (so_laddr s)"
      using owned_rows [OF that] by (auto simp: owned_row_def)
    then have "CHR '':'' \<notin> set (at_local (ar_target ?rq))"
      by (auto simp: trfx_action_request_set_socket_drop_def set_string_def fit_def Let_def dest: in_set_takeD)
    then have "split_endpoint (at_local (ar_target ?rq)) 64 8 = None"
      by (rule split_endpoint_no_colon)
    then have "run_ss_drop_action env ?rq e n = (False, put_buf (put_buf e n []) n ''connection endpoints unavailable'', [])"
      for e by (simp add: run_ss_drop_action_def Let_def)
    then have quiet: "snd (snd (execute_drop env ?rq euid e n)) = []"
      "as_status (fst (execute_drop env ?rq euid e n)) \<noteq> TRFX_ACTION_RESULT_OK" for e
      by (simp_all add: execute_drop_def Let_def)
    have "ar_kind ?rq = TRFX_ACTION_KIND_DROP_SOCKET"
      by (simp add: trfx_action_request_set_socket_drop_def Let_def)
    then have "execute_request env (Some ?rq) confirmed euid err n
        = (if confirmed = 0 then (trfx_init_action_result\<lparr>as_request := ?rq,
               as_status := TRFX_ACTION_RESULT_CANCELLED, as_message := fit 256 ''action cancelled''\<rparr>,
               put_buf (put_buf err n []) n (fit 256 ''action cancelled''), [])
           else execute_drop env ?rq euid (put_buf err n []) n)"
      by (simp add: execute_request_def Let_def)
    then have "snd (snd (execute_request env (Some ?rq) confirmed euid err n)) = []
      \<and> as_status (fst (execute_request env (Some ?rq) confirmed euid err n)) \<noteq> TRFX_ACTION_RESULT_OK"
      using quiet by simp
    then show ?thesis
      by (auto simp: trfx_execute_action_request_def finalize_action_result_def split: prod.splits)
  qed
  then show ?thesis by (simp add: list_all_iff)
qed

end
