(* ===== verification/Runtime.thy ===== *)
theory Runtime
  imports Prelude
begin

text \<open>
  \<open>src/trfx_runtime.c\<close>: the flags that the user-interface thread and the panel threads share. Every
  operation runs between the lock and the unlock of one mutex, so an execution of the threads is a
  sequence of operations, in the order in which they took the mutex; each is a step of the state.
\<close>

definition static_module_count :: nat where "static_module_count = 4"

record TrfxRuntimeState =
  ready :: int
  paused :: int
  stop_requested :: int
  force_refresh_flags :: "int list"

definition runtime_state_init :: TrfxRuntimeState where
  "runtime_state_init = \<lparr>ready = 0, paused = 0, stop_requested = 0,
                         force_refresh_flags = replicate static_module_count 0\<rparr>"

definition trfx_runtime_reset :: "TrfxRuntimeState \<Rightarrow> TrfxRuntimeState" where
  "trfx_runtime_reset s = s\<lparr>ready := 0, paused := 0, stop_requested := 0,
                            force_refresh_flags := replicate static_module_count 0\<rparr>"

definition trfx_runtime_set_ready :: "int \<Rightarrow> TrfxRuntimeState \<Rightarrow> TrfxRuntimeState" where
  "trfx_runtime_set_ready v s = s\<lparr>ready := (if v \<noteq> 0 then 1 else 0)\<rparr>"

definition trfx_runtime_is_ready :: "TrfxRuntimeState \<Rightarrow> int" where
  "trfx_runtime_is_ready s = ready s"

definition trfx_runtime_set_paused :: "int \<Rightarrow> TrfxRuntimeState \<Rightarrow> TrfxRuntimeState" where
  "trfx_runtime_set_paused v s = s\<lparr>paused := (if v \<noteq> 0 then 1 else 0)\<rparr>"

definition trfx_runtime_is_paused :: "TrfxRuntimeState \<Rightarrow> int" where
  "trfx_runtime_is_paused s = paused s"

definition trfx_runtime_request_stop :: "TrfxRuntimeState \<Rightarrow> TrfxRuntimeState" where
  "trfx_runtime_request_stop s = s\<lparr>stop_requested := 1\<rparr>"

definition trfx_runtime_should_stop :: "TrfxRuntimeState \<Rightarrow> int" where
  "trfx_runtime_should_stop s = stop_requested s"

definition trfx_runtime_request_static_refresh_all :: "TrfxRuntimeState \<Rightarrow> TrfxRuntimeState" where
  "trfx_runtime_request_static_refresh_all s =
     s\<lparr>force_refresh_flags := fold (\<lambda>i fs. fs[i := 1]) [0..<static_module_count] (force_refresh_flags s)\<rparr>"

definition trfx_runtime_consume_static_refresh :: "int \<Rightarrow> TrfxRuntimeState \<Rightarrow> int \<times> TrfxRuntimeState" where
  "trfx_runtime_consume_static_refresh m s =
     (if m < 0 \<or> int static_module_count \<le> m then (0, s)
      else (force_refresh_flags s ! nat m,
            s\<lparr>force_refresh_flags := (force_refresh_flags s)[nat m := 0]\<rparr>))"

section \<open>Runs\<close>

datatype runtime_op =
    OpReset | OpSetReady int | OpIsReady | OpSetPaused int | OpIsPaused
  | OpRequestStop | OpShouldStop | OpRequestRefresh | OpConsumeRefresh int

text \<open>One operation: its return value (0 for a \<open>void\<close> function) and the next state.\<close>

fun runtime_step :: "runtime_op \<Rightarrow> TrfxRuntimeState \<Rightarrow> int \<times> TrfxRuntimeState" where
  "runtime_step OpReset s = (0, trfx_runtime_reset s)"
| "runtime_step (OpSetReady v) s = (0, trfx_runtime_set_ready v s)"
| "runtime_step OpIsReady s = (trfx_runtime_is_ready s, s)"
| "runtime_step (OpSetPaused v) s = (0, trfx_runtime_set_paused v s)"
| "runtime_step OpIsPaused s = (trfx_runtime_is_paused s, s)"
| "runtime_step OpRequestStop s = (0, trfx_runtime_request_stop s)"
| "runtime_step OpShouldStop s = (trfx_runtime_should_stop s, s)"
| "runtime_step OpRequestRefresh s = (0, trfx_runtime_request_static_refresh_all s)"
| "runtime_step (OpConsumeRefresh m) s = trfx_runtime_consume_static_refresh m s"

definition runtime_run :: "runtime_op list \<Rightarrow> TrfxRuntimeState" where
  "runtime_run ops = fold (\<lambda>op s. snd (runtime_step op s)) ops runtime_state_init"

lemma runtime_run_snoc [simp]: "runtime_run (ops @ [op]) = snd (runtime_step op (runtime_run ops))"
  by (simp add: runtime_run_def)

lemma runtime_run_Nil [simp]: "runtime_run [] = runtime_state_init"
  by (simp add: runtime_run_def)

section \<open>The shape of the state\<close>

definition runtime_ok :: "TrfxRuntimeState \<Rightarrow> bool" where
  "runtime_ok s \<longleftrightarrow> ready s \<in> {0, 1} \<and> paused s \<in> {0, 1} \<and> stop_requested s \<in> {0, 1}
                  \<and> length (force_refresh_flags s) = static_module_count
                  \<and> set (force_refresh_flags s) \<subseteq> {0, 1}"

lemma request_all_flags:
  "length fs = static_module_count \<Longrightarrow>
     fold (\<lambda>i fs. fs[i := 1]) [0..<static_module_count] fs = replicate static_module_count (1 :: int)"
  by (auto simp: static_module_count_def numeral_eq_Suc length_Suc_conv upt_rec)

lemma runtime_init_ok: "runtime_ok runtime_state_init"
  by (auto simp: runtime_ok_def runtime_state_init_def)

lemma runtime_step_ok [inv_intros]: "runtime_ok s \<Longrightarrow> runtime_ok (snd (runtime_step op s))"
  by (cases op)
    (auto simp: runtime_ok_def request_all_flags trfx_runtime_reset_def trfx_runtime_set_ready_def
      trfx_runtime_set_paused_def trfx_runtime_request_stop_def
      trfx_runtime_request_static_refresh_all_def trfx_runtime_consume_static_refresh_def
      dest: subsetD [OF set_update_subset_insert])

lemma runtime_run_ok: "runtime_ok (runtime_run ops)"
  by (induction ops rule: rev_induct) (simp_all add: runtime_init_ok runtime_step_ok)

section \<open>What the flags promise\<close>

text \<open>The abstract state: whether a stop was asked for, and the modules that still have to refresh.\<close>

record runtime_spec =
  spec_ready :: bool
  spec_paused :: bool
  spec_stop :: bool
  spec_pending :: "int set"

definition runtime_abs :: "TrfxRuntimeState \<Rightarrow> runtime_spec" where
  "runtime_abs s = \<lparr>spec_ready = (ready s \<noteq> 0), spec_paused = (paused s \<noteq> 0),
                    spec_stop = (stop_requested s \<noteq> 0),
                    spec_pending = {m. 0 \<le> m \<and> m < 4 \<and> force_refresh_flags s ! nat m \<noteq> 0}\<rparr>"

fun spec_step :: "runtime_op \<Rightarrow> runtime_spec \<Rightarrow> bool \<times> runtime_spec" where
  "spec_step OpReset a = (False, \<lparr>spec_ready = False, spec_paused = False, spec_stop = False, spec_pending = {}\<rparr>)"
| "spec_step (OpSetReady v) a = (False, a\<lparr>spec_ready := (v \<noteq> 0)\<rparr>)"
| "spec_step OpIsReady a = (spec_ready a, a)"
| "spec_step (OpSetPaused v) a = (False, a\<lparr>spec_paused := (v \<noteq> 0)\<rparr>)"
| "spec_step OpIsPaused a = (spec_paused a, a)"
| "spec_step OpRequestStop a = (False, a\<lparr>spec_stop := True\<rparr>)"
| "spec_step OpShouldStop a = (spec_stop a, a)"
| "spec_step OpRequestRefresh a = (False, a\<lparr>spec_pending := {0, 1, 2, 3}\<rparr>)"
| "spec_step (OpConsumeRefresh m) a = (m \<in> spec_pending a, a\<lparr>spec_pending := spec_pending a - {m}\<rparr>)"

lemma int_below_4: "(0 \<le> m \<and> m < 4) \<longleftrightarrow> m = 0 \<or> m = 1 \<or> m = 2 \<or> m = (3 :: int)"
  by arith

lemma consume_refines:
  assumes "runtime_ok s"
  shows "runtime_abs (snd (trfx_runtime_consume_static_refresh m s)) =
           (runtime_abs s)\<lparr>spec_pending := spec_pending (runtime_abs s) - {m}\<rparr>
       \<and> (fst (trfx_runtime_consume_static_refresh m s) \<noteq> 0 \<longleftrightarrow> m \<in> spec_pending (runtime_abs s))"
  using assms
  by (auto simp: runtime_abs_def trfx_runtime_consume_static_refresh_def static_module_count_def
      runtime_ok_def nth_list_update nat_eq_iff2 split: if_splits)

lemma request_refines:
  assumes "runtime_ok s"
  shows "runtime_abs (trfx_runtime_request_static_refresh_all s) =
           (runtime_abs s)\<lparr>spec_pending := {0, 1, 2, 3}\<rparr>"
proof -
  have "force_refresh_flags (trfx_runtime_request_static_refresh_all s) = replicate 4 1"
    using assms request_all_flags [of "force_refresh_flags s"]
    by (simp add: runtime_ok_def trfx_runtime_request_static_refresh_all_def static_module_count_def)
  then have "{m. 0 \<le> m \<and> m < 4 \<and> force_refresh_flags (trfx_runtime_request_static_refresh_all s) ! nat m \<noteq> 0}
      = {0, 1, 2, 3}"
    by auto
  then show ?thesis
    by (simp add: runtime_abs_def) (simp add: trfx_runtime_request_static_refresh_all_def)
qed

lemma runtime_step_refines:
  assumes "runtime_ok s"
  shows "runtime_abs (snd (runtime_step op s)) = snd (spec_step op (runtime_abs s))
       \<and> (fst (runtime_step op s) \<noteq> 0 \<longleftrightarrow> fst (spec_step op (runtime_abs s)))"
proof (cases op)
  case (OpConsumeRefresh m)
  then show ?thesis using consume_refines [OF assms] by simp
next
  case OpRequestRefresh
  then show ?thesis using request_refines [OF assms] by simp
next
  case OpReset
  then show ?thesis
    by (auto simp: runtime_abs_def trfx_runtime_reset_def static_module_count_def)
qed (auto simp: runtime_abs_def trfx_runtime_set_ready_def trfx_runtime_is_ready_def
      trfx_runtime_set_paused_def trfx_runtime_is_paused_def trfx_runtime_request_stop_def
      trfx_runtime_should_stop_def)

text \<open>C6. In every execution of the runtime operations, the flags implement the specification: each
  operation returns what the abstract state says, in particular a panel thread that consumes its
  refresh flag is told to refresh exactly when its module is pending, and the next concrete state
  abstracts to the next abstract state.\<close>

theorem runtime_refines_spec:
  "runtime_abs (runtime_run (ops @ [op])) = snd (spec_step op (runtime_abs (runtime_run ops)))
 \<and> (fst (runtime_step op (runtime_run ops)) \<noteq> 0 \<longleftrightarrow> fst (spec_step op (runtime_abs (runtime_run ops))))"
  using runtime_step_refines [OF runtime_run_ok] by simp

section \<open>Delivery of refresh requests\<close>

text \<open>Whether a refresh of module \<open>m\<close> was asked for and not yet consumed, read off the history.\<close>

fun awaiting_refresh :: "int \<Rightarrow> runtime_op list \<Rightarrow> bool" where
  "awaiting_refresh m [] = False"
| "awaiting_refresh m (op # later) =
     (if (op = OpConsumeRefresh m \<or> op = OpReset) then False
      else if op = OpRequestRefresh then True else awaiting_refresh m later)"

lemma pending_history:
  "m \<in> spec_pending (runtime_abs (runtime_run ops)) \<longleftrightarrow> 0 \<le> m \<and> m < 4 \<and> awaiting_refresh m (rev ops)"
proof (induction ops rule: rev_induct)
  case Nil
  then show ?case by (auto simp: runtime_abs_def runtime_state_init_def static_module_count_def)
next
  case (snoc op ops)
  have "runtime_abs (runtime_run (ops @ [op])) = snd (spec_step op (runtime_abs (runtime_run ops)))"
    using runtime_step_refines [OF runtime_run_ok] by simp
  with snoc int_below_4 [of m] show ?case by (cases op) auto
qed

lemma consume_bit:
  assumes "runtime_ok s"
  shows "fst (trfx_runtime_consume_static_refresh m s) \<in> {0, 1}"
proof (cases "m < 0 \<or> int static_module_count \<le> m")
  case False
  then have "nat m < length (force_refresh_flags s)" using assms by (auto simp: runtime_ok_def)
  then have "force_refresh_flags s ! nat m \<in> {0, 1}"
    using assms nth_mem unfolding runtime_ok_def by blast
  with False show ?thesis by (simp add: trfx_runtime_consume_static_refresh_def)
qed (simp add: trfx_runtime_consume_static_refresh_def)

text \<open>C18. A refresh request reaches every static panel exactly once: whatever the threads did before,
  consuming the flag of module \<open>m\<close> returns 1 exactly when \<open>m\<close> is a module and some request came
  after the last time this module consumed (or the state was reset), and a second consumption
  without a new request returns 0.\<close>

theorem refresh_delivered_once:
  "fst (trfx_runtime_consume_static_refresh m (runtime_run ops)) =
     (if 0 \<le> m \<and> m < 4 \<and> awaiting_refresh m (rev ops) then 1 else 0)
 \<and> fst (trfx_runtime_consume_static_refresh m (runtime_run (ops @ [OpConsumeRefresh m]))) = 0"
proof -
  let ?s = "runtime_run ops"
  have ok: "runtime_ok ?s" by (rule runtime_run_ok)
  have "fst (trfx_runtime_consume_static_refresh m ?s) \<in> {0, 1}"
    using ok by (rule consume_bit)
  moreover have "fst (trfx_runtime_consume_static_refresh m s) \<noteq> 0 \<longleftrightarrow> m \<in> spec_pending (runtime_abs s)"
    if "runtime_ok s" for s
    using consume_refines [OF that] by blast
  ultimately show ?thesis
    using ok runtime_run_ok [of "ops @ [OpConsumeRefresh m]"] pending_history [of m ops]
      pending_history [of m "ops @ [OpConsumeRefresh m]"]
    by auto
qed

text \<open>Once a stop is requested it stays requested until the state is reset.\<close>

lemma stop_persists:
  assumes "OpReset \<notin> set later" and "stop_requested s = 1"
  shows "stop_requested (fold (\<lambda>op s. snd (runtime_step op s)) later s) = 1"
  using assms
proof (induction later arbitrary: s)
  case (Cons op later)
  have "stop_requested (snd (runtime_step op s)) = 1"
    using Cons.prems
    by (cases op) (auto simp: trfx_runtime_set_ready_def trfx_runtime_set_paused_def
      trfx_runtime_request_stop_def trfx_runtime_request_static_refresh_all_def
      trfx_runtime_consume_static_refresh_def)
  with Cons show ?case by simp
qed simp

end
