(* ===== verification/SupportViews.thy ===== *)
theory SupportViews
  imports CText
begin

text \<open>
  \<open>src/trfx_support_views.c\<close>: the views of the support panel, the selected one and the flag that asks
  the panel to redraw. The two statics are one record; every operation holds the mutex throughout.
\<close>

datatype TrfxSupportViewId =
    VIEW_OVERVIEW | VIEW_LOGS | VIEW_DIAGNOSTICS | VIEW_ROUTE_DNS | VIEW_NETWORK_HEALTH
  | VIEW_BANDWIDTH | VIEW_CONNECTION_DETAIL | VIEW_ACTION_AUDIT

record TrfxSupportViewSpec =
  view_id :: TrfxSupportViewId
  view_title :: string
  view_description :: string

definition mk_view :: "TrfxSupportViewId \<Rightarrow> string \<Rightarrow> string \<Rightarrow> TrfxSupportViewSpec" where
  "mk_view i t d = \<lparr>view_id = i, view_title = t, view_description = d\<rparr>"

definition support_views :: "TrfxSupportViewSpec list" where
  "support_views =
    [mk_view VIEW_OVERVIEW ''Overview'' ''Network overview.'',
     mk_view VIEW_LOGS ''Logs'' ''Recent log lines and troubleshooting output.'',
     mk_view VIEW_DIAGNOSTICS ''Diagnostics'' ''Collected network, system, and alert correlation.'',
     mk_view VIEW_ROUTE_DNS ''Route and DNS'' ''Default route, DNS, and active interface consistency.'',
     mk_view VIEW_NETWORK_HEALTH ''Network Health'' ''CPU, memory, disk, and network pressure correlation.'',
     mk_view VIEW_BANDWIDTH ''Bandwidth Detail'' ''Focused top-flow bandwidth and recent trend detail.'',
     mk_view VIEW_CONNECTION_DETAIL ''Connection Detail'' ''Focused connection ownership and activity detail.'',
     mk_view VIEW_ACTION_AUDIT ''Action Audit'' ''Recent kill, drop, and review actions.'']"

definition trfx_support_view_count :: nat where
  "trfx_support_view_count = length support_views"

definition trfx_support_view_default_index :: nat where
  "trfx_support_view_default_index = 0"

definition trfx_support_view_spec_at :: "nat \<Rightarrow> TrfxSupportViewSpec option" where
  "trfx_support_view_spec_at index =
     (if trfx_support_view_count \<le> index then None else Some (support_views ! index))"

definition trfx_support_view_default :: "TrfxSupportViewSpec option" where
  "trfx_support_view_default = trfx_support_view_spec_at trfx_support_view_default_index"

definition trfx_support_view_by_id :: "TrfxSupportViewId \<Rightarrow> TrfxSupportViewSpec option" where
  "trfx_support_view_by_id i = List.find (\<lambda>v. view_id v = i) support_views"

definition trfx_support_view_id_at :: "nat \<Rightarrow> TrfxSupportViewId" where
  "trfx_support_view_id_at index =
     (case trfx_support_view_spec_at index of Some v \<Rightarrow> view_id v | None \<Rightarrow> VIEW_OVERVIEW)"

definition trfx_support_view_index_for_id :: "TrfxSupportViewId \<Rightarrow> nat" where
  "trfx_support_view_index_for_id i =
     (case find_index (\<lambda>v. view_id v = i) support_views of
        Some k \<Rightarrow> k | None \<Rightarrow> trfx_support_view_default_index)"

text \<open>The two loops that bring the index into range. They are entered with a positive \<open>count\<close>.\<close>

function wrap_up :: "int \<Rightarrow> int \<Rightarrow> int" where
  "wrap_up cnt i = (if i < 0 \<and> 0 < cnt then wrap_up cnt (i + cnt) else i)"
  by pat_completeness auto
termination by (relation "measure (\<lambda>(cnt, i). nat (- i))") auto

function wrap_down :: "int \<Rightarrow> int \<Rightarrow> int" where
  "wrap_down cnt i = (if cnt \<le> i \<and> 0 < cnt then wrap_down cnt (i - cnt) else i)"
  by pat_completeness auto
termination by (relation "measure (\<lambda>(cnt, i). nat i)") auto

declare wrap_up.simps [simp del] wrap_down.simps [simp del]

definition trfx_support_view_next_index :: "nat \<Rightarrow> int \<Rightarrow> nat" where
  "trfx_support_view_next_index current delta =
     (let cnt = trfx_support_view_count
      in if cnt = 0 then 0
         else let current' = (if cnt \<le> current then trfx_support_view_default_index else current)
              in nat (wrap_down (int cnt) (wrap_up (int cnt) (int current' + delta))))"

record support_view_state =
  selected_index_value :: nat
  refresh_requested :: int

definition support_view_state_init :: support_view_state where
  "support_view_state_init = \<lparr>selected_index_value = 0, refresh_requested = 0\<rparr>"

definition trfx_support_view_selected_index :: "support_view_state \<Rightarrow> nat" where
  "trfx_support_view_selected_index s =
     (if trfx_support_view_count \<le> selected_index_value s then trfx_support_view_default_index
      else selected_index_value s)"

definition trfx_support_view_selected :: "support_view_state \<Rightarrow> TrfxSupportViewSpec option" where
  "trfx_support_view_selected s = trfx_support_view_spec_at (trfx_support_view_selected_index s)"

definition trfx_support_view_set_selected_index :: "nat \<Rightarrow> support_view_state \<Rightarrow> support_view_state" where
  "trfx_support_view_set_selected_index index s =
     s\<lparr>selected_index_value := trfx_support_view_next_index index 0, refresh_requested := 1\<rparr>"

definition trfx_support_view_cycle_selected_index ::
  "int \<Rightarrow> support_view_state \<Rightarrow> nat \<times> support_view_state" where
  "trfx_support_view_cycle_selected_index delta s =
     (let next_index = trfx_support_view_next_index (selected_index_value s) delta
      in (next_index, s\<lparr>selected_index_value := next_index, refresh_requested := 1\<rparr>))"

definition trfx_support_view_request_refresh :: "support_view_state \<Rightarrow> support_view_state" where
  "trfx_support_view_request_refresh s = s\<lparr>refresh_requested := 1\<rparr>"

definition trfx_support_view_consume_refresh_request :: "support_view_state \<Rightarrow> int \<times> support_view_state" where
  "trfx_support_view_consume_refresh_request s = (refresh_requested s, s\<lparr>refresh_requested := 0\<rparr>)"

text \<open>The title and description of a table entry are never \<open>NULL\<close>.\<close>

definition trfx_support_view_format_selector_line ::
  "TrfxSupportViewSpec option \<Rightarrow> int \<Rightarrow> string option \<Rightarrow> nat \<Rightarrow> string option" where
  "trfx_support_view_format_selector_line spec compact_mode buf buf_size =
     (case buf of None \<Rightarrow> None
      | Some old \<Rightarrow>
          if buf_size = 0 then Some old
          else (case spec of None \<Rightarrow> Some (fit buf_size ''Unknown view'')
                | Some v \<Rightarrow>
                    if compact_mode \<noteq> 0 then Some (fit buf_size (view_title v))
                    else Some (fit buf_size (view_title v @ '' - '' @ view_description v))))"

section \<open>Indices\<close>

lemma view_count [simp]: "trfx_support_view_count = 8"
  by (simp add: trfx_support_view_count_def support_views_def)

lemma wrap_up_mod: "0 < cnt \<Longrightarrow> i < cnt \<Longrightarrow> 0 \<le> wrap_up cnt i \<and> wrap_up cnt i < cnt
    \<and> wrap_up cnt i mod cnt = i mod cnt"
proof (induction cnt i rule: wrap_up.induct)
  case (1 cnt i)
  then show ?case by (subst (1 2 3) wrap_up.simps) auto
qed

lemma wrap_up_ge: "0 \<le> i \<Longrightarrow> wrap_up cnt i = i"
  by (subst wrap_up.simps) simp

lemma wrap_down_mod: "0 < cnt \<Longrightarrow> 0 \<le> i \<Longrightarrow> wrap_down cnt i = i mod cnt"
proof (induction cnt i rule: wrap_down.induct)
  case (1 cnt i)
  show ?case
  proof (cases "cnt \<le> i")
    case True
    with 1 have "wrap_down cnt i = (i - cnt) mod cnt" by (subst wrap_down.simps) simp
    then show ?thesis by simp
  next
    case False
    with 1 show ?thesis by (subst wrap_down.simps) simp
  qed
qed

lemma wrap_both_mod:
  assumes "0 < cnt"
  shows "wrap_down cnt (wrap_up cnt i) = i mod cnt"
proof (cases "i < 0")
  case True
  then have w: "0 \<le> wrap_up cnt i \<and> wrap_up cnt i < cnt \<and> wrap_up cnt i mod cnt = i mod cnt"
    using wrap_up_mod [of cnt i] assms by simp
  then show ?thesis using wrap_down_mod [OF assms, of "wrap_up cnt i"] by simp
next
  case False
  then show ?thesis by (simp add: wrap_up_ge wrap_down_mod assms)
qed

lemma next_index_mod:
  "int (trfx_support_view_next_index current delta) = ((if 8 \<le> current then 0 else int current) + delta) mod 8"
  by (simp add: trfx_support_view_next_index_def wrap_both_mod trfx_support_view_default_index_def Let_def)

lemma next_index_range: "trfx_support_view_next_index current delta < 8"
  using next_index_mod [of current delta] pos_mod_bound [of 8 "(if 8 \<le> current then 0 else int current) + delta"]
  by linarith

section \<open>Selection over a run\<close>

datatype view_op =
    ViewSet nat | ViewCycle int | ViewRequest | ViewConsume | ViewSelected

fun view_step :: "view_op \<Rightarrow> support_view_state \<Rightarrow> support_view_state" where
  "view_step (ViewSet i) s = trfx_support_view_set_selected_index i s"
| "view_step (ViewCycle d) s = snd (trfx_support_view_cycle_selected_index d s)"
| "view_step ViewRequest s = trfx_support_view_request_refresh s"
| "view_step ViewConsume s = snd (trfx_support_view_consume_refresh_request s)"
| "view_step ViewSelected s = s"

inductive view_reachable :: "support_view_state \<Rightarrow> bool" where
  view_start: "view_reachable support_view_state_init"
| view_move: "view_reachable s \<Longrightarrow> view_reachable (view_step op s)"

definition view_state_ok :: "support_view_state \<Rightarrow> bool" where
  "view_state_ok s \<longleftrightarrow> selected_index_value s < trfx_support_view_count \<and> refresh_requested s \<in> {0, 1}"

lemma view_step_ok [inv_intros]: "view_state_ok s \<Longrightarrow> view_state_ok (view_step op s)"
  using next_index_range
  by (cases op) (auto simp: view_state_ok_def trfx_support_view_set_selected_index_def
      trfx_support_view_cycle_selected_index_def trfx_support_view_request_refresh_def
      trfx_support_view_consume_refresh_request_def Let_def)

lemma view_reachable_ok: "view_reachable s \<Longrightarrow> view_state_ok s"
proof (induction rule: view_reachable.induct)
  case view_start
  show ?case by (simp add: view_state_ok_def support_view_state_init_def)
next
  case (view_move s op)
  then show ?case by (simp add: view_step_ok)
qed

text \<open>Cycling through the support views is arithmetic modulo their number in both directions, whatever
  the distance: in every reachable state the selected view exists, cycling by \<open>d\<close> selects the view
  \<open>d\<close> places on (wrapping), cycling back restores the selection, and each change asks for a redraw.\<close>

lemma view_cycle_wraps:
  assumes "view_reachable s"
  shows "selected_index_value s < trfx_support_view_count
     \<and> trfx_support_view_selected s = Some (support_views ! selected_index_value s)
     \<and> int (fst (trfx_support_view_cycle_selected_index d s)) = (int (selected_index_value s) + d) mod 8
     \<and> fst (trfx_support_view_cycle_selected_index (- d) (snd (trfx_support_view_cycle_selected_index d s)))
         = selected_index_value s
     \<and> refresh_requested (snd (trfx_support_view_cycle_selected_index d s)) = 1"
proof -
  let ?i = "selected_index_value s"
  have i: "?i < 8" using view_reachable_ok [OF assms] by (simp add: view_state_ok_def)
  let ?n = "trfx_support_view_next_index ?i d"
  have n: "int ?n = (int ?i + d) mod 8" "?n < 8"
    using next_index_mod [of ?i d] next_index_range i by auto
  have "int (trfx_support_view_next_index ?n (- d)) = ((int ?i + d) mod 8 - d) mod 8"
    using next_index_mod [of ?n "- d"] n by simp
  also have "\<dots> = int ?i mod 8" by (simp add: mod_diff_left_eq)
  finally have "trfx_support_view_next_index ?n (- d) = ?i" using i by simp
  then show ?thesis
    using i n by (simp add: trfx_support_view_cycle_selected_index_def Let_def
        trfx_support_view_selected_def trfx_support_view_selected_index_def trfx_support_view_spec_at_def)
qed

lemma view_cycle_wraps_witness:
  "view_reachable support_view_state_init
   \<and> int (fst (trfx_support_view_cycle_selected_index (- 3) support_view_state_init)) = 5"
  using view_start view_cycle_wraps [OF view_start, of "- 3"] by (simp add: support_view_state_init_def)

text \<open>Identifiers and positions of the table are inverse to each other.\<close>

lemma view_index_of_id: "trfx_support_view_id_at (trfx_support_view_index_for_id i) = i"
  by (cases i) (simp_all add: trfx_support_view_id_at_def trfx_support_view_index_for_id_def
      trfx_support_view_spec_at_def support_views_def mk_view_def)

lemma view_index_for_id_range: "trfx_support_view_index_for_id i < 8"
  by (cases i) (simp_all add: trfx_support_view_index_for_id_def support_views_def mk_view_def)

lemma view_by_id: "trfx_support_view_by_id i = Some (support_views ! trfx_support_view_index_for_id i)"
  by (cases i) (simp_all add: trfx_support_view_by_id_def trfx_support_view_index_for_id_def
      support_views_def mk_view_def)

text \<open>Selecting a view by its identifier shows that view and asks for a redraw: what the hotkeys do.\<close>

lemma view_select_by_id:
  "trfx_support_view_selected (trfx_support_view_set_selected_index (trfx_support_view_index_for_id i) s)
     = trfx_support_view_by_id i
 \<and> refresh_requested (trfx_support_view_set_selected_index (trfx_support_view_index_for_id i) s) = 1"
proof -
  let ?k = "trfx_support_view_index_for_id i"
  have "int (trfx_support_view_next_index ?k 0) = int ?k"
    using next_index_mod [of ?k 0] view_index_for_id_range [of i] by simp
  then show ?thesis
    using view_index_for_id_range [of i]
    by (simp add: trfx_support_view_selected_def trfx_support_view_selected_index_def
        trfx_support_view_set_selected_index_def trfx_support_view_spec_at_def view_by_id)
qed

end
