(* ===== verification/Config.thy ===== *)
theory Config
  imports CText
begin

text \<open>
  \<open>src/trfx_config.c\<close>: the global settings, the reader of a configuration file and the loading of a
  profile. The globals are one record. The file system and the environment are functions from names
  to contents; what the code prints to \<open>stderr\<close> is returned as a list of texts.
\<close>

record config =
  TEMP_WARN_YELLOW :: int
  TEMP_WARN_RED :: int
  ALERT_MEMORY_WARN_PERCENT :: int
  ALERT_DISK_WARN_PERCENT :: int
  ALERT_REQUIRE_DEFAULT_ROUTE :: int
  ALERT_REQUIRE_DNS :: int
  SHOW_TOP_PANELS :: int
  TUI_REFRESH_INTERVAL_MS :: int
  TUI_PAUSE_INTERVAL_MS :: int
  TUI_READY_CHECK_INTERVAL_MS :: int
  TUI_SMALL_PANEL_REFRESH_MS :: int

definition config_default :: config where
  "config_default = \<lparr>TEMP_WARN_YELLOW = 50, TEMP_WARN_RED = 75, ALERT_MEMORY_WARN_PERCENT = 90,
     ALERT_DISK_WARN_PERCENT = 90, ALERT_REQUIRE_DEFAULT_ROUTE = 1, ALERT_REQUIRE_DNS = 1,
     SHOW_TOP_PANELS = 1, TUI_REFRESH_INTERVAL_MS = 1000, TUI_PAUSE_INTERVAL_MS = 100,
     TUI_READY_CHECK_INTERVAL_MS = 10, TUI_SMALL_PANEL_REFRESH_MS = 2000\<rparr>"

type_synonym warnings = "string list"
type_synonym files = "string \<Rightarrow> string option"

definition parse_bounded_int ::
  "string \<Rightarrow> int \<Rightarrow> int \<Rightarrow> int \<Rightarrow> string \<Rightarrow> int \<Rightarrow> int \<times> warnings" where
  "parse_bounded_int value default_value min_value max_value name line_num =
     (let (parsed, end, _) = c_strtol value;
          end' = dropWhile c_isspace end
      in if value = [] \<or> end' \<noteq> []
         then (default_value,
               [''Warning: Invalid integer for '' @ name @ '' at line '' @ show_int line_num
                @ ''. Defaulting to '' @ show_int default_value @ ''.'' @ [nl]])
         else if parsed < min_value \<or> max_value < parsed
         then (default_value,
               [''Warning: '' @ name @ '' out of range ('' @ show_int min_value @ ''-''
                @ show_int max_value @ ''), got '' @ show_int parsed @ ''. Defaulting to ''
                @ show_int default_value @ ''.'' @ [nl]])
         else (parsed, []))"

definition parse_bool :: "string \<Rightarrow> int \<Rightarrow> string \<Rightarrow> int \<Rightarrow> int \<times> warnings" where
  "parse_bool value default_value name line_num =
     (if c_strcaseeq value ''true'' \<or> c_strcaseeq value ''yes'' \<or> c_strcaseeq value ''on'' then (1, [])
      else if c_strcaseeq value ''false'' \<or> c_strcaseeq value ''no'' \<or> c_strcaseeq value ''off'' then (0, [])
      else parse_bounded_int value default_value 0 1 name line_num)"

definition trim_whitespace :: "string \<Rightarrow> string" where
  "trim_whitespace s = rev (dropWhile c_isspace (rev (dropWhile c_isspace s)))"

text \<open>The chain of key comparisons.\<close>

definition apply_setting :: "string \<Rightarrow> string \<Rightarrow> int \<Rightarrow> config \<Rightarrow> config \<times> warnings" where
  "apply_setting key value n cfg =
     (if key = ''TEMP_WARN_YELLOW'' then (cfg\<lparr>TEMP_WARN_YELLOW := c_atoi value\<rparr>, [])
      else if key = ''TEMP_WARN_RED'' then (cfg\<lparr>TEMP_WARN_RED := c_atoi value\<rparr>, [])
      else if key = ''ALERT_MEMORY_WARN_PERCENT''
        then (let (v, w) = parse_bounded_int value 90 1 100 key n in (cfg\<lparr>ALERT_MEMORY_WARN_PERCENT := v\<rparr>, w))
      else if key = ''ALERT_DISK_WARN_PERCENT''
        then (let (v, w) = parse_bounded_int value 90 1 100 key n in (cfg\<lparr>ALERT_DISK_WARN_PERCENT := v\<rparr>, w))
      else if key = ''ALERT_REQUIRE_DEFAULT_ROUTE''
        then (let (v, w) = parse_bool value 1 key n in (cfg\<lparr>ALERT_REQUIRE_DEFAULT_ROUTE := v\<rparr>, w))
      else if key = ''ALERT_REQUIRE_DNS''
        then (let (v, w) = parse_bool value 1 key n in (cfg\<lparr>ALERT_REQUIRE_DNS := v\<rparr>, w))
      else if key = ''SHOW_TOP_PANELS''
        then (let (v, w) = parse_bool value 1 key n in (cfg\<lparr>SHOW_TOP_PANELS := v\<rparr>, w))
      else if key = ''TUI_REFRESH_INTERVAL_MS''
        then (let (v, w) = parse_bounded_int value 1000 250 10000 key n in (cfg\<lparr>TUI_REFRESH_INTERVAL_MS := v\<rparr>, w))
      else if key = ''TUI_PAUSE_INTERVAL_MS''
        then (let (v, w) = parse_bounded_int value 100 25 1000 key n in (cfg\<lparr>TUI_PAUSE_INTERVAL_MS := v\<rparr>, w))
      else if key = ''TUI_READY_CHECK_INTERVAL_MS''
        then (let (v, w) = parse_bounded_int value 10 1 250 key n in (cfg\<lparr>TUI_READY_CHECK_INTERVAL_MS := v\<rparr>, w))
      else if key = ''TUI_SMALL_PANEL_REFRESH_MS''
        then (let (v, w) = parse_bounded_int value 2000 250 10000 key n in (cfg\<lparr>TUI_SMALL_PANEL_REFRESH_MS := v\<rparr>, w))
      else (cfg, [''Warning: Unknown config key '' @ [CHR 0x27] @ key @ [CHR 0x27] @ '' at line ''
                  @ show_int n @ [nl]]))"

text \<open>One turn of the loop: the settings, the line number and the warnings so far.\<close>

definition config_line :: "config \<times> int \<times> warnings \<Rightarrow> string \<Rightarrow> config \<times> int \<times> warnings" where
  "config_line st raw =
     (let (cfg, n0, ws) = st;
          n = n0 + 1;
          line = cut_nl raw
      in if line = [] \<or> hd line = CHR ''#'' then (cfg, n, ws)
         else let invalid = (cfg, n, ws @ [''Warning: Invalid config entry at line '' @ show_int n @ [nl]])
              in case c_strtok ''='' line of
                   None \<Rightarrow> invalid
                 | Some (key, rest) \<Rightarrow>
                     (case c_strtok ''='' rest of
                        None \<Rightarrow> invalid
                      | Some (value, _) \<Rightarrow>
                          let (cfg', w) = apply_setting (trim_whitespace key) (trim_whitespace value) n cfg
                          in (cfg', n, ws @ w)))"

definition read_config :: "files \<Rightarrow> string \<Rightarrow> config \<Rightarrow> config \<times> warnings" where
  "read_config fs config_file cfg =
     (case fs config_file of
        None \<Rightarrow> (cfg, [''Warning: Could not open config file: '' @ config_file @ [nl]])
      | Some text \<Rightarrow> let (cfg', _, ws) = foldl config_line (cfg, 0, []) (c_lines 256 text) in (cfg', ws))"

definition is_valid_profile_name :: "string option \<Rightarrow> bool" where
  "is_valid_profile_name profile_name =
     (case profile_name of None \<Rightarrow> False
      | Some s \<Rightarrow> s \<noteq> [] \<and> list_all (\<lambda>c. c_isalnum c \<or> c = CHR ''_'' \<or> c = CHR ''-'' \<or> c = CHR ''.'') s)"

text \<open>The path that the function writes, or \<open>None\<close> where it returns 0. The caller passes a buffer.\<close>

definition build_profile_path :: "files \<Rightarrow> string option \<Rightarrow> nat \<Rightarrow> string option" where
  "build_profile_path env profile_name path_size =
     (if \<not> is_valid_profile_name profile_name \<or> path_size = 0 then None
      else
        (let base = (case env ''TRAFX_PROFILE_DIR'' of
                       Some d \<Rightarrow> if d \<noteq> [] then Some d else None | None \<Rightarrow> None);
             base_dir = (case base of Some d \<Rightarrow> Some d
                         | None \<Rightarrow> (case env ''HOME'' of
                                      None \<Rightarrow> None
                                    | Some home \<Rightarrow> if home = [] then None
                                        else Some (fit 512 (home @ ''/.config/trafix/profiles''))))
         in case base_dir of None \<Rightarrow> None
            | Some d \<Rightarrow>
                let name = the profile_name
                in if path_size < length d + 1 + length name + 4 + 1 then None
                   else Some (d @ ''/'' @ name @ ''.cfg'')))"

definition CONFIG_FILE :: string where
  "CONFIG_FILE = ''/etc/trafix/config.cfg''"

definition base_config_path :: "files \<Rightarrow> string" where
  "base_config_path env = (case env ''TRAFX_CONFIG_FILE'' of
     Some p \<Rightarrow> if p = [] then CONFIG_FILE else p | None \<Rightarrow> CONFIG_FILE)"

text \<open>
  \<open>error\<close> is a buffer of \<open>error_size\<close> bytes. The result: the return value, the buffer, the settings
  and the warnings.
\<close>

definition trfx_load_runtime_config ::
  "files \<Rightarrow> files \<Rightarrow> string option \<Rightarrow> string option \<Rightarrow> nat \<Rightarrow> config \<Rightarrow>
   int \<times> string option \<times> config \<times> warnings" where
  "trfx_load_runtime_config env fs profile_name error error_size cfg =
     (let error = put_buf error error_size [];
          (cfg1, w1) = read_config fs (base_config_path env) cfg
      in if (case profile_name of None \<Rightarrow> True | Some s \<Rightarrow> s = []) then (1, error, cfg1, w1)
         else case build_profile_path env profile_name 512 of
                None \<Rightarrow> (0, put_buf error error_size ''invalid profile name or missing profile directory'', cfg1, w1)
              | Some path \<Rightarrow>
                  if fs path = None
                  then (0, put_buf error error_size (''profile not found: '' @ path), cfg1, w1)
                  else let (cfg2, w2) = read_config fs path cfg1 in (1, error, cfg2, w1 @ w2))"

section \<open>Ranges\<close>

definition config_ok :: "config \<Rightarrow> bool" where
  "config_ok c \<longleftrightarrow> ALERT_MEMORY_WARN_PERCENT c \<in> {1..100} \<and> ALERT_DISK_WARN_PERCENT c \<in> {1..100}
     \<and> ALERT_REQUIRE_DEFAULT_ROUTE c \<in> {0, 1} \<and> ALERT_REQUIRE_DNS c \<in> {0, 1} \<and> SHOW_TOP_PANELS c \<in> {0, 1}
     \<and> TUI_REFRESH_INTERVAL_MS c \<in> {250..10000} \<and> TUI_PAUSE_INTERVAL_MS c \<in> {25..1000}
     \<and> TUI_READY_CHECK_INTERVAL_MS c \<in> {1..250} \<and> TUI_SMALL_PANEL_REFRESH_MS c \<in> {250..10000}"

lemma parse_bounded_int_range:
  assumes "parse_bounded_int v d lo hi name n = (r, w)" and "lo \<le> d" and "d \<le> hi"
  shows "lo \<le> r \<and> r \<le> hi"
  using assms by (auto simp: parse_bounded_int_def Let_def split: prod.splits if_splits)

lemma parse_bool_range:
  assumes "parse_bool v d name n = (r, w)" and "d \<in> {0, 1}"
  shows "r = 0 \<or> r = 1"
  using assms parse_bounded_int_range [of v d 0 1 name n]
  by (auto simp: parse_bool_def split: if_splits)

lemma config_default_ok: "config_ok config_default"
  by (simp add: config_ok_def config_default_def)

lemma config_ok_if: "config_ok (fst x) \<Longrightarrow> config_ok (fst y) \<Longrightarrow> config_ok (fst (if b then x else y))"
  by simp

lemma config_ok_bounded:
  assumes "lo \<le> d" and "d \<le> hi" and "\<And>r. lo \<le> r \<Longrightarrow> r \<le> hi \<Longrightarrow> config_ok (f r)"
  shows "config_ok (fst (let (r, w) = parse_bounded_int v d lo hi name n in (f r, w)))"
  using parse_bounded_int_range [OF _ assms(1,2)] assms(3) by (auto split: prod.splits)

lemma config_ok_bool:
  assumes "\<And>r. r = 0 \<or> r = 1 \<Longrightarrow> config_ok (f r)"
  shows "config_ok (fst (let (r, w) = parse_bool v 1 name n in (f r, w)))"
  using parse_bool_range [of v 1 name n] assms by (auto split: prod.splits)

lemma apply_setting_ok [inv_intros]:
  assumes "config_ok c"
  shows "config_ok (fst (apply_setting key v n c))"
  using assms unfolding apply_setting_def
  by (intro config_ok_if config_ok_bounded config_ok_bool) (auto simp: config_ok_def)

lemma config_line_ok [inv_intros]:
  "config_ok (fst st) \<Longrightarrow> config_ok (fst (config_line st raw))"
  using apply_setting_ok
  by (auto simp: config_line_def Let_def split: prod.splits option.splits) (metis fst_conv)

lemma config_lines_ok: "config_ok (fst st) \<Longrightarrow> config_ok (fst (foldl config_line st ls))"
  by (induction ls arbitrary: st) (simp_all add: config_line_ok)

lemma read_config_ok [inv_intros]: "config_ok c \<Longrightarrow> config_ok (fst (read_config fs f c))"
  using config_lines_ok [of "(c, 0, [])"]
  by (auto simp: read_config_def split: option.splits prod.splits) (metis fst_conv)

text \<open>C9. Whatever the configuration files and the profile contain, and whether or not the profile can be
  loaded, the settings stay in their documented ranges: percentages in 1..100, switches 0 or 1, and
  each interval of the user interface within its bounds, so no panel loop sleeps for a non-positive
  or absurd time. (The two temperature thresholds are read by \<open>atoi\<close> without a range.)\<close>

theorem load_config_in_range:
  assumes "config_ok c"
  shows "config_ok (fst (snd (snd (trfx_load_runtime_config env fs profile err n c))))"
proof -
  have 1: "config_ok (fst (read_config fs (base_config_path env) c))" using assms by (rule read_config_ok)
  have "config_ok (fst (read_config fs p (fst (read_config fs (base_config_path env) c))))" for p
    using 1 by (rule read_config_ok)
  with 1 show ?thesis
    by (auto simp: trfx_load_runtime_config_def Let_def split: prod.splits option.splits) (metis fst_conv)+
qed

lemma load_config_in_range_witness:
  "config_ok config_default
   \<and> config_ok (fst (snd (snd (trfx_load_runtime_config (\<lambda>_. None)
        (\<lambda>_. Some ''TUI_REFRESH_INTERVAL_MS=1'') None None 0 config_default))))"
  using config_default_ok load_config_in_range [OF config_default_ok] by blast

section \<open>Writing and reading a configuration\<close>

definition config_entries :: "config \<Rightarrow> (string \<times> int) list" where
  "config_entries c =
    [(''TEMP_WARN_YELLOW'', TEMP_WARN_YELLOW c), (''TEMP_WARN_RED'', TEMP_WARN_RED c),
     (''ALERT_MEMORY_WARN_PERCENT'', ALERT_MEMORY_WARN_PERCENT c),
     (''ALERT_DISK_WARN_PERCENT'', ALERT_DISK_WARN_PERCENT c),
     (''ALERT_REQUIRE_DEFAULT_ROUTE'', ALERT_REQUIRE_DEFAULT_ROUTE c),
     (''ALERT_REQUIRE_DNS'', ALERT_REQUIRE_DNS c), (''SHOW_TOP_PANELS'', SHOW_TOP_PANELS c),
     (''TUI_REFRESH_INTERVAL_MS'', TUI_REFRESH_INTERVAL_MS c),
     (''TUI_PAUSE_INTERVAL_MS'', TUI_PAUSE_INTERVAL_MS c),
     (''TUI_READY_CHECK_INTERVAL_MS'', TUI_READY_CHECK_INTERVAL_MS c),
     (''TUI_SMALL_PANEL_REFRESH_MS'', TUI_SMALL_PANEL_REFRESH_MS c)]"

definition entry_line :: "string \<times> int \<Rightarrow> string" where
  "entry_line = (\<lambda>(k, v). k @ ''='' @ show_nat (nat v) @ [nl])"

definition config_text :: "config \<Rightarrow> string" where
  "config_text c = concat (map entry_line (config_entries c))"

definition key_ok :: "string \<Rightarrow> bool" where
  "key_ok k \<longleftrightarrow> k \<noteq> [] \<and> length k < 100 \<and> hd k \<noteq> CHR ''#'' \<and> list_all (\<lambda>c. c_isupper c \<or> c = CHR ''_'') k"

lemma trim_no_space: "s \<noteq> [] \<Longrightarrow> \<not> c_isspace (hd s) \<Longrightarrow> \<not> c_isspace (last s) \<Longrightarrow> trim_whitespace s = s"
proof -
  assume a: "s \<noteq> []" "\<not> c_isspace (hd s)" "\<not> c_isspace (last s)"
  then have "dropWhile c_isspace s = s" by (cases s) auto
  moreover have "dropWhile c_isspace (rev s) = rev s"
    using a by (cases s rule: rev_cases) auto
  ultimately show ?thesis by (simp add: trim_whitespace_def)
qed

lemma key_char: "c_isupper c \<or> c = CHR ''_'' \<Longrightarrow> \<not> c_isspace c \<and> c \<noteq> CHR ''='' \<and> c \<noteq> nl"
  by (auto simp: char_simps)

lemma digit_char_ok: "c_isdigit c \<Longrightarrow> \<not> c_isspace c \<and> c \<noteq> CHR ''='' \<and> c \<noteq> nl"
  by (auto simp: char_simps)

lemma key_no_sep: "key_ok k \<Longrightarrow> CHR ''='' \<notin> set k \<and> nl \<notin> set k"
  unfolding key_ok_def list_all_iff using key_char by metis

lemma show_nat_no_sep: "CHR ''='' \<notin> set (show_nat n) \<and> nl \<notin> set (show_nat n)"
  by (metis digit_char_ok show_nat_digits)

lemma trim_key: "key_ok k \<Longrightarrow> trim_whitespace k = k"
  using key_char by (intro trim_no_space) (auto simp: key_ok_def list_all_iff)

lemma trim_show_nat: "trim_whitespace (show_nat n) = show_nat n"
  using show_nat_digits [of n] digit_char_ok by (intro trim_no_space) auto

lemma strtok_plain: "s \<noteq> [] \<Longrightarrow> CHR ''='' \<notin> set s \<Longrightarrow> c_strtok ''='' s = Some (s, [])"
proof -
  assume a: "s \<noteq> []" "CHR ''='' \<notin> set s"
  have "dropWhile (\<lambda>c. c \<in> set ''='') s = s" using a by (cases s) auto
  moreover have "takeWhile (\<lambda>c. c \<notin> set ''='') s = s" using a by (intro takeWhile_full) auto
  moreover have d: "dropWhile (\<lambda>c. c \<notin> set ''='') s = []" using a by (intro dropWhile_full) auto
  ultimately show ?thesis using a unfolding c_strtok_def Let_def by (simp only: d) simp
qed

lemma strtok_eq: "k \<noteq> [] \<Longrightarrow> CHR ''='' \<notin> set k \<Longrightarrow> c_strtok ''='' (k @ CHR ''='' # r) = Some (k, r)"
proof -
  assume a: "k \<noteq> []" "CHR ''='' \<notin> set k"
  have "dropWhile (\<lambda>c. c \<in> set ''='') (k @ CHR ''='' # r) = k @ CHR ''='' # r"
    using a by (cases k) auto
  moreover have "takeWhile (\<lambda>c. c \<notin> set ''='') (k @ CHR ''='' # r) = k"
    using a by (intro takeWhile_hit) auto
  moreover have "dropWhile (\<lambda>c. c \<notin> set ''='') (k @ CHR ''='' # r) = CHR ''='' # r"
    using a by (intro dropWhile_hit) auto
  ultimately show ?thesis by (simp add: c_strtok_def)
qed

text \<open>A line \<open>key=value\<close> with a plain key and a decimal value reaches the chain of comparisons as it is.\<close>

lemma config_line_entry:
  assumes k: "key_ok k" and ap: "apply_setting k (show_nat (nat v)) (n + 1) c = (c', [])"
  shows "config_line (c, n, ws) (entry_line (k, v)) = (c', n + 1, ws)"
proof -
  let ?v = "show_nat (nat v)"
  have kc: "\<forall>x\<in>set k. c_isupper x \<or> x = CHR ''_''" "k \<noteq> []" "hd k \<noteq> CHR ''#''"
    using k by (auto simp: key_ok_def list_all_iff)
  have neq: "CHR ''='' \<notin> set k" "nl \<notin> set k" "CHR ''='' \<notin> set ?v" "nl \<notin> set ?v"
    using key_no_sep [OF k] show_nat_no_sep [of "nat v"] by auto
  have "cut_nl (entry_line (k, v)) = k @ CHR ''='' # ?v"
    using neq cut_nl_line [of "k @ CHR ''='' # ?v"] by (simp add: entry_line_def)
  moreover have "hd (k @ CHR ''='' # ?v) \<noteq> CHR ''#''" using kc by (cases k) auto
  moreover have "c_strtok ''='' (k @ CHR ''='' # ?v) = Some (k, ?v)" using strtok_eq kc(2) neq(1) .
  moreover have "c_strtok ''='' ?v = Some (?v, [])" using strtok_plain neq(3) by simp
  ultimately show ?thesis
    using kc(2) ap by (simp add: config_line_def trim_key [OF k] trim_show_nat)
qed

lemma parse_bounded_show_nat:
  assumes "lo \<le> v" and "v \<le> hi" and "0 \<le> v" and "hi < 2 ^ 31"
  shows "parse_bounded_int (show_nat (nat v)) d lo hi name n = (v, [])"
proof -
  have "c_strtol (show_nat (nat v)) = (v, [], False)"
    using c_strtol_show_nat [of "nat v" "[]"] assms by (simp add: long_max_def)
  then show ?thesis using assms by (simp add: parse_bounded_int_def)
qed

lemma strcase_digits: "list_all (\<lambda>c. \<not> c_isdigit (c_tolower c)) w \<Longrightarrow> w \<noteq> [] \<Longrightarrow> \<not> c_strcaseeq (show_nat n) w"
proof
  assume a: "list_all (\<lambda>c. \<not> c_isdigit (c_tolower c)) w" "w \<noteq> []" "c_strcaseeq (show_nat n) w"
  obtain c t where s: "show_nat n = c # t" by (cases "show_nat n") auto
  have c: "c_isdigit c" using show_nat_digits [of n] s by simp
  then have "c_tolower c = c" by (auto simp: char_simps)
  then have "c = c_tolower (hd w)" using a(2,3) s by (cases w) (auto simp: c_strcaseeq_def)
  then show False using a(1,2) c by (cases w) auto
qed

lemma parse_bool_show_nat:
  assumes "v \<in> {0, 1}"
  shows "parse_bool (show_nat (nat v)) d name n = (v, [])"
proof -
  have "\<not> c_strcaseeq (show_nat (nat v)) ''true'' \<and> \<not> c_strcaseeq (show_nat (nat v)) ''yes''
      \<and> \<not> c_strcaseeq (show_nat (nat v)) ''on'' \<and> \<not> c_strcaseeq (show_nat (nat v)) ''false''
      \<and> \<not> c_strcaseeq (show_nat (nat v)) ''no'' \<and> \<not> c_strcaseeq (show_nat (nat v)) ''off''"
    by (intro conjI strcase_digits) (simp_all add: char_simps)
  then show ?thesis using assms parse_bounded_show_nat [of 0 v 1] by (auto simp: parse_bool_def)
qed

lemma atoi_show_nat: "0 \<le> v \<Longrightarrow> v < 2 ^ 31 \<Longrightarrow> c_atoi (show_nat (nat v)) = v"
  using c_strtol_show_nat [of "nat v" "[]"] by (simp add: c_atoi_def to_int32_id long_max_def)

lemma entry_line_lines:
  assumes "key_ok k" and "v < 2 ^ 31"
  shows "c_lines 256 (entry_line (k, v) @ s) = entry_line (k, v) # c_lines 256 s"
proof -
  have k: "nl \<notin> set k" "length k < 100"
    using assms(1) key_no_sep by (auto simp: key_ok_def)
  have "nl \<notin> set (show_nat (nat v))" using show_nat_no_sep by blast
  moreover have "length (show_nat (nat v)) \<le> 10"
    using assms(2) by (intro length_show_nat) auto
  ultimately show ?thesis
    using k c_lines_line [of "k @ CHR ''='' # show_nat (nat v)" 256 s] by (simp add: entry_line_def)
qed

lemma config_keys_ok: "\<forall>(k, v)\<in>set (config_entries c). key_ok k"
  by (simp add: config_entries_def key_ok_def char_simps)

lemma config_text_lines:
  assumes "\<forall>(k, v)\<in>set es. key_ok k \<and> v < 2 ^ 31"
  shows "c_lines 256 (concat (map entry_line es)) = map entry_line es"
  using assms by (induction es) (auto simp: entry_line_lines)

definition thresholds_ok :: "config \<Rightarrow> bool" where
  "thresholds_ok c \<longleftrightarrow> 0 \<le> TEMP_WARN_YELLOW c \<and> TEMP_WARN_YELLOW c < 2 ^ 31
                     \<and> 0 \<le> TEMP_WARN_RED c \<and> TEMP_WARN_RED c < 2 ^ 31"

lemma apply_entry:
  assumes "config_ok c" and "thresholds_ok c"
  shows "foldl config_line (c0, n, ws) (map entry_line (config_entries c)) = (c, n + 11, ws)"
proof -
  have keys: "key_ok ''TEMP_WARN_YELLOW''" "key_ok ''TEMP_WARN_RED''" "key_ok ''ALERT_MEMORY_WARN_PERCENT''"
    "key_ok ''ALERT_DISK_WARN_PERCENT''" "key_ok ''ALERT_REQUIRE_DEFAULT_ROUTE''" "key_ok ''ALERT_REQUIRE_DNS''"
    "key_ok ''SHOW_TOP_PANELS''" "key_ok ''TUI_REFRESH_INTERVAL_MS''" "key_ok ''TUI_PAUSE_INTERVAL_MS''"
    "key_ok ''TUI_READY_CHECK_INTERVAL_MS''" "key_ok ''TUI_SMALL_PANEL_REFRESH_MS''"
    using config_keys_ok [of c] by (simp_all add: config_entries_def)
  have r: "TEMP_WARN_YELLOW c < 2147483648" "TEMP_WARN_RED c < 2147483648" "0 \<le> TEMP_WARN_YELLOW c"
    "0 \<le> TEMP_WARN_RED c" using assms(2) by (simp_all add: thresholds_ok_def)
  show ?thesis
    unfolding config_entries_def list.map
    using assms(1) r
    by (simp add: config_ok_def config_line_entry keys apply_setting_def atoi_show_nat
        parse_bounded_show_nat parse_bool_show_nat)
qed

text \<open>C31. Writing out a configuration in the file format and reading it back gives the same configuration,
  with no warning, from any settings that were there before: every key is recognised, every value
  survives the round trip, and nothing of the earlier settings is left.\<close>

theorem config_roundtrip:
  assumes "config_ok c" and "thresholds_ok c" and "fs path = Some (config_text c)"
  shows "read_config fs path c0 = (c, [])"
proof -
  have "c_lines 256 (config_text c) = map entry_line (config_entries c)"
    unfolding config_text_def using assms(1,2) config_keys_ok [of c]
    by (intro config_text_lines) (auto simp: config_entries_def config_ok_def thresholds_ok_def)
  then show ?thesis
    using assms apply_entry [OF assms(1,2), of c0 0 "[]"] by (simp add: read_config_def)
qed

lemma config_roundtrip_witness:
  "read_config (\<lambda>_. Some (config_text config_default)) ''p''
     (config_default\<lparr>TUI_PAUSE_INTERVAL_MS := 25\<rparr>) = (config_default, [])"
  using config_roundtrip [OF config_default_ok, of "\<lambda>_. Some (config_text config_default)"]
  by (simp add: thresholds_ok_def config_default_def)

section \<open>Profiles stay in their directory\<close>

text \<open>C32. A profile path is always \<open>directory/NAME.cfg\<close> with the whole name as one path component: the
  name is not empty and holds no slash, so it cannot leave the profile directory; the path fits its
  buffer with the terminator; and the directory is exactly the one the environment names, the
  512-byte intermediate buffer never truncates it on a path that is accepted.\<close>

theorem profile_path_confined:
  assumes "build_profile_path env profile sz = Some path" and "sz \<le> 512"
  shows "\<exists>name d. profile = Some name \<and> name \<noteq> [] \<and> CHR ''/'' \<notin> set name
     \<and> path = d @ ''/'' @ name @ ''.cfg'' \<and> length path < sz
     \<and> (env ''TRAFX_PROFILE_DIR'' = Some d \<and> d \<noteq> []
        \<or> (\<exists>home. env ''HOME'' = Some home \<and> home \<noteq> [] \<and> d = home @ ''/.config/trafix/profiles''))"
proof -
  obtain name where name: "profile = Some name" "name \<noteq> []"
    and cs: "list_all (\<lambda>c. c_isalnum c \<or> c = CHR ''_'' \<or> c = CHR ''-'' \<or> c = CHR ''.'') name"
    using assms(1) by (auto simp: build_profile_path_def is_valid_profile_name_def split: if_splits option.splits)
  have slash: "CHR ''/'' \<notin> set name"
    using cs by (auto simp: list_all_iff char_simps)
  consider (dir) d where "env ''TRAFX_PROFILE_DIR'' = Some d" "d \<noteq> []"
      "length d + length name + 6 \<le> sz" "path = d @ ''/'' @ name @ ''.cfg''"
    | (home) h where "env ''HOME'' = Some h" "h \<noteq> []"
      "length (fit 512 (h @ ''/.config/trafix/profiles'')) + length name + 6 \<le> sz"
      "path = fit 512 (h @ ''/.config/trafix/profiles'') @ ''/'' @ name @ ''.cfg''"
    using assms(1) name(1)
    by (auto simp: build_profile_path_def Let_def split: if_splits option.splits)
  then show ?thesis
  proof cases
    case dir
    with name slash show ?thesis by (intro exI [of _ name] exI [of _ d]) auto
  next
    case home
    let ?d = "h @ ''/.config/trafix/profiles''"
    have "length (fit 512 ?d) < 511" using home(3) assms(2) by simp
    then have "length ?d < 512" by (auto simp: fit_def)
    then have "fit 512 ?d = ?d" by simp
    with home name slash show ?thesis by (intro exI [of _ name] exI [of _ ?d]) auto
  qed
qed

lemma profile_path_confined_witness:
  "build_profile_path [''HOME'' \<mapsto> ''/r''] (Some ''a..b'') 512 = Some ''/r/.config/trafix/profiles/a..b.cfg''
   \<and> CHR ''/'' \<notin> set ''a..b''"
proof -
  have h: "build_profile_path [''HOME'' \<mapsto> ''/r''] (Some ''a..b'') 512
      = Some ''/r/.config/trafix/profiles/a..b.cfg''"
    by (simp add: build_profile_path_def is_valid_profile_name_def char_simps fit_def)
  from profile_path_confined [OF h] show ?thesis using h by auto
qed

end
