(* ===== verification/ProcInfo.thy ===== *)
theory ProcInfo
  imports OsView CSort CFloat
begin

text \<open>
  \<open>src/trfx_procinfo.c\<close>: the table of processes, read from the output of \<open>ps\<close> and sorted by memory,
  processor share or process id. The columns are texts; the comparison of two rows converts them with
  \<open>atof\<close> or \<open>atoi\<close>.
\<close>

record ProcessInfo =
  pi_pid :: string
  pi_user :: string
  pi_pr :: string
  pi_ni :: string
  pi_virt :: string
  pi_res :: string
  pi_shr :: string
  pi_state :: string
  pi_cpu :: string
  pi_mem :: string
  pi_time :: string
  pi_command :: string

datatype SortType = SORT_BY_MEM | SORT_BY_CPU | SORT_BY_PID | SORT_MAX

datatype TrfxProcessCollectorStatus =
    TRFX_PROCESS_COLLECTOR_OK | TRFX_PROCESS_COLLECTOR_INVALID_ARGUMENT
  | TRFX_PROCESS_COLLECTOR_OPEN_FAILED | TRFX_PROCESS_COLLECTOR_READ_FAILED

text \<open>\<open>pr_processes\<close> are the first \<open>count\<close> rows of the array.\<close>

record TrfxProcessResult =
  pr_status :: TrfxProcessCollectorStatus
  pr_error :: string
  pr_processes :: "ProcessInfo list"

definition max_processes :: nat where "max_processes = 128"

section \<open>atof\<close>

text \<open>
  \<open>atof\<close> on a decimal text: an optional sign, digits, an optional fraction and an optional exponent,
  rounded to \<open>double\<close>. Hexadecimal texts, infinities and NaN, which \<open>ps\<close> does not print, are left out.
\<close>

definition frac_val :: "string \<Rightarrow> rat" where
  "frac_val ds = of_nat (dec_val ds) / 10 ^ length ds"

definition exponent_val :: "string \<Rightarrow> int" where
  "exponent_val s =
     (case s of [] \<Rightarrow> 0
      | c # t \<Rightarrow> if c = CHR ''e'' \<or> c = CHR ''E''
                  then (case split_sign t of (neg, body) \<Rightarrow>
                          let ds = takeWhile c_isdigit body
                          in if neg then - int (dec_val ds) else int (dec_val ds))
                  else 0)"

definition c_atof :: "string \<Rightarrow> rat" where
  "c_atof s =
     (case split_sign (dropWhile c_isspace s) of (neg, body) \<Rightarrow>
        let ip = takeWhile c_isdigit body;
            r1 = dropWhile c_isdigit body;
            dot = (r1 \<noteq> [] \<and> hd r1 = CHR ''.'');
            fp = (if dot then takeWhile c_isdigit (tl r1) else []);
            r2 = (if dot then dropWhile c_isdigit (tl r1) else r1)
        in if ip = [] \<and> fp = [] then 0
           else (let v = (of_nat (dec_val ip) + frac_val fp) * 10 powi (exponent_val r2)
                 in dbl (if neg then - v else v)))"

section \<open>Sorting\<close>

definition float_key :: "string \<Rightarrow> rat" where
  "float_key s = flt (c_atof s)"

definition compare_floats :: "rat \<Rightarrow> rat \<Rightarrow> int" where
  "compare_floats a b = (if a < b then 1 else 0) - (if b < a then 1 else 0)"

definition compare_by_mem :: "ProcessInfo \<Rightarrow> ProcessInfo \<Rightarrow> int" where
  "compare_by_mem p1 p2 = compare_floats (float_key (pi_mem p1)) (float_key (pi_mem p2))"

definition compare_by_cpu :: "ProcessInfo \<Rightarrow> ProcessInfo \<Rightarrow> int" where
  "compare_by_cpu p1 p2 = compare_floats (float_key (pi_cpu p1)) (float_key (pi_cpu p2))"

text \<open>The difference of two process ids, which are small enough for \<open>int\<close>.\<close>

definition compare_by_pid :: "ProcessInfo \<Rightarrow> ProcessInfo \<Rightarrow> int" where
  "compare_by_pid p1 p2 = c_atoi (pi_pid p1) - c_atoi (pi_pid p2)"

definition sort_processes :: "SortType \<Rightarrow> ProcessInfo list \<Rightarrow> ProcessInfo list" where
  "sort_processes sort_type list =
     (case sort_type of
        SORT_BY_MEM \<Rightarrow> c_qsort compare_by_mem list
      | SORT_BY_CPU \<Rightarrow> c_qsort compare_by_cpu list
      | SORT_BY_PID \<Rightarrow> c_qsort compare_by_pid list
      | SORT_MAX \<Rightarrow> list)"

section \<open>Reading ps\<close>

definition process_format :: "scan_dir list" where
  "process_format =
     [ScStr 15, ScWs, ScStr 31, ScWs, ScStr 3, ScWs, ScStr 3, ScWs, ScStr 15, ScWs, ScStr 15, ScWs, ScStr 15, ScWs,
      ScStr 1, ScWs, ScStr 7, ScWs, ScStr 7, ScWs, ScStr 15, ScWs, ScSet 63 (\<lambda>c. c \<noteq> nl)]"

fun scan_texts :: "scan_val list \<Rightarrow> string list" where
  "scan_texts [] = []"
| "scan_texts (ScText t # vs) = t # scan_texts vs"
| "scan_texts (ScNum _ # vs) = scan_texts vs"

text \<open>The row starts as zeros, so a column that is not matched stays empty.\<close>

definition process_line :: "string \<Rightarrow> ProcessInfo" where
  "process_line line =
     (let fs = scan_texts (c_sscanf process_format line); f = (\<lambda>i. if i < length fs then fs ! i else [])
      in \<lparr>pi_pid = f 0, pi_user = f 1, pi_pr = f 2, pi_ni = f 3, pi_virt = f 4, pi_res = f 5, pi_shr = f 6,
          pi_state = f 7, pi_cpu = f 8, pi_mem = f 9, pi_time = f 10, pi_command = f 11\<rparr>)"

definition ps_command :: string where
  "ps_command = ''ps -eo pid,user,pri,ni,vsize,rss,stat,pcpu,pmem,time,comm ''
     @ ''--sort=-pmem 2>/dev/null | head -n 50''"

definition trfx_collect_processes :: "os_view \<Rightarrow> SortType \<Rightarrow> TrfxProcessResult" where
  "trfx_collect_processes os sort_type =
     (case os_cmd os ps_command of
        None \<Rightarrow> \<lparr>pr_status = TRFX_PROCESS_COLLECTOR_OPEN_FAILED,
                  pr_error = fit 128 ''Process collector unavailable'', pr_processes = []\<rparr>
      | Some out \<Rightarrow>
          (case c_lines 512 out of
             [] \<Rightarrow> \<lparr>pr_status = TRFX_PROCESS_COLLECTOR_READ_FAILED,
                      pr_error = fit 128 ''Process data unavailable'', pr_processes = []\<rparr>
           | _ # ls \<Rightarrow> \<lparr>pr_status = TRFX_PROCESS_COLLECTOR_OK, pr_error = [],
                 pr_processes = sort_processes sort_type
                   (collect_rows max_processes (\<lambda>l. Some (process_line l)) ls [])\<rparr>))"

text \<open>\<open>list\<close> is the destination array before the call; the count and the array afterwards.\<close>

definition get_top_processes ::
  "os_view \<Rightarrow> ProcessInfo list option \<Rightarrow> int \<Rightarrow> SortType \<Rightarrow> int \<times> ProcessInfo list option" where
  "get_top_processes os list max_count sort_type =
     (case list of None \<Rightarrow> (0, None)
      | Some old \<Rightarrow>
          if max_count \<le> 0 then (0, Some old)
          else (let result = trfx_collect_processes os sort_type
                in if pr_status result \<noteq> TRFX_PROCESS_COLLECTOR_OK then (0, Some old)
                   else (let n = min (length (pr_processes result)) (nat max_count)
                         in (int n, Some (take n (pr_processes result) @ drop n old)))))"

section \<open>The order of the table\<close>

lemma compare_floats_order: "cmp_order (\<lambda>a b. compare_floats (f a) (f b))"
  by (auto simp: cmp_order_def compare_floats_def)

text \<open>\<open>row_before t p q\<close>: row \<open>p\<close> may stand before row \<open>q\<close> in a table sorted by \<open>t\<close>.\<close>

definition row_before :: "SortType \<Rightarrow> ProcessInfo \<Rightarrow> ProcessInfo \<Rightarrow> bool" where
  "row_before t p q =
     (case t of SORT_BY_MEM \<Rightarrow> float_key (pi_mem q) \<le> float_key (pi_mem p)
      | SORT_BY_CPU \<Rightarrow> float_key (pi_cpu q) \<le> float_key (pi_cpu p)
      | SORT_BY_PID \<Rightarrow> c_atoi (pi_pid p) \<le> c_atoi (pi_pid q)
      | SORT_MAX \<Rightarrow> True)"

lemma sort_processes_mset: "mset (sort_processes t ps) = mset ps"
  by (simp add: sort_processes_def qs.qs_mset split: SortType.splits)

lemma sort_processes_sorted: "sorted_wrt (row_before t) (sort_processes t ps)"
proof (cases t)
  case SORT_BY_MEM
  have "sorted_wrt (\<lambda>a b. compare_by_mem a b \<le> 0) (c_qsort compare_by_mem ps)"
    using compare_floats_order [of "\<lambda>p. float_key (pi_mem p)"]
    by (intro qs.qs_sorted) (simp add: compare_by_mem_def [abs_def])
  then show ?thesis
    unfolding SORT_BY_MEM sort_processes_def SortType.case
    by (rule sorted_wrt_mono_rel [rotated])
      (auto simp: row_before_def compare_by_mem_def compare_floats_def split: if_splits)
next
  case SORT_BY_CPU
  have "sorted_wrt (\<lambda>a b. compare_by_cpu a b \<le> 0) (c_qsort compare_by_cpu ps)"
    using compare_floats_order [of "\<lambda>p. float_key (pi_cpu p)"]
    by (intro qs.qs_sorted) (simp add: compare_by_cpu_def [abs_def])
  then show ?thesis
    unfolding SORT_BY_CPU sort_processes_def SortType.case
    by (rule sorted_wrt_mono_rel [rotated])
      (auto simp: row_before_def compare_by_cpu_def compare_floats_def split: if_splits)
next
  case SORT_BY_PID
  have "sorted_wrt (\<lambda>a b. compare_by_pid a b \<le> 0) (c_qsort compare_by_pid ps)"
    using cmp_order_rank [of "\<lambda>p. c_atoi (pi_pid p)"]
    by (intro qs.qs_sorted) (simp add: compare_by_pid_def [abs_def])
  then show ?thesis
    unfolding SORT_BY_PID sort_processes_def SortType.case
    by (rule sorted_wrt_mono_rel [rotated]) (auto simp: row_before_def compare_by_pid_def)
next
  case SORT_MAX
  then show ?thesis by (simp add: row_before_def sort_processes_def sorted_wrt_iff_nth_less)
qed

lemma collect_processes_rows:
  "collect_rows max_processes (\<lambda>l. Some (process_line l)) ls [] = map process_line (take max_processes ls)"
proof -
  have "List.map_filter (\<lambda>l. Some (process_line l)) ls = map process_line ls"
    by (induction ls) (simp_all add: List.map_filter_simps)
  then show ?thesis by (simp add: collect_rows_eq take_map)
qed

text \<open>C38. The process collector returns the rows of the first 128 lines of output after the header, sorted as
  requested: memory and processor share descending as numbers, process ids ascending, and it neither
  loses nor invents a row. Without output it reports the failure and an empty table.\<close>

theorem process_table_sorted:
  "case os_cmd os ps_command of
     None \<Rightarrow> pr_status (trfx_collect_processes os t) = TRFX_PROCESS_COLLECTOR_OPEN_FAILED
       \<and> pr_processes (trfx_collect_processes os t) = []
   | Some out \<Rightarrow>
       (if out = [] then pr_status (trfx_collect_processes os t) = TRFX_PROCESS_COLLECTOR_READ_FAILED
          \<and> pr_processes (trfx_collect_processes os t) = []
        else pr_status (trfx_collect_processes os t) = TRFX_PROCESS_COLLECTOR_OK
          \<and> mset (pr_processes (trfx_collect_processes os t))
              = mset (map process_line (take 128 (tl (c_lines 512 out))))
          \<and> sorted_wrt (row_before t) (pr_processes (trfx_collect_processes os t)))"
proof (cases "os_cmd os ps_command")
  case None
  then show ?thesis by (simp add: trfx_collect_processes_def)
next
  case (Some out)
  have "c_lines 512 out = [] \<longleftrightarrow> out = []"
    using c_lines_concat [of 512 out] by (cases "c_lines 512 out"; cases "out = []") auto
  then show ?thesis
    using Some
    by (cases "c_lines 512 out")
      (auto simp: trfx_collect_processes_def collect_processes_rows sort_processes_mset sort_processes_sorted,
        simp_all add: max_processes_def)
qed

section \<open>The columns\<close>

lemma scan_str_field:
  assumes "\<forall>c\<in>set ws. c_isspace c" "f \<noteq> []" "\<forall>c\<in>set f. \<not> c_isspace c" "length f \<le> w"
    and "r = [] \<or> c_isspace (hd r)"
  shows "c_sscanf (ScStr w # fs) (ws @ f @ r) = ScText f # c_sscanf fs r"
proof -
  have d: "dropWhile c_isspace (ws @ f @ r) = f @ r"
    using assms(1-3) by (intro dropWhile_stop) auto
  have "takeWhile (\<lambda>c. \<not> c_isspace c) (f @ r) = f"
    using assms(3,5) by (intro takeWhile_stop) auto
  moreover have "0 < w" using assms(2,4) by (cases f) auto
  ultimately show ?thesis using d assms(2,4) by simp
qed

lemma scan_ws_field:
  assumes "\<forall>c\<in>set ws. c_isspace c" "f \<noteq> []" "\<forall>c\<in>set f. \<not> c_isspace c"
  shows "c_sscanf (ScWs # fs) (ws @ f @ r) = c_sscanf fs (f @ r)"
proof -
  have "dropWhile c_isspace (ws @ f @ r) = f @ r" using assms by (intro dropWhile_stop) auto
  then show ?thesis by simp
qed

text \<open>A line of \<open>ps\<close>: the columns, each after its padding.\<close>

fun ps_line :: "nat list \<Rightarrow> string list \<Rightarrow> string" where
  "ps_line (n # ns) (f # fs) = replicate n CHR '' '' @ f @ ps_line ns fs"
| "ps_line _ _ = [nl]"

definition ps_field :: "nat \<Rightarrow> string \<Rightarrow> bool" where
  "ps_field w f \<longleftrightarrow> f \<noteq> [] \<and> length f \<le> w \<and> (\<forall>c\<in>set f. \<not> c_isspace c)"

lemma spaces: "\<forall>c\<in>set (replicate n CHR '' ''). c_isspace c"
  by (simp add: char_simps)

lemma ps_line_space: "0 < n \<Longrightarrow> c_isspace (hd (ps_line (n # ns) (f # fs)))"
  by (cases n) (simp_all add: char_simps)

lemma ps_line_end: "c_isspace (hd (ps_line [] []))"
  by (simp add: char_simps)

lemma scan_ps_first:
  assumes "ps_field w f" and "c_isspace (hd (ps_line ns gs))"
  shows "c_sscanf (ScStr w # fs) (ps_line (n # ns) (f # gs)) = ScText f # c_sscanf fs (ps_line ns gs)"
  using assms scan_str_field [OF spaces, of f w "ps_line ns gs" fs n] by (simp add: ps_field_def)

lemma scan_ps_next:
  assumes "ps_field w f" and "c_isspace (hd (ps_line ns gs))"
  shows "c_sscanf (ScWs # ScStr w # fs) (ps_line (n # ns) (f # gs)) = ScText f # c_sscanf fs (ps_line ns gs)"
  using assms scan_ws_field [OF spaces, of f "ScStr w # fs" n "ps_line ns gs"]
    scan_str_field [of "[]" f w "ps_line ns gs" fs]
  by (simp add: ps_field_def)

text \<open>A column that is read by two directives.\<close>

lemma scan_ps_split:
  assumes "ps_field 8 (c # cpu)" and "cpu \<noteq> []" and "c_isspace (hd (ps_line ns gs))"
  shows "c_sscanf (ScWs # ScStr 1 # ScWs # ScStr 7 # fs) (ps_line (n # ns) ((c # cpu) # gs))
      = ScText [c] # ScText cpu # c_sscanf fs (ps_line ns gs)"
proof -
  have "c_sscanf (ScWs # ScStr 1 # ScWs # ScStr 7 # fs) (ps_line (n # ns) ((c # cpu) # gs))
      = c_sscanf (ScStr 1 # ScWs # ScStr 7 # fs) ((c # cpu) @ ps_line ns gs)"
    using assms(1) scan_ws_field [OF spaces, of "c # cpu" _ n] by (simp add: ps_field_def del: c_sscanf.simps)
  also have "\<dots> = ScText [c] # c_sscanf (ScWs # ScStr 7 # fs) (cpu @ ps_line ns gs)"
    using assms(1) by (simp add: ps_field_def)
  also have "c_sscanf (ScWs # ScStr 7 # fs) (cpu @ ps_line ns gs) = ScText cpu # c_sscanf fs (ps_line ns gs)"
    using assms scan_ws_field [of "[]" cpu "ScStr 7 # fs"] scan_str_field [of "[]" cpu 7 "ps_line ns gs" fs]
    by (simp add: ps_field_def)
  finally show ?thesis .
qed

lemma scan_ps_last:
  assumes "ps_field 63 f"
  shows "c_sscanf [ScWs, ScSet 63 (\<lambda>c. c \<noteq> nl)] (ps_line [n] [f]) = [ScText f]"
proof -
  have "\<forall>c\<in>set f. c \<noteq> nl" using assms by (auto simp: ps_field_def char_simps)
  then have "takeWhile (\<lambda>c. c \<noteq> nl) (f @ [nl]) = f" by (intro takeWhile_hit) auto
  then show ?thesis
    using assms scan_ws_field [OF spaces, of f "[ScSet 63 (\<lambda>c. c \<noteq> nl)]" n "[nl]"] by (simp add: ps_field_def)
qed

text \<open>The columns of \<open>ps\<close> and the twelve fields of the format do not match: \<open>ps\<close> prints eleven columns.
  The state of the process lands in the field for shared memory, the field for the state gets the first
  character of the processor share, and the share itself loses that character, so a process that uses
  12.5 percent is listed with 2.5. The other columns arrive as printed.\<close>

lemma process_line_shifted:
  assumes "list_all (\<lambda>n. 0 < n) [n1, n2, n3, n4, n5, n6, n7, n8, n9, n10, n11]"
    and "ps_field 15 pid" "ps_field 31 user" "ps_field 3 pri" "ps_field 3 ni" "ps_field 15 vsz" "ps_field 15 rss"
      "ps_field 15 stat" "ps_field 8 (c # cpu)" "cpu \<noteq> []" "ps_field 7 mem" "ps_field 15 time" "ps_field 63 comm"
  shows "process_line (ps_line [n1, n2, n3, n4, n5, n6, n7, n8, n9, n10, n11]
           [pid, user, pri, ni, vsz, rss, stat, c # cpu, mem, time, comm])
   = \<lparr>pi_pid = pid, pi_user = user, pi_pr = pri, pi_ni = ni, pi_virt = vsz, pi_res = rss, pi_shr = stat,
      pi_state = [c], pi_cpu = cpu, pi_mem = mem, pi_time = time, pi_command = comm\<rparr>"
proof -
  have pos: "0 < n1" "0 < n2" "0 < n3" "0 < n4" "0 < n5" "0 < n6" "0 < n7" "0 < n8" "0 < n9" "0 < n10" "0 < n11"
    using assms(1) by simp_all
  have "scan_texts (c_sscanf process_format (ps_line [n1, n2, n3, n4, n5, n6, n7, n8, n9, n10, n11]
           [pid, user, pri, ni, vsz, rss, stat, c # cpu, mem, time, comm]))
      = [pid, user, pri, ni, vsz, rss, stat, [c], cpu, mem, time, comm]"
    unfolding process_format_def
    using assms(2-) pos
    by (simp add: scan_ps_first scan_ps_next scan_ps_split scan_ps_last ps_line_space
        del: ps_line.simps c_sscanf.simps One_nat_def)
  then show ?thesis by (simp add: process_line_def Let_def)
qed

lemma process_line_shifted_witness:
  "pi_cpu (process_line (ps_line [4, 1, 5, 3, 1, 2, 1, 5, 2, 1, 1]
      [''42'', ''root'', ''19'', ''0'', ''9000'', ''800'', ''Ss'', ''12.5'', ''0.1'', ''00:00:01'', ''vi''])) = ''2.5''"
  by (subst process_line_shifted) (simp_all add: ps_field_def char_simps)

end
