(* ===== verification/Utils.thy ===== *)
theory Utils
  imports CText CFloat
begin

text \<open>
  \<open>src/trfx_utils.c\<close>: formatting and clipping of the texts that the panels print. A pointer that the
  code compares with \<open>NULL\<close> is an option; a destination buffer is the text it holds, so a function
  that returns early leaves it as it was. A window is its size and the list of the texts printed
  into it, each with its row and column: the model keeps what reaches \<open>mvwprintw\<close>.
\<close>

definition format_bytes :: "rat \<Rightarrow> nat \<Rightarrow> string" where
  "format_bytes mb bufsize =
     (if 1024 \<le> mb then fit bufsize (fmt_fixed 1 (dbl (mb / 1024)) @ ''G'')
      else fit bufsize (fmt_fixed 0 mb @ ''M''))"

definition trfx_clip_text :: "string option \<Rightarrow> string option \<Rightarrow> nat \<Rightarrow> int \<Rightarrow> string option" where
  "trfx_clip_text src dest dest_size max_width =
     (case dest of None \<Rightarrow> None
      | Some old \<Rightarrow>
          if dest_size = 0 then Some old
          else (case src of None \<Rightarrow> Some []
                | Some s \<Rightarrow>
                    if max_width \<le> 0 then Some []
                    else let limit = (if dest_size \<le> nat max_width then dest_size - 1
                                      else nat max_width)
                         in Some (fit dest_size (take limit s))))"

definition trfx_format_endpoint_for_tui :: "string option \<Rightarrow> string option \<Rightarrow> nat \<Rightarrow> string option" where
  "trfx_format_endpoint_for_tui value buf bufsize =
     (case buf of None \<Rightarrow> None
      | Some old \<Rightarrow>
          if bufsize = 0 then Some old
          else (case value of None \<Rightarrow> Some (fit bufsize ''-'')
                | Some v \<Rightarrow>
                    if length v < bufsize then Some (fit bufsize v)
                    else if bufsize \<le> 4 then Some (fit bufsize (take (bufsize - 1) v))
                    else
                      (let plain = fit bufsize (take (bufsize - 4) v @ ''...'')
                       in case split_last (CHR '':'') v of
                            None \<Rightarrow> Some plain
                          | Some (before, after) \<Rightarrow>
                              let suffix = CHR '':'' # after
                              in if before \<noteq> [] \<and> length suffix + 4 < bufsize
                                 then Some (fit bufsize
                                   (take (bufsize - length suffix - 4) v @ ''...'' @ suffix))
                                 else Some plain)))"

text \<open>The two guards on a position of a window are the same in \<open>safe_mvwprintw\<close> and
  \<open>trfx_print_clipped\<close>.\<close>

record window =
  win_h :: int
  win_w :: int
  win_out :: "(int \<times> int \<times> string) list"

definition mvwprintw :: "window \<Rightarrow> int \<Rightarrow> int \<Rightarrow> string \<Rightarrow> window" where
  "mvwprintw win y x s = win\<lparr>win_out := win_out win @ [(y, x, s)]\<rparr>"

text \<open>\<open>buffer\<close> is the text that \<open>vsnprintf\<close> produced from the format and the arguments.\<close>

definition safe_mvwprintw :: "window \<Rightarrow> int \<Rightarrow> int \<Rightarrow> int \<Rightarrow> string \<Rightarrow> window" where
  "safe_mvwprintw win y x max_width formatted =
     (if y < 0 \<or> win_h win - 1 \<le> y \<or> x < 1 \<or> win_w win - 1 \<le> x then win
      else mvwprintw win y x
        (the (trfx_clip_text (Some (fit 1024 formatted)) (Some []) 1024 max_width)))"

definition trfx_print_clipped :: "window \<Rightarrow> int \<Rightarrow> int \<Rightarrow> string option \<Rightarrow> window" where
  "trfx_print_clipped win y x line =
     (if y < 0 \<or> win_h win - 1 \<le> y \<or> x < 1 \<or> win_w win - 1 \<le> x then win
      else mvwprintw win y x
        (the (trfx_clip_text line (Some []) 1024 (win_w win - x - 1))))"

text \<open>The loop of \<open>mvwhline\<close> blanks the rows between the borders.\<close>

definition trfx_clear_window_content :: "window option \<Rightarrow> window option" where
  "trfx_clear_window_content w =
     (case w of None \<Rightarrow> None
      | Some win \<Rightarrow>
          if win_h win < 3 \<or> win_w win < 3 then Some win
          else Some (fold (\<lambda>row v. mvwprintw v row 1 (replicate (nat (win_w win - 2)) CHR '' ''))
                       (map int [1..<nat (win_h win) - 1]) win))"

definition trfx_print_empty_state :: "window \<Rightarrow> string option \<Rightarrow> window" where
  "trfx_print_empty_state win message =
     (if win_h win < 3 \<or> win_w win < 4 then win
      else trfx_print_clipped win (win_h win div 2) 2
        (Some (case message of Some m \<Rightarrow> m | None \<Rightarrow> ''No data available'')))"

section \<open>Lengths\<close>

lemma clip_text_Some:
  "trfx_clip_text (Some s) (Some old) n w =
     (if n = 0 then Some old else Some (take (min (n - 1) (nat w)) s))"
  by (auto simp: trfx_clip_text_def fit_def Let_def min_def)

lemma clip_text_dest: "\<exists>t. trfx_clip_text src (Some old) n w = Some t"
  by (auto simp: trfx_clip_text_def Let_def split: option.splits)

lemma clip_text_length [buf_simps]:
  "0 < n \<Longrightarrow> trfx_clip_text src (Some old) n w = Some t \<Longrightarrow> length t < n \<and> int (length t) \<le> max 0 w"
  by (auto simp: trfx_clip_text_def fit_def Let_def split: option.splits if_splits)

lemma endpoint_length [buf_simps]:
  assumes "0 < n" and "trfx_format_endpoint_for_tui v (Some old) n = Some t"
  shows "length t < n"
  using assms
  by (auto simp: trfx_format_endpoint_for_tui_def Let_def length_fit split: option.splits if_splits prod.splits)

section \<open>Windows\<close>

text \<open>A text strictly between the four borders, and a window that differs from another one only by such texts.\<close>

definition text_inside :: "window \<Rightarrow> int \<times> int \<times> string \<Rightarrow> bool" where
  "text_inside win = (\<lambda>(y, x, s). 1 \<le> y \<and> y < win_h win - 1 \<and> 1 \<le> x \<and> x < win_w win - 1
                                    \<and> x + int (length s) \<le> win_w win - 1)"

definition adds_inside :: "window \<Rightarrow> window \<Rightarrow> bool" where
  "adds_inside win v \<longleftrightarrow> win_h v = win_h win \<and> win_w v = win_w win
     \<and> (\<forall>p\<in>set (win_out v). p \<in> set (win_out win) \<or> text_inside win p)"

lemma mvwprintw_size [simp]:
  "win_h (mvwprintw win y x s) = win_h win" "win_w (mvwprintw win y x s) = win_w win"
  by (simp_all add: mvwprintw_def)

lemma mvwprintw_out [simp]: "win_out (mvwprintw win y x s) = win_out win @ [(y, x, s)]"
  by (simp add: mvwprintw_def)

lemma text_inside_size:
  "win_h v = win_h win \<Longrightarrow> win_w v = win_w win \<Longrightarrow> text_inside v = text_inside win"
  by (simp add: text_inside_def)

lemma adds_refl: "adds_inside win win"
  by (simp add: adds_inside_def)

lemma adds_mvwprintw: "text_inside win (y, x, s) \<Longrightarrow> adds_inside win (mvwprintw win y x s)"
  by (simp add: adds_inside_def)

lemma adds_trans: "adds_inside win v \<Longrightarrow> adds_inside v u \<Longrightarrow> adds_inside win u"
  using text_inside_size [of v win] by (auto simp: adds_inside_def)

lemma print_clipped_size [simp]:
  "win_h (trfx_print_clipped win y x l) = win_h win" "win_w (trfx_print_clipped win y x l) = win_w win"
  by (simp_all add: trfx_print_clipped_def)

lemma print_clipped_inside: "1 \<le> y \<Longrightarrow> adds_inside win (trfx_print_clipped win y x l)"
proof -
  assume y: "1 \<le> y"
  obtain t where t: "trfx_clip_text l (Some []) 1024 (win_w win - x - 1) = Some t"
    using clip_text_dest by blast
  have "length t < 1024 \<and> int (length t) \<le> max 0 (win_w win - x - 1)"
    by (rule clip_text_length [OF _ t]) simp
  then show ?thesis
    using y t by (auto simp: trfx_print_clipped_def text_inside_def intro!: adds_refl adds_mvwprintw)
qed

lemma print_empty_state_inside: "adds_inside win (trfx_print_empty_state win m)"
proof (cases "win_h win < 3 \<or> win_w win < 4")
  case False
  then have "1 \<le> win_h win div 2" by presburger
  then show ?thesis using False by (simp add: trfx_print_empty_state_def print_clipped_inside del: One_nat_def)
qed (simp add: trfx_print_empty_state_def adds_refl)

lemma print_empty_state_size [simp]:
  "win_h (trfx_print_empty_state win m) = win_h win" "win_w (trfx_print_empty_state win m) = win_w win"
  by (simp_all add: trfx_print_empty_state_def)

lemma clear_fold_inside:
  assumes "3 \<le> win_w win" and "win_w v = win_w win" and "\<forall>r\<in>set rows. 1 \<le> r \<and> r < win_h v - 1"
  shows "adds_inside v (fold (\<lambda>row v. mvwprintw v row 1 (replicate (nat (win_w win - 2)) CHR '' '')) rows v)"
  using assms
proof (induction rows arbitrary: v)
  case (Cons r rows)
  then have "adds_inside v (mvwprintw v r 1 (replicate (nat (win_w win - 2)) CHR '' ''))"
    by (intro adds_mvwprintw) (simp add: text_inside_def)
  moreover have "adds_inside (mvwprintw v r 1 (replicate (nat (win_w win - 2)) CHR '' ''))
      (fold (\<lambda>row v. mvwprintw v row 1 (replicate (nat (win_w win - 2)) CHR '' '')) rows
        (mvwprintw v r 1 (replicate (nat (win_w win - 2)) CHR '' '')))"
    using Cons.prems by (intro Cons.IH) simp_all
  ultimately show ?case using adds_trans by simp
qed (simp add: adds_refl)

lemma clear_window_inside: "trfx_clear_window_content (Some win) = Some v \<Longrightarrow> adds_inside win v"
  by (auto simp: trfx_clear_window_content_def adds_refl intro!: clear_fold_inside split: if_splits) linarith

end
