(* ===== verification/PanelState.thy ===== *)
theory PanelState
  imports Bandwidth Actions Runtime SupportViews Config Focus ProcInfo Utils
begin

text \<open>
  The state of a panel thread of \<open>src/trfx_threads.c\<close> and its waits: the bandwidth report that the network panel
  shares with the support panel, the naps between two frames, and the flags that end a nap early. The other
  threads run while a thread sleeps: what they do to the shared state during its nap number \<open>k\<close> is
  the function \<open>others k\<close>, any function, so a fact that holds for every \<open>others\<close> holds for every schedule.
\<close>

section \<open>The shared bandwidth report\<close>

record bandwidth_state =
  bs_samples :: TrfxNetworkSampleBuffer
  bs_report :: TrfxBandwidthReport
  bs_initialized :: bool
  bs_focus :: int

text \<open>The static variables before the first operation are zero bytes.\<close>

definition bandwidth_state_start :: bandwidth_state where
  "bandwidth_state_start =
     \<lparr>bs_samples = \<lparr>sb_count = 0, sb_head = 0, sb_samples = replicate sample_history zero_sample\<rparr>,
      bs_report = \<lparr>br_mode = TRFX_BW_MODE_INTERFACE_FALLBACK, br_source = [], br_interface_rates = [], br_flows = []\<rparr>,
      bs_initialized = False, bs_focus = 0\<rparr>"

definition trfx_bandwidth_state_init :: "bandwidth_state \<Rightarrow> bandwidth_state" where
  "trfx_bandwidth_state_init s =
     (if \<not> bs_initialized s
      then s\<lparr>bs_samples := trfx_init_network_sample_buffer, bs_report := trfx_init_bandwidth_report,
             bs_initialized := True\<rparr>
      else s)"

definition visible_flows :: "TrfxBandwidthReport \<Rightarrow> int" where
  "visible_flows report = (if length (br_flows report) < 3 then int (length (br_flows report)) else 3)"

definition bandwidth_state_update ::
  "TrfxNetworkSampleBuffer option \<times> TrfxBandwidthReport option \<Rightarrow> bandwidth_state \<Rightarrow> bandwidth_state" where
  "bandwidth_state_update = (\<lambda>(samples, report) s.
     let s1 = (case samples of None \<Rightarrow> s | Some b \<Rightarrow> s\<lparr>bs_samples := b\<rparr>);
         s2 = (case report of None \<Rightarrow> s1 | Some r \<Rightarrow> s1\<lparr>bs_report := r\<rparr>);
         visible_count = visible_flows (bs_report s2)
     in if visible_count \<le> 0 then s2\<lparr>bs_focus := 0\<rparr>
        else if visible_count \<le> bs_focus s2 then s2\<lparr>bs_focus := visible_count - 1\<rparr> else s2)"

definition trfx_bandwidth_state_copy ::
  "bandwidth_state \<Rightarrow> (TrfxNetworkSampleBuffer \<times> TrfxBandwidthReport \<times> int) option" where
  "trfx_bandwidth_state_copy s =
     (if bs_initialized s then Some (bs_samples s, bs_report s, bs_focus s) else None)"

definition trfx_bandwidth_state_move_focus :: "int \<Rightarrow> bandwidth_state \<Rightarrow> bandwidth_state" where
  "trfx_bandwidth_state_move_focus delta s =
     (let visible_count = visible_flows (bs_report s)
      in if 0 < visible_count
         then (let f = bs_focus s + delta
               in s\<lparr>bs_focus := (if f < 0 then visible_count - 1 else if visible_count \<le> f then 0 else f)\<rparr>)
         else s)"

lemma visible_flows_bounds: "0 \<le> visible_flows r \<and> visible_flows r \<le> 3
    \<and> visible_flows r \<le> int (length (br_flows r))"
  by (simp add: visible_flows_def)

interpretation flow_focus: focus_panel "\<lambda>s. visible_flows (bs_report s)" bs_focus
  trfx_bandwidth_state_move_focus bandwidth_state_update
  by unfold_locales
    (auto simp: visible_flows_bounds trfx_bandwidth_state_move_focus_def bandwidth_state_update_def Let_def
      split: option.splits prod.splits)

section \<open>The state of a thread\<close>

text \<open>
  The shared state (with the static buffer of the hardware address), the thread's own samples, its stop flag
  (\<open>None\<close> where it has none), its window, and the naps it has taken, in milliseconds, oldest first.
\<close>

record thread_state =
  th_runtime :: TrfxRuntimeState
  th_cfg :: config
  th_sort :: SortType
  th_views :: support_view_state
  th_bandwidth :: bandwidth_state
  th_connections :: connection_focus_state
  th_audit :: audit_log
  th_mac :: string
  th_samples :: TrfxNetworkSampleBuffer
  th_stop :: "int option"
  th_win :: window
  th_naps :: "int list"

type_synonym others = "nat \<Rightarrow> thread_state \<Rightarrow> thread_state"

definition usleep :: "others \<Rightarrow> int \<Rightarrow> thread_state \<Rightarrow> thread_state" where
  "usleep others ms s = (others (length (th_naps s)) s)\<lparr>th_naps := th_naps s @ [ms]\<rparr>"

lemma usleep_naps [simp]: "th_naps (usleep others ms s) = th_naps s @ [ms]"
  by (simp add: usleep_def)

definition panel_has_room :: "int \<Rightarrow> int \<Rightarrow> bool" where
  "panel_has_room row max_lines \<longleftrightarrow> row < max_lines"

definition runtime_stops :: "thread_state \<Rightarrow> bool" where
  "runtime_stops s \<longleftrightarrow> trfx_runtime_should_stop (th_runtime s) \<noteq> 0"

definition trfx_thread_should_stop :: "thread_state \<Rightarrow> bool" where
  "trfx_thread_should_stop s \<longleftrightarrow>
     runtime_stops s \<or> (case th_stop s of None \<Rightarrow> False | Some v \<Rightarrow> v \<noteq> 0)"

section \<open>Naps\<close>

definition nap :: "int \<Rightarrow> int \<Rightarrow> int" where
  "nap step_ms remaining = (if remaining < step_ms then remaining else step_ms)"

function sleep_loop :: "others \<Rightarrow> int \<Rightarrow> int \<Rightarrow> thread_state \<Rightarrow> thread_state" where
  "sleep_loop others milliseconds elapsed s =
     (if \<not> runtime_stops s \<and> elapsed < milliseconds
      then sleep_loop others milliseconds (elapsed + nap 100 (milliseconds - elapsed))
             (usleep others (nap 100 (milliseconds - elapsed)) s)
      else s)"
  by pat_completeness auto
termination by (relation "measure (\<lambda>(_, ms, e, _). nat (ms - e))") (auto simp: nap_def)

definition trfx_thread_sleep_ms :: "others \<Rightarrow> int \<Rightarrow> thread_state \<Rightarrow> bool \<times> thread_state" where
  "trfx_thread_sleep_ms others milliseconds s =
     (let s' = sleep_loop others milliseconds 0 s in (runtime_stops s', s'))"

function dynamic_sleep_loop :: "others \<Rightarrow> int \<Rightarrow> int \<Rightarrow> thread_state \<Rightarrow> thread_state" where
  "dynamic_sleep_loop others milliseconds elapsed s =
     (if \<not> trfx_thread_should_stop s \<and> elapsed < milliseconds
      then dynamic_sleep_loop others milliseconds (elapsed + nap 25 (milliseconds - elapsed))
             (usleep others (nap 25 (milliseconds - elapsed)) s)
      else s)"
  by pat_completeness auto
termination by (relation "measure (\<lambda>(_, ms, e, _). nat (ms - e))") (auto simp: nap_def)

definition trfx_dynamic_thread_sleep_ms :: "others \<Rightarrow> int \<Rightarrow> thread_state \<Rightarrow> bool \<times> thread_state" where
  "trfx_dynamic_thread_sleep_ms others milliseconds s =
     (let s' = dynamic_sleep_loop others milliseconds 0 s in (trfx_thread_should_stop s', s'))"

text \<open>Consuming the refresh request of a module, and that of the support views: the answer and the state.\<close>

definition take_refresh :: "int \<Rightarrow> thread_state \<Rightarrow> int \<times> thread_state" where
  "take_refresh m s =
     (case trfx_runtime_consume_static_refresh m (th_runtime s) of (r, rt) \<Rightarrow> (r, s\<lparr>th_runtime := rt\<rparr>))"

definition take_view_request :: "thread_state \<Rightarrow> int \<times> thread_state" where
  "take_view_request s =
     (case trfx_support_view_consume_refresh_request (th_views s) of (r, vs) \<Rightarrow> (r, s\<lparr>th_views := vs\<rparr>))"

text \<open>The loop of \<open>trfx_wait_for_static_refresh\<close>; \<open>True\<close> is its early return.\<close>

function refresh_loop :: "others \<Rightarrow> int \<Rightarrow> int \<Rightarrow> int \<Rightarrow> thread_state \<Rightarrow> bool \<times> thread_state" where
  "refresh_loop others m milliseconds elapsed s =
     (if \<not> runtime_stops s \<and> elapsed < milliseconds
      then (if fst (take_refresh m s) \<noteq> 0 then (True, snd (take_refresh m s))
            else refresh_loop others m milliseconds (elapsed + nap 25 (milliseconds - elapsed))
                   (usleep others (nap 25 (milliseconds - elapsed)) (snd (take_refresh m s))))
      else (False, s))"
  by pat_completeness auto
termination by (relation "measure (\<lambda>(_, _, ms, e, _). nat (ms - e))") (auto simp: nap_def)

definition trfx_wait_for_static_refresh :: "others \<Rightarrow> int \<Rightarrow> int \<Rightarrow> thread_state \<Rightarrow> int \<times> thread_state" where
  "trfx_wait_for_static_refresh others m milliseconds s =
     (case refresh_loop others m milliseconds 0 s of
        (early, s') \<Rightarrow> if early then (1, s') else take_refresh m s')"

text \<open>The wait at the end of the process and the support thread.\<close>

function view_wait_loop :: "others \<Rightarrow> int \<Rightarrow> int \<Rightarrow> thread_state \<Rightarrow> thread_state" where
  "view_wait_loop others milliseconds elapsed s =
     (if \<not> trfx_thread_should_stop s \<and> elapsed < milliseconds
      then (if fst (take_view_request s) \<noteq> 0 then snd (take_view_request s)
            else view_wait_loop others milliseconds (elapsed + 25) (usleep others 25 (snd (take_view_request s))))
      else s)"
  by pat_completeness auto
termination by (relation "measure (\<lambda>(_, ms, e, _). nat (ms - e))") auto

declare sleep_loop.simps [simp del] dynamic_sleep_loop.simps [simp del] refresh_loop.simps [simp del]
  view_wait_loop.simps [simp del]

text \<open>This loop need not end: it waits for the dashboard.\<close>

partial_function (option) wait_until_ready :: "others \<Rightarrow> thread_state \<Rightarrow> thread_state option" where
  "wait_until_ready others s =
     (if trfx_runtime_is_ready (th_runtime s) = 0 \<and> \<not> runtime_stops s
      then wait_until_ready others (usleep others (TUI_READY_CHECK_INTERVAL_MS (th_cfg s)) s)
      else Some s)"

section \<open>What a wait guarantees\<close>

text \<open>
  The naps that a wait takes when nothing ends it early: of \<open>step\<close> milliseconds each, with a shorter last one to
  make up the time exactly, or with a whole last one.
\<close>

definition exact_naps :: "int \<Rightarrow> int \<Rightarrow> int list" where
  "exact_naps step ms = replicate (nat (ms div step)) step @ (if 0 < ms \<and> ms mod step \<noteq> 0 then [ms mod step] else [])"

definition whole_naps :: "int \<Rightarrow> int \<Rightarrow> int list" where
  "whole_naps step ms = replicate (nat ((ms + step - 1) div step)) step"

definition after_naps :: "others \<Rightarrow> int list \<Rightarrow> thread_state \<Rightarrow> thread_state" where
  "after_naps others ds s = fold (usleep others) ds s"

text \<open>A wait takes \<open>k\<close> of the naps \<open>ds\<close>: before each of them nothing ends it, and if it leaves some out, something does.\<close>

definition takes_naps :: "others \<Rightarrow> int list \<Rightarrow> (thread_state \<Rightarrow> bool) \<Rightarrow> thread_state \<Rightarrow> nat \<Rightarrow> bool" where
  "takes_naps others ds ends s k \<longleftrightarrow> k \<le> length ds \<and> (\<forall>i<k. \<not> ends (after_naps others (take i ds) s))
     \<and> (k < length ds \<longrightarrow> ends (after_naps others (take k ds) s))"

lemma takes_naps_now: "ends s \<or> ds = [] \<Longrightarrow> takes_naps others ds ends s 0"
  by (auto simp: takes_naps_def after_naps_def)

lemma takes_naps_Suc:
  "\<not> ends s \<Longrightarrow> takes_naps others ds ends (usleep others d s) k \<Longrightarrow> takes_naps others (d # ds) ends s (Suc k)"
  by (auto simp: takes_naps_def after_naps_def less_Suc_eq_0_disj)

lemma exact_naps_over: "0 < step \<Longrightarrow> ms \<le> 0 \<Longrightarrow> exact_naps step ms = []"
  by (auto simp: exact_naps_def div_nonpos_pos_le0)

lemma exact_naps_nap:
  assumes "0 < step" and "0 < ms"
  shows "exact_naps step ms = nap step ms # exact_naps step (ms - nap step ms)"
proof (cases "ms < step")
  case True
  then show ?thesis using assms by (simp add: exact_naps_def nap_def)
next
  case False
  then have "step \<le> ms" by simp
  have div: "ms div step = 1 + (ms - step) div step" using assms \<open>step \<le> ms\<close> by (simp add: div_pos_geq)
  have mod: "ms mod step = (ms - step) mod step" by simp
  have "0 \<le> (ms - step) div step" using assms \<open>step \<le> ms\<close> by (simp add: pos_imp_zdiv_nonneg_iff)
  then have nat: "nat (ms div step) = Suc (nat ((ms - step) div step))" unfolding div by simp
  have rest: "(0 < ms \<and> ms mod step \<noteq> 0) = (0 < ms - step \<and> (ms - step) mod step \<noteq> 0)"
  proof (cases "ms = step")
    case True
    then show ?thesis by simp
  next
    case False
    then show ?thesis using \<open>step \<le> ms\<close> assms mod by simp
  qed
  have "nap step ms = step" using False by (simp add: nap_def)
  then show ?thesis unfolding exact_naps_def nat rest by simp
qed

lemma whole_naps_over: "0 < step \<Longrightarrow> ms \<le> 0 \<Longrightarrow> whole_naps step ms = []"
  by (cases "ms + step - 1 < 0") (auto simp: whole_naps_def div_nonpos_pos_le0 div_pos_pos_trivial)

lemma whole_naps_nap:
  assumes "0 < step" and "0 < ms"
  shows "whole_naps step ms = step # whole_naps step (ms - step)"
proof -
  have "(ms + step - 1) div step = 1 + (ms - step + step - 1) div step" "0 \<le> (ms - step + step - 1) div step"
    using assms by (simp_all add: div_pos_geq pos_imp_zdiv_nonneg_iff)
  then have "nat ((ms + step - 1) div step) = Suc (nat ((ms - step + step - 1) div step))" by simp
  then show ?thesis by (simp add: whole_naps_def)
qed

text \<open>
  The four loops are instances of one: it leaves when \<open>stop\<close> holds or the time is over, it takes a
  request, and leaves when there was one, and otherwise sleeps for a step.
\<close>

locale polling =
  fixes loop :: "int \<Rightarrow> thread_state \<Rightarrow> thread_state"
    and others :: others
    and ms :: int
    and stop :: "thread_state \<Rightarrow> bool"
    and woken :: "thread_state \<Rightarrow> bool"
    and taken :: "thread_state \<Rightarrow> thread_state"
    and step_nap :: "int \<Rightarrow> int"
    and plan :: "int \<Rightarrow> int list"
  assumes nap_positive: "0 < r \<Longrightarrow> 0 < step_nap r"
    and plan_over: "r \<le> 0 \<Longrightarrow> plan r = []"
    and plan_nap: "0 < r \<Longrightarrow> plan r = step_nap r # plan (r - step_nap r)"
    and taken_naps: "th_naps (taken s) = th_naps s"
    and taken_idle: "\<not> woken s \<Longrightarrow> taken s = s"
    and seen: "stop (s\<lparr>th_naps := ds\<rparr>) = stop s" "woken (s\<lparr>th_naps := ds\<rparr>) = woken s"
    and loop_unfold: "loop elapsed s =
      (if \<not> stop s \<and> elapsed < ms
       then (if woken s then taken s
             else loop (elapsed + step_nap (ms - elapsed)) (usleep others (step_nap (ms - elapsed)) (taken s)))
       else s)"
begin

lemma loop_induct [case_names over woken nap]:
  assumes over: "\<And>e s. stop s \<or> ms \<le> e \<Longrightarrow> P e s"
    and woken: "\<And>e s. \<not> stop s \<Longrightarrow> e < ms \<Longrightarrow> woken s \<Longrightarrow> P e s"
    and nap: "\<And>e s. \<not> stop s \<Longrightarrow> e < ms \<Longrightarrow> \<not> woken s
      \<Longrightarrow> P (e + step_nap (ms - e)) (usleep others (step_nap (ms - e)) (taken s)) \<Longrightarrow> P e s"
  shows "P e s"
proof (induction "nat (ms - e)" arbitrary: e s rule: less_induct)
  case (less e s)
  consider "stop s \<or> ms \<le> e" | "\<not> stop s" "e < ms" "woken s" | "\<not> stop s" "e < ms" "\<not> woken s"
    by linarith
  then show ?case
  proof cases
    case 1
    then show ?thesis by (rule over)
  next
    case 2
    then show ?thesis by (rule woken)
  next
    case 3
    then have "nat (ms - (e + step_nap (ms - e))) < nat (ms - e)" using nap_positive [of "ms - e"] by simp
    then show ?thesis by (intro nap [OF 3] less)
  qed
qed

lemma loop_over: "stop s \<or> ms \<le> e \<Longrightarrow> loop e s = s"
  by (subst loop_unfold) auto

lemma loop_woken: "\<not> stop s \<Longrightarrow> e < ms \<Longrightarrow> woken s \<Longrightarrow> loop e s = taken s"
  by (subst loop_unfold) auto

lemma loop_nap: "\<not> stop s \<Longrightarrow> e < ms \<Longrightarrow> \<not> woken s
    \<Longrightarrow> loop e s = loop (e + step_nap (ms - e)) (usleep others (step_nap (ms - e)) (taken s))"
  by (subst loop_unfold) auto

lemmas loop_rounds = loop_over loop_woken loop_nap

lemma naps_grow: "\<exists>ds. th_naps (loop e s) = th_naps s @ ds"
  by (induction e s rule: loop_induct) (auto simp: loop_rounds taken_naps)

text \<open>A wait takes the naps of its plan up to the first state that ends it, and nothing but these.\<close>

lemma loop_exact:
  "\<exists>k. takes_naps others (plan (ms - e)) (\<lambda>t. stop t \<or> woken t) s k
     \<and> loop e s = (let t = after_naps others (take k (plan (ms - e))) s
                   in if k < length (plan (ms - e)) \<and> \<not> stop t then taken t else t)"
proof (induction e s rule: loop_induct)
  case (over e s)
  then have "stop s \<or> plan (ms - e) = []" using plan_over [of "ms - e"] by auto
  then show ?case
    using takes_naps_now [of "\<lambda>t. stop t \<or> woken t" s "plan (ms - e)" others] over
    by (intro exI [of _ 0]) (auto simp: loop_over after_naps_def)
next
  case (woken e s)
  then have "0 < length (plan (ms - e))" using plan_nap [of "ms - e"] by simp
  then show ?case
    using takes_naps_now [of "\<lambda>t. stop t \<or> woken t" s "plan (ms - e)" others] woken
    by (intro exI [of _ 0]) (auto simp: loop_woken after_naps_def)
next
  case (nap e s)
  let ?d = "step_nap (ms - e)"
  have plan: "plan (ms - e) = ?d # plan (ms - (e + ?d))" using plan_nap [of "ms - e"] nap.hyps by (simp add: diff_diff_add)
  have idle: "taken s = s" using taken_idle nap.hyps(3) .
  from nap.IH [unfolded idle] obtain k where k:
    "takes_naps others (plan (ms - (e + ?d))) (\<lambda>t. stop t \<or> woken t) (usleep others ?d s) k"
    "loop (e + ?d) (usleep others ?d s) = (let t = after_naps others (take k (plan (ms - (e + ?d)))) (usleep others ?d s)
       in if k < length (plan (ms - (e + ?d))) \<and> \<not> stop t then taken t else t)" by blast
  have "takes_naps others (plan (ms - e)) (\<lambda>t. stop t \<or> woken t) s (Suc k)"
    unfolding plan using nap.hyps k(1) by (intro takes_naps_Suc) simp_all
  moreover have "loop e s = loop (e + ?d) (usleep others ?d s)" using loop_nap [OF nap.hyps] idle by simp
  ultimately show ?case unfolding plan by (intro exI [of _ "Suc k"]) (simp add: k(2) after_naps_def)
qed

text \<open>What every nap and every request keeps holds at the end; a wait that is neither stopped nor woken at once naps.\<close>

lemma loop_invariant:
  assumes "\<And>d s. P s \<Longrightarrow> P (usleep others d s)" and "\<And>s. P s \<Longrightarrow> P (taken s)"
  shows "P s \<Longrightarrow> P (loop e s)"
proof (induction e s rule: loop_induct)
  case (nap e s)
  then show ?case using assms by (simp add: loop_nap)
qed (use assms in \<open>simp_all add: loop_over loop_woken\<close>)

lemma naps_kept: "length (th_naps s) \<le> length (th_naps (loop e s))"
  using naps_grow [of e s] by auto

lemma loop_progress:
  "\<not> stop s \<Longrightarrow> e < ms \<Longrightarrow> \<not> woken s \<Longrightarrow> length (th_naps s) < length (th_naps (loop e s))"
  using naps_kept [of "usleep others (step_nap (ms - e)) (taken s)" "e + step_nap (ms - e)"]
  by (simp add: loop_nap taken_naps)

text \<open>A stop or a request that the other threads make during nap \<open>k\<close> ends the wait with that nap.\<close>

lemma noticed:
  assumes "\<forall>t. stop (others k t) \<or> woken (others k t)" and "length (th_naps s) \<le> k"
  shows "length (th_naps (loop e s)) \<le> Suc k"
  using assms(2)
proof (induction e s rule: loop_induct)
  case (nap e s)
  let ?t = "usleep others (step_nap (ms - e)) (taken s)"
  show ?case
  proof (cases "length (th_naps s) = k")
    case True
    then have "stop ?t \<or> woken ?t"
      using assms(1) by (simp add: usleep_def taken_naps seen)
    then have "th_naps (loop (e + step_nap (ms - e)) ?t) = th_naps ?t"
      by (cases "stop ?t \<or> ms \<le> e + step_nap (ms - e)") (auto simp: loop_over loop_woken taken_naps)
    then show ?thesis using nap.hyps True by (simp add: loop_nap taken_naps)
  next
    case False
    then show ?thesis using nap by (simp add: loop_nap taken_naps)
  qed
qed (simp_all add: loop_over loop_woken taken_naps)

end

lemma nap_positive: "0 < step \<Longrightarrow> 0 < r \<Longrightarrow> 0 < nap step r"
  by (simp add: nap_def)

interpretation plain_sleep: polling "sleep_loop others ms" others ms runtime_stops "\<lambda>_. False" "\<lambda>s. s"
  "nap 100" "exact_naps 100" for others ms
  by unfold_locales
    (simp_all add: nap_positive exact_naps_over exact_naps_nap runtime_stops_def sleep_loop.simps [of others ms])

interpretation dynamic_sleep: polling "dynamic_sleep_loop others ms" others ms trfx_thread_should_stop
  "\<lambda>_. False" "\<lambda>s. s" "nap 25" "exact_naps 25" for others ms
  by unfold_locales
    (simp_all add: nap_positive exact_naps_over exact_naps_nap runtime_stops_def trfx_thread_should_stop_def
      dynamic_sleep_loop.simps [of others ms])

lemma take_refresh_naps [simp]: "th_naps (snd (take_refresh m s)) = th_naps s"
  by (simp add: take_refresh_def split: prod.splits)

lemma take_refresh_seen [simp]: "fst (take_refresh m (s\<lparr>th_naps := ds\<rparr>)) = fst (take_refresh m s)"
  by (simp add: take_refresh_def split: prod.splits)

lemma take_view_naps [simp]: "th_naps (snd (take_view_request s)) = th_naps s"
  by (simp add: take_view_request_def split: prod.splits)

lemma take_view_seen [simp]: "fst (take_view_request (s\<lparr>th_naps := ds\<rparr>)) = fst (take_view_request s)"
  by (simp add: take_view_request_def split: prod.splits)

text \<open>Where there is no request, nothing changes.\<close>

lemma take_refresh_idle: "fst (take_refresh m s) = 0 \<Longrightarrow> snd (take_refresh m s) = s"
proof -
  have "fs[i := 0] = fs" if "fs ! i = 0" for fs :: "int list" and i by (metis list_update_id that)
  then show "fst (take_refresh m s) = 0 \<Longrightarrow> snd (take_refresh m s) = s"
    by (auto simp: take_refresh_def trfx_runtime_consume_static_refresh_def split: prod.splits if_splits)
qed

lemma take_view_idle: "fst (take_view_request s) = 0 \<Longrightarrow> snd (take_view_request s) = s"
  by (auto simp: take_view_request_def trfx_support_view_consume_refresh_request_def split: prod.splits if_splits)

interpretation refresh_wait: polling "\<lambda>e s. snd (refresh_loop others m ms e s)" others ms runtime_stops
  "\<lambda>s. fst (take_refresh m s) \<noteq> 0" "\<lambda>s. snd (take_refresh m s)" "nap 25" "exact_naps 25" for others m ms
  by unfold_locales
    (simp_all add: nap_positive exact_naps_over exact_naps_nap take_refresh_idle runtime_stops_def
      refresh_loop.simps [of others m ms])

interpretation view_wait: polling "view_wait_loop others ms" others ms trfx_thread_should_stop
  "\<lambda>s. fst (take_view_request s) \<noteq> 0" "\<lambda>s. snd (take_view_request s)" "\<lambda>_. 25" "whole_naps 25" for others ms
  by unfold_locales
    (simp_all add: whole_naps_over whole_naps_nap take_view_idle runtime_stops_def trfx_thread_should_stop_def
      view_wait_loop.simps [of others ms])

section \<open>The waits of the threads\<close>

lemma exact_naps_sum: "0 < step \<Longrightarrow> sum_list (exact_naps step ms) = max 0 ms"
proof -
  assume step: "0 < step"
  show ?thesis
  proof (cases "0 < ms")
    case True
    then have "0 \<le> ms div step" using step by (simp add: pos_imp_zdiv_nonneg_iff)
    then have "sum_list (exact_naps step ms) = ms div step * step + ms mod step"
      using True by (cases "ms mod step = 0") (simp_all add: exact_naps_def sum_list_replicate)
    moreover have "ms div step * step + ms mod step = ms" by simp
    ultimately show ?thesis using True by simp
  next
    case False
    then show ?thesis using exact_naps_over [OF step, of ms] by simp
  qed
qed

lemma exact_naps_range: "0 < step \<Longrightarrow> d \<in> set (exact_naps step ms) \<Longrightarrow> 0 < d \<and> d \<le> step"
  using pos_mod_bound [of step ms] pos_mod_sign [of step ms]
  by (auto simp: exact_naps_def less_le split: if_splits)

lemma whole_naps_sum:
  assumes "0 < step"
  shows "max 0 ms \<le> sum_list (whole_naps step ms) \<and> sum_list (whole_naps step ms) < max 0 ms + step"
proof (cases "0 < ms")
  case True
  then have "0 \<le> (ms + step - 1) div step" using assms by (simp add: pos_imp_zdiv_nonneg_iff)
  then have "sum_list (whole_naps step ms) = (ms + step - 1) div step * step"
    by (simp add: whole_naps_def sum_list_replicate)
  moreover have "(ms + step - 1) div step * step + (ms + step - 1) mod step = ms + step - 1" by simp
  ultimately show ?thesis
    using True assms pos_mod_bound [of step "ms + step - 1"] pos_mod_sign [of step "ms + step - 1"] by linarith
next
  case False
  then show ?thesis using whole_naps_over [OF assms, of ms] assms by simp
qed

text \<open>What the answer of \<open>trfx_wait_for_static_refresh\<close> says: there was a request where the wait ended, now taken.\<close>

lemma refresh_wait_exact:
  "\<exists>k. takes_naps others (exact_naps 25 (ms - e)) (\<lambda>t. runtime_stops t \<or> fst (take_refresh m t) \<noteq> 0) s k
     \<and> (let t = after_naps others (take k (exact_naps 25 (ms - e))) s;
            w = (case refresh_loop others m ms e s of (early, s') \<Rightarrow> if early then (1, s') else take_refresh m s')
        in snd w = snd (take_refresh m t) \<and> (fst w \<noteq> 0 \<longleftrightarrow> fst (take_refresh m t) \<noteq> 0))"
proof (induction others m ms e s rule: refresh_loop.induct)
  case (1 others m ms e s)
  let ?ends = "\<lambda>t. runtime_stops t \<or> fst (take_refresh m t) \<noteq> 0"
  show ?case
  proof (cases "\<not> runtime_stops s \<and> e < ms \<and> fst (take_refresh m s) = 0")
    case True
    let ?d = "nap 25 (ms - e)"
    have plan: "exact_naps 25 (ms - e) = ?d # exact_naps 25 (ms - (e + ?d))"
      using exact_naps_nap [of 25 "ms - e"] True by (simp add: diff_diff_add)
    have idle: "snd (take_refresh m s) = s" using True take_refresh_idle by blast
    have unf: "refresh_loop others m ms e s = refresh_loop others m ms (e + ?d) (usleep others ?d s)"
      using True idle by (subst refresh_loop.simps) simp
    have "\<not> ?ends s" using True by simp
    note Suc = takes_naps_Suc [of ?ends, OF this]
    from 1 [of] True idle obtain k where
      "takes_naps others (exact_naps 25 (ms - (e + ?d))) ?ends (usleep others ?d s) k"
      "let t = after_naps others (take k (exact_naps 25 (ms - (e + ?d)))) (usleep others ?d s);
           w = (case refresh_loop others m ms (e + ?d) (usleep others ?d s) of (early, s') \<Rightarrow> if early then (1, s') else take_refresh m s')
       in snd w = snd (take_refresh m t) \<and> (fst w \<noteq> 0 \<longleftrightarrow> fst (take_refresh m t) \<noteq> 0)"
      by auto
    then show ?thesis
      unfolding plan unf using Suc by (intro exI [of _ "Suc k"]) (simp add: after_naps_def)
  next
    case False
    then have "takes_naps others (exact_naps 25 (ms - e)) ?ends s 0"
      using exact_naps_over [of 25 "ms - e"] by (intro takes_naps_now) auto
    moreover have "case refresh_loop others m ms e s of (early, s') \<Rightarrow>
        (early \<longrightarrow> fst (take_refresh m s) \<noteq> 0 \<and> s' = snd (take_refresh m s)) \<and> (\<not> early \<longrightarrow> s' = s)"
      using False by (subst refresh_loop.simps) auto
    ultimately show ?thesis by (intro exI [of _ 0]) (auto simp: after_naps_def Let_def split: prod.splits)
  qed
qed

text \<open>C20. Every wait of a panel thread ends, whatever the other threads do meanwhile, and it sleeps exactly as long as it
  was asked to unless something ends it earlier. The naps of a wait that nothing ends are at most 100 milliseconds each
  (25 in the dynamic panels and in the waits for a refresh) and add up to exactly the time asked for, in the process and
  support threads to less than 25 milliseconds more. Every wait takes the first \<open>k\<close> of these naps: before none of them
  was a stop requested or, in the waits that look for one, a refresh; and if it leaves naps out, this is because a stop
  or such a request was there then. The answer tells whether there was one at the end, and a request that ended the
  wait is taken.\<close>

theorem panel_waits_end:
  "(\<exists>k. takes_naps others (exact_naps 100 ms) runtime_stops s k
      \<and> trfx_thread_sleep_ms others ms s = (let t = after_naps others (take k (exact_naps 100 ms)) s in (runtime_stops t, t)))
 \<and> (\<exists>k. takes_naps others (exact_naps 25 ms) trfx_thread_should_stop s k
      \<and> trfx_dynamic_thread_sleep_ms others ms s
          = (let t = after_naps others (take k (exact_naps 25 ms)) s in (trfx_thread_should_stop t, t)))
 \<and> (\<exists>k. takes_naps others (exact_naps 25 ms) (\<lambda>t. runtime_stops t \<or> fst (take_refresh m t) \<noteq> 0) s k
      \<and> (let t = after_naps others (take k (exact_naps 25 ms)) s; w = trfx_wait_for_static_refresh others m ms s
         in snd w = snd (take_refresh m t) \<and> (fst w \<noteq> 0 \<longleftrightarrow> fst (take_refresh m t) \<noteq> 0)))
 \<and> (\<exists>k. takes_naps others (whole_naps 25 ms) (\<lambda>t. trfx_thread_should_stop t \<or> fst (take_view_request t) \<noteq> 0) s k
      \<and> view_wait_loop others ms 0 s
          = (let t = after_naps others (take k (whole_naps 25 ms)) s
             in if k < length (whole_naps 25 ms) \<and> \<not> trfx_thread_should_stop t then snd (take_view_request t) else t))
 \<and> list_all (\<lambda>d. 0 < d \<and> d \<le> 100) (exact_naps 100 ms) \<and> list_all (\<lambda>d. 0 < d \<and> d \<le> 25) (exact_naps 25 ms)
 \<and> list_all (\<lambda>d. d = 25) (whole_naps 25 ms)
 \<and> sum_list (exact_naps 100 ms) = max 0 ms \<and> sum_list (exact_naps 25 ms) = max 0 ms
 \<and> max 0 ms \<le> sum_list (whole_naps 25 ms) \<and> sum_list (whole_naps 25 ms) < max 0 ms + 25"
proof (intro conjI)
  show "\<exists>k. takes_naps others (exact_naps 100 ms) runtime_stops s k
      \<and> trfx_thread_sleep_ms others ms s = (let t = after_naps others (take k (exact_naps 100 ms)) s in (runtime_stops t, t))"
    using plain_sleep.loop_exact [of others ms 0 s] by (auto simp: trfx_thread_sleep_ms_def Let_def)
  show "\<exists>k. takes_naps others (exact_naps 25 ms) trfx_thread_should_stop s k
      \<and> trfx_dynamic_thread_sleep_ms others ms s
          = (let t = after_naps others (take k (exact_naps 25 ms)) s in (trfx_thread_should_stop t, t))"
    using dynamic_sleep.loop_exact [of others ms 0 s] by (auto simp: trfx_dynamic_thread_sleep_ms_def Let_def)
  show "\<exists>k. takes_naps others (exact_naps 25 ms) (\<lambda>t. runtime_stops t \<or> fst (take_refresh m t) \<noteq> 0) s k
      \<and> (let t = after_naps others (take k (exact_naps 25 ms)) s; w = trfx_wait_for_static_refresh others m ms s
         in snd w = snd (take_refresh m t) \<and> (fst w \<noteq> 0 \<longleftrightarrow> fst (take_refresh m t) \<noteq> 0))"
    using refresh_wait_exact [of others ms 0 m s] by (simp add: trfx_wait_for_static_refresh_def)
  show "\<exists>k. takes_naps others (whole_naps 25 ms) (\<lambda>t. trfx_thread_should_stop t \<or> fst (take_view_request t) \<noteq> 0) s k
      \<and> view_wait_loop others ms 0 s
          = (let t = after_naps others (take k (whole_naps 25 ms)) s
             in if k < length (whole_naps 25 ms) \<and> \<not> trfx_thread_should_stop t then snd (take_view_request t) else t)"
    using view_wait.loop_exact [of others ms 0 s] by simp
qed (use exact_naps_sum [of 100 ms] exact_naps_sum [of 25 ms] exact_naps_range [of 100 _ ms] exact_naps_range [of 25 _ ms]
      whole_naps_sum [of 25 ms] in \<open>auto simp: list_all_iff whole_naps_def\<close>)

lemma refresh_loop_answer:
  assumes "\<forall>t. fst (take_refresh m (others k t)) \<noteq> 0"
  shows "length (th_naps s) \<le> k \<Longrightarrow> length (th_naps (snd (refresh_loop others m ms e s))) = Suc k \<Longrightarrow>
     fst (refresh_loop others m ms e s) \<or> fst (take_refresh m (snd (refresh_loop others m ms e s))) \<noteq> 0"
  using assms
proof (induction others m ms e s rule: refresh_loop.induct)
  case (1 others m ms e s)
  let ?t = "usleep others (nap 25 (ms - e)) (snd (take_refresh m s))"
  show ?case
  proof (cases "\<not> runtime_stops s \<and> e < ms \<and> fst (take_refresh m s) = 0")
    case True
    then have step: "refresh_loop others m ms e s = refresh_loop others m ms (e + nap 25 (ms - e)) ?t"
      by (subst refresh_loop.simps) simp
    show ?thesis
    proof (cases "length (th_naps s) = k")
      case k: True
      then have "fst (take_refresh m ?t) \<noteq> 0" using "1.prems"(3) by (simp add: usleep_def)
      then show ?thesis unfolding step by (subst (1 2) refresh_loop.simps) auto
    next
      case False
      with True 1 step show ?thesis by simp
    qed
  next
    case False
    with 1 show ?thesis by (auto simp: refresh_loop.simps [of others m ms e s])
  qed
qed

text \<open>C24. A request to refresh a static panel is noticed: when another thread sets the flag of module \<open>m\<close> during nap
  number \<open>k\<close> of the panel's wait, the wait ends with that nap at the latest, at most 25 milliseconds later, and when it
  lasted that long, it answers that a refresh was requested.\<close>

theorem refresh_request_noticed:
  assumes "length (th_naps s) \<le> k" and "0 \<le> m" and "m < 4"
    and "\<forall>t. force_refresh_flags (th_runtime (others k t)) ! nat m \<noteq> 0"
  shows "length (th_naps (snd (trfx_wait_for_static_refresh others m ms s))) \<le> Suc k
       \<and> (length (th_naps (snd (trfx_wait_for_static_refresh others m ms s))) = Suc k
            \<longrightarrow> fst (trfx_wait_for_static_refresh others m ms s) \<noteq> 0)"
proof -
  have asked: "\<forall>t. fst (take_refresh m (others k t)) \<noteq> 0"
    using assms by (simp add: take_refresh_def trfx_runtime_consume_static_refresh_def static_module_count_def)
  then have "length (th_naps (snd (refresh_loop others m ms 0 s))) \<le> Suc k"
    using refresh_wait.noticed [OF _ assms(1), of others] by simp
  then show ?thesis
    using refresh_loop_answer [where e = 0 and ms = ms and k = k and m = m and others = others, OF asked assms(1)]
    by (auto simp: trfx_wait_for_static_refresh_def split: prod.splits)
qed

text \<open>The states that a thread waiting for the dashboard goes through.\<close>

definition ready_nap :: "others \<Rightarrow> thread_state \<Rightarrow> thread_state" where
  "ready_nap others s = usleep others (TUI_READY_CHECK_INTERVAL_MS (th_cfg s)) s"

definition may_start :: "thread_state \<Rightarrow> bool" where
  "may_start s \<longleftrightarrow> trfx_runtime_is_ready (th_runtime s) \<noteq> 0 \<or> runtime_stops s"

lemma wait_unfold: "wait_until_ready others s = (if may_start s then Some s else wait_until_ready others (ready_nap others s))"
  by (subst wait_until_ready.simps) (simp add: may_start_def ready_nap_def)

lemma wait_returns:
  "(\<forall>i<n. \<not> may_start ((ready_nap others ^^ i) s)) \<Longrightarrow> may_start ((ready_nap others ^^ n) s)
     \<Longrightarrow> wait_until_ready others s = Some ((ready_nap others ^^ n) s)"
proof (induction n arbitrary: s)
  case 0
  then show ?case by (simp add: wait_unfold)
next
  case (Suc n)
  have "\<not> may_start s" using Suc.prems(1) by auto
  moreover have "wait_until_ready others (ready_nap others s) = Some ((ready_nap others ^^ n) (ready_nap others s))"
    using Suc.prems by (intro Suc.IH) (auto simp: funpow_swap1)
  ultimately show ?case by (simp add: wait_unfold [of others s] funpow_swap1)
qed

lemma wait_returned:
  assumes "wait_until_ready others s = Some t"
  shows "\<exists>n. may_start ((ready_nap others ^^ n) s)"
proof (rule wait_until_ready.raw_induct
    [where P = "\<lambda>others s t. \<exists>n. may_start ((ready_nap others ^^ n) s)", OF _ assms])
  fix wait others s t
  assume IH: "\<And>others s t. wait others s = Some t \<Longrightarrow> \<exists>n. may_start ((ready_nap others ^^ n) s)"
    and eq: "(if trfx_runtime_is_ready (th_runtime s) = 0 \<and> \<not> runtime_stops s
      then wait others (usleep others (TUI_READY_CHECK_INTERVAL_MS (th_cfg s)) s) else Some s) = Some t"
  show "\<exists>n. may_start ((ready_nap others ^^ n) s)"
  proof (cases "may_start s")
    case True
    then show ?thesis by (intro exI [of _ 0]) simp
  next
    case False
    then have "wait others (ready_nap others s) = Some t"
      using eq by (simp add: may_start_def ready_nap_def)
    from IH [OF this] obtain n where "may_start ((ready_nap others ^^ n) (ready_nap others s))" ..
    then show ?thesis by (intro exI [of _ "Suc n"]) (simp add: funpow_swap1)
  qed
qed

text \<open>A panel thread draws nothing before the dashboard is ready: the wait at its start returns exactly when, after some
  number of naps, the dashboard is ready or a stop was requested, it returns after the first such nap, and it
  never returns when neither happens.\<close>

lemma ready_wait_exact:
  "wait_until_ready others s =
     (if \<exists>n. may_start ((ready_nap others ^^ n) s)
      then Some ((ready_nap others ^^ (LEAST n. may_start ((ready_nap others ^^ n) s))) s) else None)"
proof (cases "\<exists>n. may_start ((ready_nap others ^^ n) s)")
  case True
  let ?n = "LEAST n. may_start ((ready_nap others ^^ n) s)"
  have "may_start ((ready_nap others ^^ ?n) s)" by (rule LeastI_ex [OF True])
  moreover have "\<forall>i<?n. \<not> may_start ((ready_nap others ^^ i) s)" using not_less_Least by blast
  ultimately show ?thesis using True by (simp add: wait_returns)
next
  case False
  then have "wait_until_ready others s = None" using wait_returned by (cases "wait_until_ready others s") blast+
  then show ?thesis using False by simp
qed

section \<open>A concrete thread\<close>

definition demo_thread :: thread_state where
  "demo_thread = \<lparr>th_runtime = runtime_state_init, th_cfg = config_default, th_sort = SORT_BY_MEM,
     th_views = support_view_state_init, th_bandwidth = bandwidth_state_start,
     th_connections = connection_focus_start, th_audit = audit_start, th_mac = [],
     th_samples = trfx_init_network_sample_buffer, th_stop = None,
     th_win = \<lparr>win_h = 10, win_w = 60, win_out = []\<rparr>, th_naps = []\<rparr>"

text \<open>The keyboard thread asks for a refresh of all panels during the third nap.\<close>

definition demo_others :: others where
  "demo_others k s = (if k = 2 then s\<lparr>th_runtime := (th_runtime s)\<lparr>force_refresh_flags := [1, 1, 1, 1]\<rparr>\<rparr> else s)"

lemma refresh_request_noticed_witness:
  "length (th_naps (snd (trfx_wait_for_static_refresh demo_others 1 1000 demo_thread))) \<le> 3
 \<and> fst (trfx_wait_for_static_refresh demo_others 1 1000 demo_thread) = 1"
proof -
  have "length (th_naps (snd (trfx_wait_for_static_refresh demo_others 1 1000 demo_thread))) \<le> Suc 2"
    using refresh_request_noticed [of demo_thread 2 1 demo_others 1000]
    by (simp add: demo_thread_def demo_others_def)
  moreover have "fst (trfx_wait_for_static_refresh demo_others 1 1000 demo_thread) = 1"
    by code_simp
  ultimately show ?thesis by (auto simp: numeral_3_eq_3)
qed

lemma panel_waits_end_witness:
  "\<exists>k. takes_naps demo_others [100, 100, 50] runtime_stops demo_thread k
     \<and> trfx_thread_sleep_ms demo_others 250 demo_thread =
        (let t = after_naps demo_others (take k [100, 100, 50]) demo_thread in (runtime_stops t, t))"
proof -
  have "exact_naps 100 250 = [100, 100, 50]" by code_simp
  then show ?thesis using conjunct1 [OF panel_waits_end [of demo_others 250 demo_thread]] by simp
qed

end
