(* ===== verification/PanelText.thy ===== *)
theory PanelText
  imports PanelState
begin

text \<open>
  The texts of the panels of \<open>src/trfx_threads.c\<close>: the lines of the connection, socket and network panels, the
  order of the interface table, and the choice of the flow that belongs to a connection. A destination buffer is
  given by its size; the callers pass buffers and structures that exist.
\<close>

section \<open>Columns\<close>

text \<open>\<open>%-*.*s\<close>: a text clipped and padded to a column. \<open>%-*s\<close> is \<open>pad_right\<close>: it does not clip.\<close>

definition column :: "nat \<Rightarrow> string \<Rightarrow> string" where
  "column n s = pad_right n (take n s)"

lemma length_column [simp]: "length (column n s) = n"
  by (simp add: column_def)

definition panel_inner_width :: "int \<Rightarrow> int" where
  "panel_inner_width panel_width = (if 4 < panel_width then panel_width - 4 else panel_width)"

definition connection_endpoint_width :: "int \<Rightarrow> nat" where
  "connection_endpoint_width inner_width =
     (if 160 \<le> inner_width then 36 else if 140 \<le> inner_width then 32 else if 120 \<le> inner_width then 28
      else if 100 \<le> inner_width then 24 else if 80 \<le> inner_width then 18 else 14)"

definition connection_user_width :: "int \<Rightarrow> nat" where
  "connection_user_width inner_width = (if 120 \<le> inner_width then 8 else if 100 \<le> inner_width then 7 else 6)"

definition connection_process_width :: "int \<Rightarrow> nat" where
  "connection_process_width inner_width = (if 120 \<le> inner_width then 14 else if 100 \<le> inner_width then 12 else 10)"

definition socket_endpoint_width :: "int \<Rightarrow> nat" where
  "socket_endpoint_width inner_width = (if 90 \<le> inner_width then 22 else if 70 \<le> inner_width then 18 else 12)"

definition socket_process_width :: "int \<Rightarrow> nat" where
  "socket_process_width inner_width = (if 90 \<le> inner_width then 16 else if 70 \<le> inner_width then 14 else 12)"

text \<open>An endpoint in a buffer of \<open>n\<close> bytes.\<close>

definition tui_endpoint :: "nat \<Rightarrow> string \<Rightarrow> string" where
  "tui_endpoint n s = the (trfx_format_endpoint_for_tui (Some s) (Some []) n)"

section \<open>Connections\<close>

definition format_connection_summary_row :: "TrfxConnectionSummary \<Rightarrow> int \<Rightarrow> nat \<Rightarrow> string" where
  "format_connection_summary_row c panel_width line_size =
     (let inner = panel_inner_width panel_width;
          ew = connection_endpoint_width inner; uw = connection_user_width inner; pw = connection_process_width inner
      in fit line_size
          (column 6 (cs_protocol c) @ '' '' @ pad_right ew (tui_endpoint 64 (cs_local_endpoint c)) @ '' ''
           @ pad_right ew (tui_endpoint 64 (cs_remote_endpoint c)) @ '' '' @ column 13 (cs_state c) @ '' ''
           @ column 7 (cs_uid c) @ '' '' @ column uw (cs_user c) @ '' '' @ column 7 (cs_pid c) @ '' ''
           @ column pw (cs_process c)))"

definition count_of :: "('a \<Rightarrow> bool) \<Rightarrow> 'a list \<Rightarrow> nat" where
  "count_of p xs = length (filter p xs)"

definition connection_group_summary :: "TrfxConnectionSummary list \<Rightarrow> string" where
  "connection_group_summary rows =
     fit 256 (''Groups: ESTABLISHED '' @ show_nat (count_of (\<lambda>c. cs_state c = ''ESTABLISHED'') rows)
       @ '' | LISTEN/UNCONN '' @ show_nat (count_of (\<lambda>c. cs_state c = ''LISTEN'' \<or> cs_state c = ''UNCONN'') rows)
       @ '' | Other '' @ show_nat (count_of (\<lambda>c. cs_state c \<noteq> ''ESTABLISHED'' \<and> cs_state c \<noteq> ''LISTEN''
                                               \<and> cs_state c \<noteq> ''UNCONN'') rows)
       @ '' | TCP '' @ show_nat (count_of (\<lambda>c. cs_protocol c = ''TCP'') rows)
       @ '' | UDP '' @ show_nat (count_of (\<lambda>c. cs_protocol c = ''UDP'') rows))"

definition flow_matches :: "TrfxConnectionSummary \<Rightarrow> TrfxBandwidthFlow \<Rightarrow> bool" where
  "flow_matches c flow \<longleftrightarrow>
     bf_proto flow \<noteq> [] \<and> bf_proto flow = cs_protocol c \<and> bf_local flow = cs_local_endpoint c
       \<and> bf_remote flow = cs_remote_endpoint c
     \<or> bf_pid flow \<noteq> [] \<and> bf_pid flow = cs_pid c \<and> bf_process flow \<noteq> [] \<and> bf_process flow = cs_process c"

definition connection_find_hot_flow ::
  "TrfxConnectionSummary option \<Rightarrow> TrfxBandwidthReport option \<Rightarrow> TrfxBandwidthFlow option" where
  "connection_find_hot_flow connection report =
     (case (connection, report) of
        (Some c, Some r) \<Rightarrow> List.find (flow_matches c) (br_flows r) | _ \<Rightarrow> None)"

definition connection_state_matches :: "ConnectionInfo option \<Rightarrow> string option \<Rightarrow> bool" where
  "connection_state_matches connection state =
     (case (connection, state) of (Some c, Some st) \<Rightarrow> ci_state c = st | _ \<Rightarrow> False)"

definition panel_connection_has_owner :: "ConnectionInfo option \<Rightarrow> bool" where
  "panel_connection_has_owner connection =
     (case connection of None \<Rightarrow> False | Some c \<Rightarrow> ci_pid c \<noteq> ''-'' \<or> ci_process c \<noteq> ''-'')"

definition format_connection_summary :: "TrfxNetworkSnapshot \<Rightarrow> nat \<Rightarrow> string" where
  "format_connection_summary snapshot line_size =
     (let rows = sn_connections snapshot;
          established = count_of (\<lambda>c. connection_state_matches (Some c) (Some ''ESTABLISHED'')) rows;
          listen = count_of (\<lambda>c. \<not> connection_state_matches (Some c) (Some ''ESTABLISHED'')
                       \<and> (connection_state_matches (Some c) (Some ''LISTEN'')
                          \<or> connection_state_matches (Some c) (Some ''UNCONN''))) rows
      in if rows = [] then fit line_size ''Summary: no visible connections''
         else fit line_size (''Summary: TCP '' @ show_nat (count_of (\<lambda>c. ci_protocol c = ''TCP'') rows)
                @ '' | UDP '' @ show_nat (count_of (\<lambda>c. ci_protocol c = ''UDP'') rows)
                @ '' | Established '' @ show_nat established @ '' | Listen/Unconn '' @ show_nat listen
                @ '' | Owned '' @ show_nat (count_of (\<lambda>c. ci_pid c \<noteq> ''-'' \<or> ci_process c \<noteq> ''-'') rows)))"

definition format_socket_inventory_line :: "ConnectionInfo \<Rightarrow> int \<Rightarrow> nat \<Rightarrow> string" where
  "format_socket_inventory_line c panel_width line_size =
     (let inner = panel_inner_width panel_width;
          ew = socket_endpoint_width inner; pw = socket_process_width inner
      in fit line_size
          (column 6 (ci_protocol c) @ '' '' @ pad_right 7 (show_u32 (ci_uid c)) @ '' '' @ column 7 (ci_pid c) @ '' ''
           @ column pw (ci_process c) @ '' '' @ column ew (tui_endpoint 64 (ci_local_addr c)) @ '' ''
           @ column ew (tui_endpoint 64 (ci_remote_addr c))))"

section \<open>The network summary\<close>

definition format_network_route_line :: "TrfxNetworkSnapshot \<Rightarrow> nat \<Rightarrow> string" where
  "format_network_route_line s line_size =
     (if sn_route_status s = TRFX_COLLECTOR_OK \<and> rs_has_default (sn_route s) \<noteq> 0
      then fit line_size (''Route: default via '' @ rs_gateway (sn_route s) @ '' dev '' @ rs_interface (sn_route s)
             @ '' metric '' @ rs_metric (sn_route s))
      else fit line_size ''Route: unavailable'')"

text \<open>The list of at most three servers, in a buffer of \<open>n\<close> bytes.\<close>

definition dns_text :: "nat \<Rightarrow> string list \<Rightarrow> string" where
  "dns_text n servers =
     (let shown = (if length servers < 3 then length servers else 3);
          body = foldl (\<lambda>b i. cat_fit n (if 0 < i then cat_fit n b '', '' else b) (servers ! i)) [] [0..<shown]
      in if shown < length servers then cat_fit n body '', ...'' else body)"

definition dns_found :: "nat \<Rightarrow> string list \<Rightarrow> string" where
  "dns_found n servers = ''DNS: '' @ show_nat (length servers) @ '' server'' @ (if length servers = 1 then [] else ''s'')
     @ '' detected | '' @ dns_text n servers"

definition format_network_dns_line :: "TrfxNetworkSnapshot \<Rightarrow> nat \<Rightarrow> string" where
  "format_network_dns_line s line_size =
     (let servers = ds_servers (sn_dns s)
      in if sn_dns_status s = TRFX_COLLECTOR_OK \<and> 0 < length servers then fit line_size (dns_found 256 servers)
         else if sn_dns_status s = TRFX_COLLECTOR_OK then fit line_size ''DNS: 0 servers configured''
         else fit line_size ''DNS: unavailable'')"

definition format_network_active_line :: "TrfxNetworkSnapshot \<Rightarrow> nat \<Rightarrow> string" where
  "format_network_active_line s line_size =
     (if \<not> sn_has_active_interface s then fit line_size ''Active: no interface with an IPv4 address''
      else if sn_active_ssid s \<noteq> [] \<and> sn_active_ssid s \<noteq> ''N/A''
      then fit line_size (''Active: '' @ sn_active_interface s @ '' ('' @ sn_active_type s @ '') | IP: '' @ sn_active_ip s
             @ '' | SSID: '' @ sn_active_ssid s @ '' | MAC: '' @ or_na (sn_active_mac s))
      else fit line_size (''Active: '' @ sn_active_interface s @ '' ('' @ sn_active_type s @ '') | IP: '' @ sn_active_ip s
             @ '' | MAC: '' @ or_na (sn_active_mac s)))"

definition format_network_public_ip_line :: "TrfxNetworkSnapshot \<Rightarrow> nat \<Rightarrow> string" where
  "format_network_public_ip_line s line_size =
     (if sn_has_public_ip s \<and> sn_public_ip s \<noteq> []
      then fit line_size (''Public IP (best effort): '' @ sn_public_ip s)
      else fit line_size ''Public IP (best effort): unavailable'')"

definition format_network_vpn_line :: "TrfxNetworkSnapshot \<Rightarrow> nat \<Rightarrow> string" where
  "format_network_vpn_line s line_size =
     (if \<not> sn_has_vpn_interface s then fit line_size ''VPN: none detected''
      else if sn_vpn_ip s = [] then fit line_size (''VPN: '' @ sn_vpn_interface s @ '' detected | IP unavailable'')
      else fit line_size (''VPN: '' @ sn_vpn_interface s @ '' detected | IP '' @ sn_vpn_ip s))"

section \<open>The interface table\<close>

definition interface_status_sort_rank ::
  "TrfxNetworkSnapshot option \<Rightarrow> TrfxInterfaceStatus option \<Rightarrow> int" where
  "interface_status_sort_rank snapshot status =
     (case (snapshot, status) of
        (Some s, Some st) \<Rightarrow>
          if sn_has_active_interface s \<and> sn_active_interface s = st_name st then 0
          else if st_is_up st then 1 else 2
      | _ \<Rightarrow> 2)"

text \<open>The exchange sort of the table: position \<open>i\<close> is compared with every later one.\<close>

definition exchange_step :: "('a \<Rightarrow> 'a \<Rightarrow> int) \<Rightarrow> nat \<Rightarrow> nat \<Rightarrow> 'a list \<Rightarrow> 'a list" where
  "exchange_step cmp i j xs = (if 0 < cmp (xs ! i) (xs ! j) then xs[i := xs ! j, j := xs ! i] else xs)"

definition exchange_sort :: "('a \<Rightarrow> 'a \<Rightarrow> int) \<Rightarrow> 'a list \<Rightarrow> 'a list" where
  "exchange_sort cmp xs =
     fold (\<lambda>i. fold (exchange_step cmp i) [i + 1..<length xs]) [0..<length xs - 1] xs"

definition interface_order :: "TrfxNetworkSnapshot \<Rightarrow> TrfxInterfaceStatus \<Rightarrow> TrfxInterfaceStatus \<Rightarrow> int" where
  "interface_order s a b =
     (let left_rank = interface_status_sort_rank (Some s) (Some a);
          right_rank = interface_status_sort_rank (Some s) (Some b)
      in if left_rank = right_rank then c_strcmp (st_name a) (st_name b) else left_rank - right_rank)"

definition sorted_interfaces :: "TrfxNetworkSnapshot \<Rightarrow> TrfxInterfaceStatus list" where
  "sorted_interfaces s =
     exchange_sort (interface_order s) (take trfx_max_interfaces (sr_items (sn_interface_statuses s)))"

definition find_interface_rate :: "TrfxBandwidthReport option \<Rightarrow> string option \<Rightarrow> TrfxInterfaceRate option" where
  "find_interface_rate report name =
     (case (report, name) of
        (Some r, Some n) \<Rightarrow> if n = [] then None else List.find (\<lambda>x. ir_name x = n) (br_interface_rates r)
      | _ \<Rightarrow> None)"

definition format_interface_address :: "TrfxInterfaceStatus \<Rightarrow> nat \<Rightarrow> string" where
  "format_interface_address st line_size =
     (if st_has_ipv4 st \<and> st_has_ipv6 st \<and> st_ipv4 st \<noteq> st_ipv6 st
      then fit line_size (st_ipv4 st @ '' / '' @ st_ipv6 st)
      else if st_has_ipv4 st then fit line_size (st_ipv4 st)
      else if st_has_ipv6 st then fit line_size (st_ipv6 st)
      else fit line_size ''N/A'')"

definition format_rate_or_na :: "TrfxInterfaceRate option \<Rightarrow> bool \<Rightarrow> nat \<Rightarrow> string" where
  "format_rate_or_na rate is_rx line_size =
     (case rate of None \<Rightarrow> fit line_size ''N/A''
      | Some r \<Rightarrow>
          if ir_name r = [] then fit line_size ''N/A''
          else trfx_format_net_bytes (if is_rx then ir_rx_bytes_per_sec r else ir_tx_bytes_per_sec r) line_size)"

definition or_text :: "string \<Rightarrow> string \<Rightarrow> string" where
  "or_text t e = (if t \<noteq> [] then t else e)"

definition format_interface_status_row ::
  "TrfxInterfaceStatus \<Rightarrow> TrfxInterfaceRate option \<Rightarrow> nat \<Rightarrow> string" where
  "format_interface_status_row st rate line_size =
     fit line_size
       (column 12 (or_text (st_name st) ''N/A'') @ '' '' @ column 8 (or_text (st_operstate st) ''unknown'') @ '' ''
        @ column 8 (or_text (st_carrier st) ''unknown'') @ '' '' @ column 36 (format_interface_address st 160) @ '' ''
        @ pad_left 10 (take 10 (format_rate_or_na rate True 32)) @ '' ''
        @ pad_left 10 (take 10 (format_rate_or_na rate False 32)))"

section \<open>Traffic\<close>

text \<open>\<open>total * 1.10\<close>, in double precision.\<close>

definition dominates :: "rat \<Rightarrow> rat \<Rightarrow> bool" where
  "dominates a b \<longleftrightarrow> dbl (b * dbl (11 / 10)) < a"

definition traffic_summary :: "TrfxBandwidthReport \<Rightarrow> string" where
  "traffic_summary r =
     (let total_rx = sum_interface_rate (br_interface_rates r) True;
          total_tx = sum_interface_rate (br_interface_rates r) False;
          balance = (if dominates total_rx total_tx then ''receive dominant''
                     else if dominates total_tx total_rx then ''transmit dominant'' else ''balanced'')
      in fit 256 (''Traffic: rx '' @ trfx_format_net_bytes total_rx 32 @ ''/s | tx '' @ trfx_format_net_bytes total_tx 32
           @ ''/s | '' @ balance))"

definition talker_line :: "int \<Rightarrow> nat \<Rightarrow> TrfxBandwidthFlow \<Rightarrow> string" where
  "talker_line selected_index i flow =
     fit 256 ((if int i = selected_index then ''>'' else '' '') @ '' '' @ take 15 (or_text (bf_pid flow) ''-'') @ '' ''
       @ take 16 (or_text (bf_process flow) ''-'')
       @ '' ['' @ take 24 (or_text (bf_detail flow) (bf_label flow)) @ ''] '' @ take 24 (or_text (bf_local flow) ''-'')
       @ '' -> '' @ take 24 (or_text (bf_remote flow) ''-'')
       @ '' | rx '' @ take 10 (trfx_format_net_bytes (bf_rx_bytes_per_sec flow) 32)
       @ ''/s tx '' @ take 10 (trfx_format_net_bytes (bf_tx_bytes_per_sec flow) 32) @ ''/s'')"

text \<open>\<open>localtime_r\<close> with \<open>strftime(\"%H:%M:%S\")\<close> is a parameter: \<open>None\<close> when the time cannot be converted.\<close>

type_synonym clock = "int \<Rightarrow> string option"

definition format_support_time :: "clock \<Rightarrow> int \<Rightarrow> nat \<Rightarrow> string" where
  "format_support_time clock when buf_size =
     (case clock when of None \<Rightarrow> fit buf_size ''unknown'' | Some t \<Rightarrow> t)"

definition format_bandwidth_history_time :: "clock \<Rightarrow> int \<Rightarrow> nat \<Rightarrow> string" where
  "format_bandwidth_history_time clock when buf_size =
     (case clock when of None \<Rightarrow> fit buf_size ''unknown'' | Some t \<Rightarrow> t)"

definition history_line :: "clock \<Rightarrow> trend_point \<Rightarrow> string" where
  "history_line clock p =
     fit 256 (format_bandwidth_history_time clock (tp_captured_at p) 32 @ '' | rx ''
       @ trfx_format_net_bytes (tp_rx_bytes_per_sec p) 32 @ ''/s tx ''
       @ trfx_format_net_bytes (tp_tx_bytes_per_sec p) 32 @ ''/s'')"

section \<open>The exchange sort sorts\<close>

lemma exchange_step_length [simp]: "length (exchange_step cmp i j xs) = length xs"
  by (simp add: exchange_step_def)

lemma exchange_step_below: "a < i \<Longrightarrow> i < j \<Longrightarrow> exchange_step cmp i j xs ! a = xs ! a"
  by (simp add: exchange_step_def)

lemma exchange_step_mset: "i < j \<Longrightarrow> j < length xs \<Longrightarrow> mset (exchange_step cmp i j xs) = mset xs"
  by (simp add: exchange_step_def mset_swap)

text \<open>What the inner loop has done when it reaches position \<open>m\<close>.\<close>

definition pass_ok :: "('a \<Rightarrow> 'a \<Rightarrow> int) \<Rightarrow> nat \<Rightarrow> nat \<Rightarrow> 'a list \<Rightarrow> bool" where
  "pass_ok cmp i m ys \<longleftrightarrow> (\<forall>a b. a < i \<longrightarrow> a < b \<longrightarrow> b < length ys \<longrightarrow> cmp (ys ! a) (ys ! b) \<le> 0)
     \<and> (\<forall>b. i < b \<longrightarrow> b < m \<longrightarrow> cmp (ys ! i) (ys ! b) \<le> 0)"

lemma cmp_order_total: "cmp_order cmp \<Longrightarrow> \<not> cmp a b \<le> 0 \<Longrightarrow> cmp b a \<le> 0"
  unfolding cmp_order_def by blast

lemma cmp_order_trans: "cmp_order cmp \<Longrightarrow> cmp a b \<le> 0 \<Longrightarrow> cmp b c \<le> 0 \<Longrightarrow> cmp a c \<le> 0"
  unfolding cmp_order_def by blast

lemma pass_step:
  assumes "cmp_order cmp" and "pass_ok cmp i m ys" and "i < m" and "m < length ys"
  shows "pass_ok cmp i (Suc m) (exchange_step cmp i m ys)"
proof -
  note total = cmp_order_total [OF assms(1)] and trans = cmp_order_trans [OF assms(1)]
  show ?thesis
  proof (cases "0 < cmp (ys ! i) (ys ! m)")
    case True
    let ?zs = "ys[i := ys ! m, m := ys ! i]"
    have below: "cmp (?zs ! a) (?zs ! b) \<le> 0" if "a < i" "a < b" "b < length ys" for a b
    proof -
      have first: "cmp (ys ! a) (ys ! c) \<le> 0" if "a < c" "c < length ys" for c
        using assms(2) \<open>a < i\<close> that by (simp add: pass_ok_def)
      have a: "?zs ! a = ys ! a" using that assms(3) by simp
      consider "?zs ! b = ys ! b" | "?zs ! b = ys ! i" | "?zs ! b = ys ! m"
        using that(3) assms(3,4) by (cases "b = m"; cases "b = i") auto
      then show ?thesis
        by cases (use first [of b] first [of i] first [of m] that assms(3,4) a in simp_all)
    qed
    have swapped: "cmp (ys ! m) (ys ! i) \<le> 0" by (rule total) (use True in simp)
    have at: "cmp (?zs ! i) (?zs ! b) \<le> 0" if "i < b" "b < Suc m" for b
    proof (cases "b = m")
      case b: True
      then show ?thesis using swapped assms(3,4) by simp
    next
      case False
      then have "cmp (ys ! i) (ys ! b) \<le> 0" using that assms(2) by (simp add: pass_ok_def)
      then have "cmp (ys ! m) (ys ! b) \<le> 0" by (rule trans [OF swapped])
      then show ?thesis using False that assms(3,4) by simp
    qed
    then show ?thesis using True below by (simp add: exchange_step_def pass_ok_def)
  next
    case False
    then show ?thesis using assms(2) by (auto simp: exchange_step_def pass_ok_def less_Suc_eq)
  qed
qed

lemma pass_fold:
  assumes "cmp_order cmp" and "pass_ok cmp i (Suc i) xs" and "m \<le> length xs" and "i < m"
  shows "pass_ok cmp i m (fold (exchange_step cmp i) [Suc i..<m] xs)
       \<and> length (fold (exchange_step cmp i) [Suc i..<m] xs) = length xs
       \<and> mset (fold (exchange_step cmp i) [Suc i..<m] xs) = mset xs"
  using assms(3,4)
proof (induction m)
  case (Suc m)
  show ?case
  proof (cases "m = i")
    case True
    then show ?thesis using assms(2) by simp
  next
    case False
    then show ?thesis using Suc pass_step [OF assms(1)] by (simp add: exchange_step_mset)
  qed
qed simp

lemma exchange_passes:
  assumes "cmp_order cmp" and "m \<le> length xs - 1"
  defines "ys \<equiv> fold (\<lambda>i. fold (exchange_step cmp i) [i + 1..<length xs]) [0..<m] xs"
  shows "pass_ok cmp m (Suc m) ys \<and> length ys = length xs \<and> mset ys = mset xs"
  using assms(2) unfolding ys_def
proof (induction m)
  case 0
  then show ?case by (simp add: pass_ok_def)
next
  case (Suc m)
  let ?y = "fold (\<lambda>i. fold (exchange_step cmp i) [i + 1..<length xs]) [0..<m] xs"
  let ?z = "fold (exchange_step cmp m) [Suc m..<length xs] ?y"
  have y: "pass_ok cmp m (Suc m) ?y" "length ?y = length xs" "mset ?y = mset xs" using Suc by simp_all
  have z: "pass_ok cmp m (length xs) ?z" "length ?z = length xs" "mset ?z = mset xs"
    using pass_fold [OF assms(1) y(1), of "length xs"] y Suc.prems by simp_all
  have "pass_ok cmp (Suc m) (Suc (Suc m)) ?z"
    using z(1,2) unfolding pass_ok_def by (auto simp: less_Suc_eq)
  then show ?case using z by simp
qed

lemma exchange_mset_any: "mset (exchange_sort cmp xs) = mset xs"
proof -
  have inner: "length (fold (exchange_step cmp i) js ys) = length ys \<and> mset (fold (exchange_step cmp i) js ys) = mset ys"
    if "\<forall>j\<in>set js. i < j \<and> j < length ys" for i js ys
    using that by (induction js arbitrary: ys) (simp_all add: exchange_step_mset)
  have "length (fold (\<lambda>i. fold (exchange_step cmp i) [i + 1..<length xs]) is ys) = length ys
      \<and> mset (fold (\<lambda>i. fold (exchange_step cmp i) [i + 1..<length xs]) is ys) = mset ys"
    if "length ys = length xs" for "is" ys
    using that by (induction "is" arbitrary: ys) (simp_all add: inner)
  then show ?thesis by (simp add: exchange_sort_def)
qed

lemma exchange_sorted:
  assumes "cmp_order cmp"
  shows "sorted_wrt (\<lambda>a b. cmp a b \<le> 0) (exchange_sort cmp xs)"
proof -
  have ok: "pass_ok cmp (length xs - 1) (Suc (length xs - 1)) (exchange_sort cmp xs)"
    and len: "length (exchange_sort cmp xs) = length xs"
    using exchange_passes [OF assms, of "length xs - 1" xs] by (simp_all add: exchange_sort_def)
  show ?thesis
    unfolding sorted_wrt_iff_nth_less using ok len by (auto simp: pass_ok_def)
qed

interpretation exchange: sorter exchange_sort
  by unfold_locales (simp_all add: exchange_mset_any exchange_sorted)

lemma interface_order_order: "cmp_order (interface_order s)"
proof -
  have "interface_order s a b \<le> 0 \<or> interface_order s b a \<le> 0" for a b
    using c_strcmp_swap [of "st_name a" "st_name b"] by (auto simp: interface_order_def Let_def)
  moreover have "interface_order s a c \<le> 0"
    if "interface_order s a b \<le> 0" "interface_order s b c \<le> 0" for a b c
    using that c_strcmp_trans [of "st_name a" "st_name b" "st_name c"]
    by (auto simp: interface_order_def Let_def split: if_splits)
  ultimately show ?thesis unfolding cmp_order_def by blast
qed

text \<open>The interface that the snapshot calls active.\<close>

definition shown_active :: "TrfxNetworkSnapshot \<Rightarrow> TrfxInterfaceStatus \<Rightarrow> bool" where
  "shown_active s st \<longleftrightarrow> sn_has_active_interface s \<and> st_name st = sn_active_interface s"

lemma interface_order_le:
  "interface_order s a b \<le> 0 \<longleftrightarrow>
     (if shown_active s a \<noteq> shown_active s b then shown_active s a
      else if \<not> shown_active s a \<and> st_is_up a \<noteq> st_is_up b then st_is_up a
      else c_strcmp (st_name a) (st_name b) \<le> 0)"
  by (auto simp: interface_order_def interface_status_sort_rank_def shown_active_def Let_def)

text \<open>C22. The interface table of the network panel shows the collected interfaces (the first 20), each once per row that
  was collected. Of any two rows, if one is the active interface and the other is not, the active one stands first; if
  neither is active and only one is up, that one stands first; and otherwise they stand in the order of their names.\<close>

theorem interface_table_sorted:
  "mset (sorted_interfaces s) = mset (take 20 (sr_items (sn_interface_statuses s)))
 \<and> sorted_wrt (\<lambda>a b.
      let active = (\<lambda>st. sn_has_active_interface s \<and> st_name st = sn_active_interface s)
      in if active a \<noteq> active b then active a
         else if \<not> active a \<and> st_is_up a \<noteq> st_is_up b then st_is_up a
         else c_strcmp (st_name a) (st_name b) \<le> 0) (sorted_interfaces s)"
proof -
  have "sorted_wrt (\<lambda>a b. interface_order s a b \<le> 0) (sorted_interfaces s)"
    unfolding sorted_interfaces_def by (rule exchange.qs_sorted [OF interface_order_order])
  then show ?thesis
    unfolding interface_order_le shown_active_def Let_def
    by (simp add: sorted_interfaces_def exchange.qs_mset trfx_max_interfaces_def)
qed

end
