(* ===== verification/Json.thy ===== *)
theory Json
  imports CScan
begin

text \<open>
  The JSON that \<open>src/trfx_cli_output.c\<close> writes: \<open>print_json_string\<close>, and as its specification a reader of JSON texts
  (strings with all escapes, unsigned integers, arrays and objects, without white space) with the lemma that
  the reader recovers every value from its text.
\<close>

abbreviation quote :: char where "quote \<equiv> CHR 0x22"
abbreviation backslash :: char where "backslash \<equiv> CHR 0x5C"

section \<open>Writing a string\<close>

definition json_escape :: "char \<Rightarrow> string" where
  "json_escape c =
     (if c = quote then [backslash, quote]
      else if c = backslash then [backslash, backslash]
      else if c = CHR 0x08 then [backslash, CHR ''b'']
      else if c = CHR 0x0C then [backslash, CHR ''f'']
      else if c = nl then [backslash, CHR ''n'']
      else if c = cr then [backslash, CHR ''r'']
      else if c = tab then [backslash, CHR ''t'']
      else if char_code c < 32
      then [backslash, CHR ''u'', CHR ''0'', CHR ''0'', xdigit_low (char_code c div 16), xdigit_low (char_code c mod 16)]
      else [c])"

definition print_json_string :: "string option \<Rightarrow> string" where
  "print_json_string value =
     [quote] @ (case value of None \<Rightarrow> [] | Some v \<Rightarrow> concat (map json_escape v)) @ [quote]"

section \<open>Reading\<close>

datatype json = JStr string | JNum nat | JArr "json list" | JObj "(string \<times> json) list"

definition xval4 :: "char \<Rightarrow> char \<Rightarrow> char \<Rightarrow> char \<Rightarrow> nat option" where
  "xval4 a b c d = (if list_all c_isxdigit [a, b, c, d] then Some (hex_val [a, b, c, d]) else None)"

text \<open>The characters up to the closing quote; a code above 255 is not a byte of these texts.\<close>

fun read_chars :: "string \<Rightarrow> (string \<times> string) option" where
  "read_chars [] = None"
| "read_chars (c # s) =
     (if c = quote then Some ([], s)
      else if c = backslash
      then (case s of
              [] \<Rightarrow> None
            | e # t \<Rightarrow>
                if e = CHR ''u''
                then (case t of
                        a # b # x # y # u \<Rightarrow>
                          (case xval4 a b x y of
                             None \<Rightarrow> None
                           | Some n \<Rightarrow> if n < 256 then map_option (\<lambda>(v, r). (char_of n # v, r)) (read_chars u) else None)
                      | _ \<Rightarrow> None)
                else (case map_of [(quote, quote), (backslash, backslash), (CHR ''/'', CHR ''/''), (CHR ''b'', CHR 0x08),
                          (CHR ''f'', CHR 0x0C), (CHR ''n'', nl), (CHR ''r'', cr), (CHR ''t'', tab)] e of
                        None \<Rightarrow> None
                      | Some d \<Rightarrow> map_option (\<lambda>(v, r). (d # v, r)) (read_chars t)))
      else if char_code c < 32 then None
      else map_option (\<lambda>(v, r). (c # v, r)) (read_chars s))"

definition read_string :: "string \<Rightarrow> (string \<times> string) option" where
  "read_string s = (case s of [] \<Rightarrow> None | c # t \<Rightarrow> if c = quote then read_chars t else None)"

text \<open>The nesting and the lengths are bounded by the first argument.\<close>

fun read_value :: "nat \<Rightarrow> string \<Rightarrow> (json \<times> string) option"
  and read_items :: "nat \<Rightarrow> string \<Rightarrow> (json list \<times> string) option"
  and read_members :: "nat \<Rightarrow> string \<Rightarrow> ((string \<times> json) list \<times> string) option"
where
  "read_value 0 s = None"
| "read_value (Suc n) s =
     (case s of
        [] \<Rightarrow> None
      | c # t \<Rightarrow>
          if c = quote then map_option (\<lambda>(v, r). (JStr v, r)) (read_chars t)
          else if c_isdigit c then Some (JNum (dec_val (takeWhile c_isdigit s)), dropWhile c_isdigit s)
          else if c = CHR ''['' then
            (if t \<noteq> [] \<and> hd t = CHR '']'' then Some (JArr [], tl t)
             else map_option (\<lambda>(v, r). (JArr v, r)) (read_items n t))
          else if c = CHR ''{'' then
            (if t \<noteq> [] \<and> hd t = CHR ''}'' then Some (JObj [], tl t)
             else map_option (\<lambda>(v, r). (JObj v, r)) (read_members n t))
          else None)"
| "read_items 0 s = None"
| "read_items (Suc n) s =
     (case read_value n s of
        None \<Rightarrow> None
      | Some (v, r) \<Rightarrow>
          (case r of
             [] \<Rightarrow> None
           | c # t \<Rightarrow> if c = CHR '']'' then Some ([v], t)
                      else if c = CHR '','' then map_option (\<lambda>(vs, q). (v # vs, q)) (read_items n t)
                      else None))"
| "read_members 0 s = None"
| "read_members (Suc n) s =
     (case read_string s of
        None \<Rightarrow> None
      | Some (k, r) \<Rightarrow>
          if r = [] \<or> hd r \<noteq> CHR '':'' then None
          else (case read_value n (tl r) of
                  None \<Rightarrow> None
                | Some (v, q) \<Rightarrow>
                    (case q of
                       [] \<Rightarrow> None
                     | c # t \<Rightarrow> if c = CHR ''}'' then Some ([(k, v)], t)
                                else if c = CHR '','' then map_option (\<lambda>(ms, p). ((k, v) # ms, p)) (read_members n t)
                                else None)))"

section \<open>The text of a value\<close>

fun join_with :: "string \<Rightarrow> string list \<Rightarrow> string" where
  "join_with sep [] = []"
| "join_with sep [x] = x"
| "join_with sep (x # y # xs) = x @ sep @ join_with sep (y # xs)"

fun json_text :: "json \<Rightarrow> string" where
  "json_text (JStr s) = print_json_string (Some s)"
| "json_text (JNum n) = show_nat n"
| "json_text (JArr vs) = ''['' @ join_with '','' (map json_text vs) @ '']''"
| "json_text (JObj ms) = ''{'' @ join_with '','' (map (\<lambda>(k, v). print_json_string (Some k) @ '':'' @ json_text v) ms) @ ''}''"

fun json_depth :: "json \<Rightarrow> nat" where
  "json_depth (JStr s) = 1"
| "json_depth (JNum n) = 1"
| "json_depth (JArr vs) = 1 + sum_list (map (\<lambda>v. 1 + json_depth v) vs)"
| "json_depth (JObj ms) = 1 + sum_list (map (\<lambda>(k, v). 1 + json_depth v) ms)"

section \<open>Reading what was written\<close>

lemma xdigit_low_val: "n < 16 \<Longrightarrow> xdigit_val (xdigit_low n) = n \<and> c_isxdigit (xdigit_low n)"
  by (auto simp: xdigit_low_def char_simps)

lemma xval4_low: "n < 256 \<Longrightarrow> xval4 CHR ''0'' CHR ''0'' (xdigit_low (n div 16)) (xdigit_low (n mod 16)) = Some n"
proof -
  assume n: "n < 256"
  then have "n div 16 < 16" by (simp add: less_mult_imp_div_less)
  then show ?thesis
    using xdigit_low_val [of "n div 16"] xdigit_low_val [of "n mod 16"]
    by (simp add: xval4_def hex_val_def) (simp add: char_simps)
qed

lemma read_escape: "read_chars (json_escape c @ s) = map_option (\<lambda>(v, r). (c # v, r)) (read_chars s)"
proof -
  have "char_of (char_code c) = c" by (simp add: char_code_def)
  then show ?thesis
    using xval4_low [of "char_code c"] by (auto simp: json_escape_def char_code_bound)
qed

lemma read_chars_print: "read_chars (concat (map json_escape v) @ quote # r) = Some (v, r)"
  by (induction v) (simp_all add: read_escape)

lemma read_string_print: "read_string (print_json_string (Some v) @ r) = Some (v, r)"
  by (simp add: read_string_def print_json_string_def read_chars_print)

lemma json_text_head: "\<exists>c t. json_text v = c # t \<and> c \<noteq> CHR '']''"
proof (cases v)
  case (JNum n)
  obtain c t where "show_nat n = c # t" by (cases "show_nat n") auto
  then show ?thesis using show_nat_digits [of n] JNum by (auto simp: char_simps)
qed (simp_all add: print_json_string_def)

definition number_ends :: "string \<Rightarrow> bool" where
  "number_ends r \<longleftrightarrow> r = [] \<or> \<not> c_isdigit (hd r)"

lemma number_ends_punct [simp]: "number_ends (CHR '','' # r)" "number_ends (CHR '']'' # r)" "number_ends (CHR ''}'' # r)"
  by (simp_all add: number_ends_def char_simps)

lemma read_number:
  assumes "number_ends r"
  shows "read_value (Suc k) (show_nat n @ r) = Some (JNum n, r)"
proof -
  obtain c t where s: "show_nat n = c # t" by (cases "show_nat n") auto
  have c: "c_isdigit c" using show_nat_digits [of n] s by simp
  then have "c \<noteq> quote" by (auto simp: char_simps)
  moreover have "takeWhile c_isdigit (show_nat n @ r) = show_nat n" "dropWhile c_isdigit (show_nat n @ r) = r"
    using show_nat_digits assms unfolding number_ends_def by (intro takeWhile_stop dropWhile_stop; blast)+
  ultimately show ?thesis using s c dec_val_show_nat [of n] by simp
qed

text \<open>The steps of the induction on the fuel: a value, the items of an array and the members of an object.\<close>

abbreviation members_text :: "(string \<times> json) list \<Rightarrow> string" where
  "members_text ms \<equiv> join_with '','' (map (\<lambda>(k, v). print_json_string (Some k) @ '':'' @ json_text v) ms)"

abbreviation items_depth :: "json list \<Rightarrow> nat" where
  "items_depth vs \<equiv> sum_list (map (\<lambda>v. 1 + json_depth v) vs)"

abbreviation members_depth :: "(string \<times> json) list \<Rightarrow> nat" where
  "members_depth ms \<equiv> sum_list (map (\<lambda>(k, v). 1 + json_depth v) ms)"

lemma read_value_step:
  assumes "\<And>vs. vs \<noteq> [] \<Longrightarrow> items_depth vs \<le> n \<Longrightarrow>
      read_items n (join_with '','' (map json_text vs) @ CHR '']'' # r) = Some (vs, r)"
    and "\<And>ms. ms \<noteq> [] \<Longrightarrow> members_depth ms \<le> n \<Longrightarrow> read_members n (members_text ms @ CHR ''}'' # r) = Some (ms, r)"
    and "json_depth v \<le> Suc n" and "number_ends r"
  shows "read_value (Suc n) (json_text v @ r) = Some (v, r)"
proof (cases v)
  case (JStr s)
  then show ?thesis by (simp add: print_json_string_def read_chars_print)
next
  case (JNum m)
  then show ?thesis using read_number [OF assms(4)] by simp
next
  case (JArr xs)
  show ?thesis
  proof (cases xs)
    case Nil
    then show ?thesis using JArr by (simp add: char_simps)
  next
    case (Cons y ys)
    have "read_items n (join_with '','' (map json_text xs) @ CHR '']'' # r) = Some (xs, r)"
      by (rule assms(1)) (use assms(3) JArr Cons in simp_all)
    moreover obtain c t where "join_with '','' (map json_text xs) = c # t" "c \<noteq> CHR '']''"
      using Cons json_text_head [of y] by (cases ys) auto
    ultimately show ?thesis using JArr by (simp add: char_simps)
  qed
next
  case (JObj xs)
  show ?thesis
  proof (cases xs)
    case Nil
    then show ?thesis using JObj by (simp add: char_simps)
  next
    case (Cons y ys)
    have "read_members n (members_text xs @ CHR ''}'' # r) = Some (xs, r)"
      by (rule assms(2)) (use assms(3) JObj Cons in simp_all)
    moreover obtain t where "members_text xs = quote # t"
      using Cons by (cases y; cases ys) (auto simp: print_json_string_def)
    ultimately show ?thesis using JObj by (simp add: char_simps)
  qed
qed

lemma read_items_step:
  assumes "\<And>v r. json_depth v \<le> n \<Longrightarrow> number_ends r \<Longrightarrow> read_value n (json_text v @ r) = Some (v, r)"
    and "\<And>vs. vs \<noteq> [] \<Longrightarrow> items_depth vs \<le> n \<Longrightarrow>
      read_items n (join_with '','' (map json_text vs) @ CHR '']'' # r) = Some (vs, r)"
    and "vs \<noteq> []" and "items_depth vs \<le> Suc n"
  shows "read_items (Suc n) (join_with '','' (map json_text vs) @ CHR '']'' # r) = Some (vs, r)"
proof -
  obtain x xs where vs: "vs = x # xs" using \<open>vs \<noteq> []\<close> by (cases vs) auto
  have x: "json_depth x \<le> n" using assms(4) vs by simp
  show ?thesis
  proof (cases xs)
    case Nil
    then show ?thesis using vs assms(1) [OF x, of "CHR '']'' # r"] by simp
  next
    case (Cons y ys)
    have "read_items n (join_with '','' (map json_text xs) @ CHR '']'' # r) = Some (xs, r)"
      by (rule assms(2)) (use assms(4) vs Cons in simp_all)
    then show ?thesis using vs Cons assms(1) [OF x, of "CHR '','' # join_with '','' (map json_text xs) @ CHR '']'' # r"] by simp
  qed
qed

lemma read_members_step:
  assumes "\<And>v r. json_depth v \<le> n \<Longrightarrow> number_ends r \<Longrightarrow> read_value n (json_text v @ r) = Some (v, r)"
    and "\<And>ms. ms \<noteq> [] \<Longrightarrow> members_depth ms \<le> n \<Longrightarrow> read_members n (members_text ms @ CHR ''}'' # r) = Some (ms, r)"
    and "ms \<noteq> []" and "members_depth ms \<le> Suc n"
  shows "read_members (Suc n) (members_text ms @ CHR ''}'' # r) = Some (ms, r)"
proof -
  obtain k x xs where ms: "ms = (k, x) # xs" using \<open>ms \<noteq> []\<close> by (cases ms) auto
  have x: "json_depth x \<le> n" using assms(4) ms by simp
  show ?thesis
  proof (cases xs)
    case Nil
    then show ?thesis using ms assms(1) [OF x, of "CHR ''}'' # r"] by (simp add: read_string_print)
  next
    case (Cons y ys)
    have "read_members n (members_text xs @ CHR ''}'' # r) = Some (xs, r)"
      by (rule assms(2)) (use assms(4) ms Cons in simp_all)
    then show ?thesis using ms Cons assms(1) [OF x, of "CHR '','' # members_text xs @ CHR ''}'' # r"] by (simp add: read_string_print)
  qed
qed

lemma read_text:
  "(json_depth v \<le> n \<longrightarrow> number_ends r \<longrightarrow> read_value n (json_text v @ r) = Some (v, r))
 \<and> (vs \<noteq> [] \<longrightarrow> items_depth vs \<le> n \<longrightarrow> read_items n (join_with '','' (map json_text vs) @ CHR '']'' # r) = Some (vs, r))
 \<and> (ms \<noteq> [] \<longrightarrow> members_depth ms \<le> n \<longrightarrow> read_members n (members_text ms @ CHR ''}'' # r) = Some (ms, r))"
proof (induction n arbitrary: v vs ms r)
  case 0
  have "json_depth v \<noteq> 0" by (cases v) auto
  moreover have "vs \<noteq> [] \<Longrightarrow> items_depth vs \<noteq> 0" by (cases vs) auto
  moreover have "ms \<noteq> [] \<Longrightarrow> members_depth ms \<noteq> 0" by (cases ms) auto
  ultimately show ?case by simp
next
  case (Suc n)
  note v = Suc.IH [THEN conjunct1, rule_format] and i = Suc.IH [THEN conjunct2, THEN conjunct1, rule_format]
    and m = Suc.IH [THEN conjunct2, THEN conjunct2, rule_format]
  show ?case using read_value_step [OF i m] read_items_step [OF v i] read_members_step [OF v m] by blast
qed

lemma read_json_text: "json_depth v \<le> n \<Longrightarrow> number_ends r \<Longrightarrow> read_value n (json_text v @ r) = Some (v, r)"
  using read_text by blast

end
