(* ===== verification/Cli.thy ===== *)
theory Cli
  imports CText
begin

text \<open>
  \<open>src/trfx_cli.c\<close>: the command line. \<open>argv\<close> is the list of all arguments, the program name first; a
  parse yields the options, with the mode \<open>TRFX_CLI_MODE_INVALID\<close> and a message when it fails.
\<close>

datatype TrfxCliMode =
    TRFX_CLI_MODE_TUI | TRFX_CLI_MODE_HELP | TRFX_CLI_MODE_VERSION | TRFX_CLI_MODE_INTERFACES
  | TRFX_CLI_MODE_CONNECTIONS | TRFX_CLI_MODE_LISTENERS | TRFX_CLI_MODE_SYSTEM
  | TRFX_CLI_MODE_DIAGNOSTICS | TRFX_CLI_MODE_DROP | TRFX_CLI_MODE_KILL | TRFX_CLI_MODE_INVALID

datatype TrfxCliOutputFormat = TRFX_CLI_OUTPUT_TEXT | TRFX_CLI_OUTPUT_JSON

datatype TrfxExitCode = TRFX_EXIT_OK | TRFX_EXIT_ERROR | TRFX_EXIT_DATA_UNAVAILABLE

record TrfxCliOptions =
  co_mode :: TrfxCliMode
  co_output_format :: TrfxCliOutputFormat
  co_has_proto_filter :: int
  co_proto_filter :: string
  co_has_state_filter :: int
  co_state_filter :: string
  co_has_target_pid :: int
  co_target_pid :: string
  co_has_drop_target :: int
  co_drop_kind :: string
  co_drop_proto :: string
  co_drop_local :: string
  co_drop_remote :: string
  co_has_profile :: int
  co_profile_name :: string
  co_confirmed :: int
  co_error :: string

definition cli_default :: TrfxCliOptions where
  "cli_default = \<lparr>co_mode = TRFX_CLI_MODE_TUI, co_output_format = TRFX_CLI_OUTPUT_TEXT,
     co_has_proto_filter = 0, co_proto_filter = [], co_has_state_filter = 0, co_state_filter = [],
     co_has_target_pid = 0, co_target_pid = [], co_has_drop_target = 0, co_drop_kind = [], co_drop_proto = [],
     co_drop_local = [], co_drop_remote = [], co_has_profile = 0, co_profile_name = [], co_confirmed = 0,
     co_error = []\<rparr>"

definition is_command :: "string \<Rightarrow> TrfxCliMode option" where
  "is_command arg =
     (if arg = ''interfaces'' then Some TRFX_CLI_MODE_INTERFACES
      else if arg = ''connections'' then Some TRFX_CLI_MODE_CONNECTIONS
      else if arg = ''listeners'' then Some TRFX_CLI_MODE_LISTENERS
      else if arg = ''system'' then Some TRFX_CLI_MODE_SYSTEM
      else if arg = ''diagnostics'' then Some TRFX_CLI_MODE_DIAGNOSTICS
      else if arg = ''drop'' then Some TRFX_CLI_MODE_DROP
      else if arg = ''kill'' then Some TRFX_CLI_MODE_KILL
      else None)"

definition cli_states :: "string list" where
  "cli_states = [''ESTABLISHED'', ''SYN_SENT'', ''SYN_RECV'', ''FIN_WAIT1'', ''FIN_WAIT2'', ''TIME_WAIT'', ''CLOSE'',
     ''CLOSE_WAIT'', ''LAST_ACK'', ''LISTEN'', ''CLOSING'', ''NEW_SYN_RECV'', ''UNCONN'', ''UNKNOWN'']"

definition is_supported_state_filter :: "string \<Rightarrow> bool" where
  "is_supported_state_filter state = List.member cli_states state"

definition set_unknown_argument :: "TrfxCliOptions \<Rightarrow> string \<Rightarrow> TrfxCliOptions" where
  "set_unknown_argument opt arg =
     opt\<lparr>co_mode := TRFX_CLI_MODE_INVALID, co_error := fit 128 (''unknown argument: '' @ arg)\<rparr>"

definition cli_invalid :: "TrfxCliOptions \<Rightarrow> string \<Rightarrow> TrfxCliOptions" where
  "cli_invalid opt msg = opt\<lparr>co_mode := TRFX_CLI_MODE_INVALID, co_error := fit 128 msg\<rparr>"

text \<open>The protocol that a filter or a target names.\<close>

definition cli_proto :: "string \<Rightarrow> string option" where
  "cli_proto value = (if value = ''tcp'' \<or> value = ''TCP'' then Some ''TCP''
                      else if value = ''udp'' \<or> value = ''UDP'' then Some ''UDP'' else None)"

text \<open>The loop over the arguments after \<open>kill PID\<close> and after the endpoints of \<open>drop\<close>.\<close>

fun parse_confirm :: "string list \<Rightarrow> TrfxCliOptions \<Rightarrow> TrfxCliOptions" where
  "parse_confirm [] opt = opt"
| "parse_confirm (arg # rest) opt =
     (if arg = ''--yes'' \<or> arg = ''-y'' then parse_confirm rest (opt\<lparr>co_confirmed := 1\<rparr>)
      else set_unknown_argument opt arg)"

text \<open>The loop over the arguments after a reporting command.\<close>

fun parse_filters :: "string list \<Rightarrow> TrfxCliOptions \<Rightarrow> TrfxCliOptions" where
  "parse_filters [] opt = opt"
| "parse_filters (arg # rest) opt =
     (if arg = ''--json''
      then if co_output_format opt = TRFX_CLI_OUTPUT_JSON then set_unknown_argument opt arg
           else parse_filters rest (opt\<lparr>co_output_format := TRFX_CLI_OUTPUT_JSON\<rparr>)
      else if arg = ''--proto''
      then if co_mode opt \<noteq> TRFX_CLI_MODE_CONNECTIONS \<or> rest = [] \<or> co_has_proto_filter opt \<noteq> 0
           then set_unknown_argument opt arg
           else (case cli_proto (hd rest) of
                   None \<Rightarrow> set_unknown_argument opt (hd rest)
                 | Some p \<Rightarrow> parse_filters (tl rest) (opt\<lparr>co_proto_filter := fit 8 p, co_has_proto_filter := 1\<rparr>))
      else if arg = ''--state''
      then if co_mode opt \<noteq> TRFX_CLI_MODE_CONNECTIONS \<or> rest = [] \<or> co_has_state_filter opt \<noteq> 0
           then set_unknown_argument opt arg
           else if \<not> is_supported_state_filter (hd rest) then set_unknown_argument opt (hd rest)
           else parse_filters (tl rest) (opt\<lparr>co_state_filter := fit 32 (hd rest), co_has_state_filter := 1\<rparr>)
      else set_unknown_argument opt arg)"

declare parse_filters.simps(2) [simp del]

definition parse_drop :: "string list \<Rightarrow> TrfxCliOptions \<Rightarrow> TrfxCliOptions" where
  "parse_drop argv opt =
     (let o1 = opt\<lparr>co_mode := TRFX_CLI_MODE_DROP, co_drop_kind := fit 16 (argv ! 2)\<rparr>
      in case cli_proto (argv ! 3) of
           None \<Rightarrow> set_unknown_argument o1 (argv ! 3)
         | Some p \<Rightarrow>
             (let o2 = o1\<lparr>co_drop_proto := fit 8 p, co_drop_local := fit 64 (argv ! 4),
                         co_drop_remote := fit 64 (argv ! 5), co_has_drop_target := 1\<rparr>
              in if co_drop_kind o2 \<noteq> ''connection'' \<and> co_drop_kind o2 \<noteq> ''socket''
                 then set_unknown_argument o2 (co_drop_kind o2)
                 else parse_confirm (drop 6 argv) o2))"

text \<open>A single argument: \<open>None\<close> where the code goes on to the longer forms.\<close>

definition parse_single :: "string \<Rightarrow> TrfxCliOptions \<Rightarrow> TrfxCliOptions option" where
  "parse_single arg opt =
     (if arg = ''--help'' \<or> arg = ''-h'' then Some (opt\<lparr>co_mode := TRFX_CLI_MODE_HELP\<rparr>)
      else if arg = ''--version'' \<or> arg = ''-v'' then Some (opt\<lparr>co_mode := TRFX_CLI_MODE_VERSION\<rparr>)
      else if arg = ''kill'' then Some (cli_invalid opt ''kill requires a PID'')
      else if arg = ''drop'' then Some (cli_invalid opt ''drop requires a target type and endpoints'')
      else if arg = ''diagnostics'' then Some (opt\<lparr>co_mode := TRFX_CLI_MODE_DIAGNOSTICS\<rparr>)
      else map_option (\<lambda>m. opt\<lparr>co_mode := m\<rparr>) (is_command arg))"

text \<open>The part after the profile option; \<open>argv\<close> has at least two elements.\<close>

definition parse_command :: "string list \<Rightarrow> TrfxCliOptions \<Rightarrow> TrfxCliOptions" where
  "parse_command argv opt =
     (let argc = length argv; arg = argv ! 1
      in case (if argc = 2 then parse_single arg opt else None) of
           Some r \<Rightarrow> r
         | None \<Rightarrow>
             if 3 \<le> argc \<and> arg = ''kill''
             then parse_confirm (drop 3 argv)
                    (opt\<lparr>co_mode := TRFX_CLI_MODE_KILL, co_target_pid := fit 16 (argv ! 2), co_has_target_pid := 1\<rparr>)
             else if 6 \<le> argc \<and> arg = ''drop'' then parse_drop argv opt
             else (case (if 3 \<le> argc then is_command arg else None) of
                     Some m \<Rightarrow> parse_filters (drop 2 argv) (opt\<lparr>co_mode := m\<rparr>)
                   | None \<Rightarrow> set_unknown_argument opt arg))"

definition trfx_parse_cli :: "string list \<Rightarrow> TrfxCliOptions" where
  "trfx_parse_cli argv =
     (let argc = length argv; opt = cli_default
      in if argc \<le> 1 then opt
         else if argc = 2 \<and> argv ! 1 = ''--profile'' then cli_invalid opt ''profile requires a name''
         else if 3 \<le> argc \<and> argv ! 1 = ''--profile''
         then (let o1 = opt\<lparr>co_profile_name := fit 64 (argv ! 2), co_has_profile := 1\<rparr>
               in if argc = 3 then o1 else parse_command (drop 2 argv) o1)
         else parse_command argv opt)"

definition trfx_print_cli_help :: string where
  "trfx_print_cli_help = concat (map (\<lambda>l. l @ [nl])
     [''Usage: trafix [OPTION]'', [], ''Launch Trafix Linux monitoring TUI.'', [], ''Options:'',
      ''  -h, --help       Show this help message'', ''  -v, --version    Show version information'',
      ''  --profile NAME   Load a saved profile before running'', [], ''Commands:'',
      ''  interfaces       Print interface counters'', ''  connections      Print TCP/UDP connections'',
      ''  listeners        Print listening sockets'', ''  system           Print system overview'',
      ''  diagnostics      Print a troubleshooting snapshot'',
      ''  kill PID         Request a controlled process kill'',
      ''  drop TYPE ...    Request a controlled socket drop''])"

definition trfx_print_cli_version :: "string \<Rightarrow> string" where
  "trfx_print_cli_version version = ''trafix '' @ version @ [nl]"

definition trfx_print_cli_error :: "TrfxCliOptions option \<Rightarrow> string" where
  "trfx_print_cli_error options =
     (let message = (case options of Some opt \<Rightarrow> if co_error opt \<noteq> [] then co_error opt else ''invalid arguments''
                     | None \<Rightarrow> ''invalid arguments'')
      in ''trafix: '' @ message @ [nl] @ ''Try '' @ [CHR 0x27] @ ''trafix --help'' @ [CHR 0x27] @ '' for usage.'' @ [nl])"

definition trfx_print_cli_not_implemented :: "string \<Rightarrow> string" where
  "trfx_print_cli_not_implemented command = ''trafix: command not implemented yet: '' @ command @ [nl]"

section \<open>What the parser accepts\<close>

text \<open>The options that a command line can stand for.\<close>

definition cli_plain :: "TrfxCliOptions \<Rightarrow> bool" where
  "cli_plain opt \<longleftrightarrow> co_has_proto_filter opt = 0 \<and> co_proto_filter opt = [] \<and> co_has_state_filter opt = 0
     \<and> co_state_filter opt = []"

definition cli_no_action :: "TrfxCliOptions \<Rightarrow> bool" where
  "cli_no_action opt \<longleftrightarrow> co_has_target_pid opt = 0 \<and> co_target_pid opt = [] \<and> co_has_drop_target opt = 0
     \<and> co_drop_kind opt = [] \<and> co_drop_proto opt = [] \<and> co_drop_local opt = [] \<and> co_drop_remote opt = []
     \<and> co_confirmed opt = 0"

definition cli_profile_ok :: "TrfxCliOptions \<Rightarrow> bool" where
  "cli_profile_ok opt \<longleftrightarrow> co_error opt = []
     \<and> (co_has_profile opt = 0 \<and> co_profile_name opt = [] \<or> co_has_profile opt = 1 \<and> length (co_profile_name opt) < 64)"

definition cli_filters_ok :: "TrfxCliOptions \<Rightarrow> bool" where
  "cli_filters_ok opt \<longleftrightarrow>
     (co_has_proto_filter opt = 0 \<and> co_proto_filter opt = []
      \<or> co_has_proto_filter opt = 1 \<and> co_proto_filter opt \<in> {''TCP'', ''UDP''})
   \<and> (co_has_state_filter opt = 0 \<and> co_state_filter opt = []
      \<or> co_has_state_filter opt = 1 \<and> co_state_filter opt \<in> set cli_states)"

definition cli_mode_ok :: "TrfxCliOptions \<Rightarrow> bool" where
  "cli_mode_ok opt = (case co_mode opt of
     TRFX_CLI_MODE_CONNECTIONS \<Rightarrow> cli_no_action opt \<and> cli_filters_ok opt
   | TRFX_CLI_MODE_KILL \<Rightarrow> cli_plain opt \<and> co_output_format opt = TRFX_CLI_OUTPUT_TEXT
       \<and> co_has_target_pid opt = 1 \<and> length (co_target_pid opt) < 16 \<and> co_has_drop_target opt = 0
       \<and> co_drop_kind opt = [] \<and> co_drop_proto opt = [] \<and> co_drop_local opt = [] \<and> co_drop_remote opt = []
       \<and> co_confirmed opt \<in> {0, 1}
   | TRFX_CLI_MODE_DROP \<Rightarrow> cli_plain opt
       \<and> (if co_has_drop_target opt = 1
          then co_output_format opt = TRFX_CLI_OUTPUT_TEXT \<and> co_has_target_pid opt = 0 \<and> co_target_pid opt = []
            \<and> co_drop_kind opt \<in> {''connection'', ''socket''} \<and> co_drop_proto opt \<in> {''TCP'', ''UDP''}
            \<and> length (co_drop_local opt) < 64 \<and> length (co_drop_remote opt) < 64 \<and> co_confirmed opt \<in> {0, 1}
          else cli_no_action opt \<and> co_output_format opt = TRFX_CLI_OUTPUT_JSON)
   | TRFX_CLI_MODE_INVALID \<Rightarrow> False
   | m \<Rightarrow> cli_plain opt \<and> cli_no_action opt
       \<and> (m \<in> {TRFX_CLI_MODE_TUI, TRFX_CLI_MODE_HELP, TRFX_CLI_MODE_VERSION} \<longrightarrow> co_output_format opt = TRFX_CLI_OUTPUT_TEXT))"

definition cli_ok :: "TrfxCliOptions \<Rightarrow> bool" where
  "cli_ok opt \<longleftrightarrow> cli_profile_ok opt \<and> cli_mode_ok opt"

text \<open>The command line that asks for them.\<close>

definition yes_args :: "TrfxCliOptions \<Rightarrow> string list" where
  "yes_args opt = (if co_confirmed opt = 0 then [] else [''--yes''])"

definition filter_args :: "TrfxCliOptions \<Rightarrow> string list" where
  "filter_args opt =
     (if co_has_proto_filter opt = 0 then [] else [''--proto'', co_proto_filter opt])
     @ (if co_has_state_filter opt = 0 then [] else [''--state'', co_state_filter opt])
     @ (if co_output_format opt = TRFX_CLI_OUTPUT_TEXT then [] else [''--json''])"

definition mode_args :: "TrfxCliOptions \<Rightarrow> string list" where
  "mode_args opt = (case co_mode opt of
     TRFX_CLI_MODE_TUI \<Rightarrow> [] | TRFX_CLI_MODE_HELP \<Rightarrow> [''--help''] | TRFX_CLI_MODE_VERSION \<Rightarrow> [''--version'']
   | TRFX_CLI_MODE_INTERFACES \<Rightarrow> ''interfaces'' # filter_args opt
   | TRFX_CLI_MODE_CONNECTIONS \<Rightarrow> ''connections'' # filter_args opt
   | TRFX_CLI_MODE_LISTENERS \<Rightarrow> ''listeners'' # filter_args opt
   | TRFX_CLI_MODE_SYSTEM \<Rightarrow> ''system'' # filter_args opt
   | TRFX_CLI_MODE_DIAGNOSTICS \<Rightarrow> ''diagnostics'' # filter_args opt
   | TRFX_CLI_MODE_KILL \<Rightarrow> ''kill'' # co_target_pid opt # yes_args opt
   | TRFX_CLI_MODE_DROP \<Rightarrow>
       if co_has_drop_target opt = 1
       then ''drop'' # co_drop_kind opt # co_drop_proto opt # co_drop_local opt # co_drop_remote opt # yes_args opt
       else ''drop'' # filter_args opt
   | TRFX_CLI_MODE_INVALID \<Rightarrow> [])"

definition cli_args :: "TrfxCliOptions \<Rightarrow> string list" where
  "cli_args opt = (if co_has_profile opt = 0 then [] else [''--profile'', co_profile_name opt]) @ mode_args opt"

section \<open>The parser and the command lines\<close>

lemma cli_states_fit: "\<forall>s\<in>set cli_states. length s < 32"
  by (simp add: cli_states_def)

lemma supported_state: "is_supported_state_filter s \<longleftrightarrow> s \<in> set cli_states"
  by (simp add: is_supported_state_filter_def)

lemma cli_proto_names: "p \<in> {''TCP'', ''UDP''} \<Longrightarrow> cli_proto p = Some p \<and> length p < 8"
  by (auto simp: cli_proto_def)

lemma cli_proto_range: "cli_proto v = Some p \<Longrightarrow> p \<in> {''TCP'', ''UDP''}"
  by (auto simp: cli_proto_def split: if_splits)

text \<open>The options before the command is looked at.\<close>

definition cli_base :: "TrfxCliOptions \<Rightarrow> TrfxCliOptions" where
  "cli_base opt = cli_default\<lparr>co_has_profile := co_has_profile opt, co_profile_name := co_profile_name opt\<rparr>"

lemma parse_filters_args:
  assumes "cli_filters_ok opt" and "co_mode opt = TRFX_CLI_MODE_CONNECTIONS \<or> cli_plain opt"
  shows "parse_filters (filter_args opt) ((cli_base opt)\<lparr>co_mode := co_mode opt\<rparr>)
    = (cli_base opt)\<lparr>co_mode := co_mode opt, co_has_proto_filter := co_has_proto_filter opt,
        co_proto_filter := co_proto_filter opt, co_has_state_filter := co_has_state_filter opt,
        co_state_filter := co_state_filter opt, co_output_format := co_output_format opt\<rparr>"
proof -
  have states: "s \<in> set cli_states \<Longrightarrow> fit 32 s = s" for s using cli_states_fit by auto
  show ?thesis
    using assms cli_proto_names [of "co_proto_filter opt"] states [of "co_state_filter opt"]
      TrfxCliOutputFormat.exhaust [of "co_output_format opt"]
    by (cases "co_output_format opt")
      (auto simp: filter_args_def cli_filters_ok_def cli_plain_def parse_filters.simps(2) supported_state
        cli_base_def cli_default_def)
qed


lemma cli_plain_filters: "cli_plain opt \<Longrightarrow> cli_filters_ok opt"
  by (auto simp: cli_plain_def cli_filters_ok_def)

text \<open>A reporting command, with or without filters.\<close>

lemma parse_command_report:
  assumes "is_command c = Some (co_mode opt)" and "c \<notin> {''kill'', ''drop''} \<or> filter_args opt \<noteq> [] \<and> c = ''drop'' \<and> length (filter_args opt) < 4"
    and "cli_filters_ok opt" and "co_mode opt = TRFX_CLI_MODE_CONNECTIONS \<or> cli_plain opt"
    and "cli_no_action opt" and "co_error opt = []"
  shows "parse_command (x # c # filter_args opt) (cli_base opt) = opt"
proof -
  have eq: "(cli_base opt)\<lparr>co_mode := co_mode opt, co_has_proto_filter := co_has_proto_filter opt,
        co_proto_filter := co_proto_filter opt, co_has_state_filter := co_has_state_filter opt,
        co_state_filter := co_state_filter opt, co_output_format := co_output_format opt\<rparr> = opt"
    using assms(5,6) by (cases opt) (simp add: cli_base_def cli_default_def cli_no_action_def)
  note filters = parse_filters_args [OF assms(3,4), unfolded eq]
  show ?thesis
  proof (cases "filter_args opt = []")
    case True
    moreover have "parse_single c (cli_base opt) = Some ((cli_base opt)\<lparr>co_mode := co_mode opt\<rparr>)"
      using assms(1,2) True by (auto simp: parse_single_def is_command_def split: if_splits)
    ultimately show ?thesis using filters by (simp add: parse_command_def)
  next
    case False
    then have "3 \<le> length (x # c # filter_args opt)" "length (x # c # filter_args opt) \<noteq> 2" by (cases "filter_args opt"; simp)+
    then show ?thesis using filters assms(1,2) by (auto simp: parse_command_def is_command_def)
  qed
qed

lemma parse_command_args:
  assumes "cli_ok opt" and "co_mode opt \<noteq> TRFX_CLI_MODE_TUI"
  shows "parse_command (x # mode_args opt) (cli_base opt) = opt"
proof -
  have prof: "co_error opt = []" and mode: "cli_mode_ok opt" using assms(1) by (simp_all add: cli_ok_def cli_profile_ok_def)
  note report = parse_command_report [OF _ _ _ _ _ prof]
  show ?thesis
  proof (cases "co_mode opt")
    case TRFX_CLI_MODE_KILL
    then show ?thesis using mode prof
      by (cases opt) (auto simp: cli_mode_ok_def mode_args_def yes_args_def parse_command_def cli_base_def cli_default_def cli_plain_def)
  next
    case TRFX_CLI_MODE_DROP
    show ?thesis
    proof (cases "co_has_drop_target opt = 1")
      case True
      then show ?thesis using mode prof TRFX_CLI_MODE_DROP cli_proto_names [of "co_drop_proto opt"]
        by (cases opt) (auto simp: cli_mode_ok_def mode_args_def yes_args_def parse_command_def parse_drop_def
            cli_base_def cli_default_def cli_plain_def)
    next
      case False
      with mode TRFX_CLI_MODE_DROP have plain: "cli_plain opt" "cli_no_action opt" "co_output_format opt = TRFX_CLI_OUTPUT_JSON"
        by (simp_all add: cli_mode_ok_def)
      show ?thesis using False TRFX_CLI_MODE_DROP plain
          report [of "''drop''", OF _ _ cli_plain_filters [OF plain(1)] disjI2 [OF plain(1)] plain(2)]
        by (simp add: mode_args_def is_command_def filter_args_def cli_plain_def)
    qed
  next
    case TRFX_CLI_MODE_HELP
    then show ?thesis using mode prof
      by (cases opt) (auto simp: cli_mode_ok_def mode_args_def parse_command_def parse_single_def cli_base_def
          cli_default_def cli_plain_def cli_no_action_def)
  next
    case TRFX_CLI_MODE_VERSION
    then show ?thesis using mode prof
      by (cases opt) (auto simp: cli_mode_ok_def mode_args_def parse_command_def parse_single_def cli_base_def
          cli_default_def cli_plain_def cli_no_action_def)
  qed (use assms(2) mode report in \<open>auto simp: cli_mode_ok_def mode_args_def is_command_def cli_plain_filters\<close>)
qed

text \<open>C25. The command line parser understands every request that it can express: writing a valid set of options as
  a command line and parsing it yields the same options.\<close>

theorem cli_roundtrip:
  assumes "cli_ok opt"
  shows "trfx_parse_cli (program # cli_args opt) = opt"
proof (cases "co_mode opt = TRFX_CLI_MODE_TUI")
  case True
  then show ?thesis using assms
    by (cases opt) (auto simp: cli_ok_def cli_profile_ok_def cli_mode_ok_def cli_plain_def cli_no_action_def cli_args_def
        mode_args_def trfx_parse_cli_def cli_default_def)
next
  case False
  obtain a r where m: "mode_args opt = a # r" "a \<noteq> ''--profile''"
    using assms False by (cases "co_mode opt") (auto simp: mode_args_def cli_ok_def cli_mode_ok_def split: if_splits)
  note c = parse_command_args [OF assms False]
  show ?thesis
  proof (cases "co_has_profile opt = 0")
    case True
    then have "cli_base opt = cli_default" using assms by (simp add: cli_base_def cli_ok_def cli_profile_ok_def cli_default_def)
    then show ?thesis using c [of program] m True by (simp add: trfx_parse_cli_def cli_args_def)
  next
    case has: False
    then have "cli_base opt = cli_default\<lparr>co_profile_name := fit 64 (co_profile_name opt), co_has_profile := 1\<rparr>"
      using assms by (auto simp: cli_base_def cli_ok_def cli_profile_ok_def cli_default_def)
    then show ?thesis using c [of "co_profile_name opt"] m has by (simp add: trfx_parse_cli_def cli_args_def)
  qed
qed

definition demo_options :: TrfxCliOptions where
  "demo_options = cli_default\<lparr>co_mode := TRFX_CLI_MODE_DROP, co_has_drop_target := 1, co_drop_kind := ''connection'',
     co_drop_proto := ''TCP'', co_drop_local := ''10.0.0.1:22'', co_drop_remote := ''10.0.0.2:4000'', co_confirmed := 1,
     co_has_profile := 1, co_profile_name := ''home''\<rparr>"

lemma cli_roundtrip_witness:
  "trfx_parse_cli [''trafix'', ''--profile'', ''home'', ''drop'', ''connection'', ''TCP'', ''10.0.0.1:22'', ''10.0.0.2:4000'', ''--yes'']
     = demo_options"
proof -
  have "cli_ok demo_options"
    by (simp add: demo_options_def cli_ok_def cli_profile_ok_def cli_mode_ok_def cli_plain_def cli_default_def)
  from cli_roundtrip [OF this, of "''trafix''"] show ?thesis
    by (simp add: cli_args_def mode_args_def yes_args_def demo_options_def)
qed

text \<open>What a parse can end with besides valid options.\<close>

definition cli_refused :: "TrfxCliOptions \<Rightarrow> bool" where
  "cli_refused opt \<longleftrightarrow> co_mode opt = TRFX_CLI_MODE_INVALID \<and> co_error opt \<noteq> []"

lemma unknown_refused [simp]: "cli_refused (set_unknown_argument opt arg)" "msg \<noteq> [] \<Longrightarrow> cli_refused (cli_invalid opt msg)"
  by (simp_all add: cli_refused_def set_unknown_argument_def cli_invalid_def fit_def)

lemma parse_confirm_result:
  "parse_confirm args opt \<in> {opt, opt\<lparr>co_confirmed := 1\<rparr>} \<or> cli_refused (parse_confirm args opt)"
  by (induction args opt rule: parse_confirm.induct) auto

definition cli_report :: "TrfxCliMode \<Rightarrow> TrfxCliOptions \<Rightarrow> bool" where
  "cli_report m opt \<longleftrightarrow> co_mode opt = m \<and> cli_profile_ok opt \<and> cli_no_action opt \<and> cli_filters_ok opt
     \<and> (m = TRFX_CLI_MODE_CONNECTIONS \<or> cli_plain opt)"

lemma cli_report_updates:
  "cli_report m opt \<Longrightarrow> cli_report m (opt\<lparr>co_output_format := f\<rparr>)"
  "cli_report m opt \<Longrightarrow> co_mode opt = TRFX_CLI_MODE_CONNECTIONS \<Longrightarrow> p \<in> {''TCP'', ''UDP''} \<Longrightarrow>
     cli_report m (opt\<lparr>co_proto_filter := fit 8 p, co_has_proto_filter := 1\<rparr>)"
  "cli_report m opt \<Longrightarrow> co_mode opt = TRFX_CLI_MODE_CONNECTIONS \<Longrightarrow> s \<in> set cli_states \<Longrightarrow>
     cli_report m (opt\<lparr>co_state_filter := fit 32 s, co_has_state_filter := 1\<rparr>)"
proof -
  have states: "s \<in> set cli_states \<Longrightarrow> fit 32 s = s" using cli_states_fit by auto
  have protos: "p \<in> {''TCP'', ''UDP''} \<Longrightarrow> fit 8 p = p" by auto
  note defs = cli_report_def cli_profile_ok_def cli_no_action_def cli_filters_ok_def cli_plain_def
  show "cli_report m opt \<Longrightarrow> cli_report m (opt\<lparr>co_output_format := f\<rparr>)"
    unfolding defs by simp
  show "cli_report m opt \<Longrightarrow> co_mode opt = TRFX_CLI_MODE_CONNECTIONS \<Longrightarrow> p \<in> {''TCP'', ''UDP''} \<Longrightarrow>
     cli_report m (opt\<lparr>co_proto_filter := fit 8 p, co_has_proto_filter := 1\<rparr>)"
    unfolding defs using protos by simp
  show "cli_report m opt \<Longrightarrow> co_mode opt = TRFX_CLI_MODE_CONNECTIONS \<Longrightarrow> s \<in> set cli_states \<Longrightarrow>
     cli_report m (opt\<lparr>co_state_filter := fit 32 s, co_has_state_filter := 1\<rparr>)"
    unfolding defs using states by simp
qed

lemma parse_filters_result:
  "cli_report m opt \<Longrightarrow> cli_report m (parse_filters args opt) \<or> cli_refused (parse_filters args opt)"
proof (induction args opt rule: parse_filters.induct)
  case (2 arg rest opt)
  note step = parse_filters.simps(2) [of arg rest opt]
  consider "arg = ''--json''" | "arg = ''--proto''" | "arg = ''--state''" | "arg \<notin> {''--json'', ''--proto'', ''--state''}" by blast
  then show ?case
  proof cases
    case 1
    then show ?thesis unfolding step
      using "2.IH"(1) [OF 1] cli_report_updates(1) [OF "2.prems"] by simp
  next
    case 2
    show ?thesis
    proof (cases "cli_proto (hd rest)")
      case (Some p)
      then show ?thesis unfolding step
        using 2 "2.IH"(2) [OF _ 2 _ Some] cli_report_updates(2) [OF "2.prems" _ cli_proto_range [OF Some]] by simp
    next
      case None
      then show ?thesis unfolding step using 2 by simp
    qed
  next
    case 3
    then show ?thesis unfolding step
      using "2.IH"(3) cli_report_updates(3) [OF "2.prems", of "hd rest"] by (simp add: supported_state)
  qed (simp add: step)
qed simp

lemma parse_filters_json:
  "co_mode opt \<noteq> TRFX_CLI_MODE_CONNECTIONS \<Longrightarrow> args \<noteq> [] \<or> co_output_format opt = TRFX_CLI_OUTPUT_JSON \<Longrightarrow>
   co_output_format (parse_filters args opt) = TRFX_CLI_OUTPUT_JSON \<or> cli_refused (parse_filters args opt)"
proof (induction args opt rule: parse_filters.induct)
  case (2 arg rest opt)
  show ?case unfolding parse_filters.simps(2) [of arg] using 2 by auto
qed simp

definition cli_fresh :: "TrfxCliOptions \<Rightarrow> bool" where
  "cli_fresh opt \<longleftrightarrow> cli_profile_ok opt \<and> cli_plain opt \<and> cli_no_action opt \<and> co_output_format opt = TRFX_CLI_OUTPUT_TEXT"

lemma cli_fresh_report: "cli_fresh opt \<Longrightarrow> cli_report m (opt\<lparr>co_mode := m\<rparr>)"
  by (simp add: cli_fresh_def cli_report_def cli_profile_ok_def cli_no_action_def cli_plain_def cli_filters_ok_def)

lemma cli_report_ok:
  assumes "cli_report m opt" and "m \<in> {TRFX_CLI_MODE_INTERFACES, TRFX_CLI_MODE_CONNECTIONS, TRFX_CLI_MODE_LISTENERS,
      TRFX_CLI_MODE_SYSTEM, TRFX_CLI_MODE_DIAGNOSTICS} \<or> m = TRFX_CLI_MODE_DROP \<and> co_output_format opt = TRFX_CLI_OUTPUT_JSON"
  shows "cli_ok opt"
  using assms by (auto simp: cli_ok_def cli_report_def cli_mode_ok_def cli_no_action_def)

lemma is_command_modes:
  "is_command c = Some m \<Longrightarrow> m \<in> {TRFX_CLI_MODE_INTERFACES, TRFX_CLI_MODE_CONNECTIONS, TRFX_CLI_MODE_LISTENERS,
      TRFX_CLI_MODE_SYSTEM, TRFX_CLI_MODE_DIAGNOSTICS} \<or> m = TRFX_CLI_MODE_DROP \<and> c = ''drop'' \<or> m = TRFX_CLI_MODE_KILL \<and> c = ''kill''"
  by (auto simp: is_command_def split: if_splits)

lemma parse_single_result:
  assumes "cli_fresh opt" and "parse_single arg opt = Some r"
  shows "cli_ok r \<or> cli_refused r"
proof (cases "arg \<in> {''kill'', ''drop''}")
  case True
  then show ?thesis using assms(2) by (auto simp: parse_single_def)
next
  case False
  have direct: "cli_ok (opt\<lparr>co_mode := m\<rparr>)" if "m = TRFX_CLI_MODE_HELP \<or> m = TRFX_CLI_MODE_VERSION" for m
    using assms(1) that by (auto simp: cli_fresh_def cli_ok_def cli_profile_ok_def cli_mode_ok_def cli_plain_def cli_no_action_def)
  have report: "cli_ok (opt\<lparr>co_mode := m\<rparr>)" if "is_command arg = Some m" for m
    using cli_report_ok [OF cli_fresh_report [OF assms(1)]] is_command_modes [OF that] False by auto
  have "is_command ''diagnostics'' = Some TRFX_CLI_MODE_DIAGNOSTICS" by (simp add: is_command_def)
  then consider "arg \<in> {''--help'', ''-h''}" | "arg \<in> {''--version'', ''-v''}" | m where "is_command arg = Some m" "r = opt\<lparr>co_mode := m\<rparr>"
    using assms(2) False by (auto simp: parse_single_def split: if_splits)
  then show ?thesis
  proof cases
    case 1
    then have "r = opt\<lparr>co_mode := TRFX_CLI_MODE_HELP\<rparr>" using assms(2) by (auto simp: parse_single_def)
    then show ?thesis using direct by blast
  next
    case 2
    then have "r = opt\<lparr>co_mode := TRFX_CLI_MODE_VERSION\<rparr>" using assms(2) by (auto simp: parse_single_def)
    then show ?thesis using direct by blast
  qed (use report in blast)
qed

lemma parse_kill_result:
  assumes "cli_fresh opt"
  shows "let r = parse_confirm args (opt\<lparr>co_mode := TRFX_CLI_MODE_KILL, co_target_pid := fit 16 pid, co_has_target_pid := 1\<rparr>)
    in cli_ok r \<or> cli_refused r"
proof -
  let ?k = "opt\<lparr>co_mode := TRFX_CLI_MODE_KILL, co_target_pid := fit 16 pid, co_has_target_pid := 1\<rparr>"
  have "length (fit 16 pid) < 16" by (rule length_fit) simp
  then have "cli_ok ?k" "cli_ok (?k\<lparr>co_confirmed := 1\<rparr>)"
    using assms by (simp_all add: cli_fresh_def cli_ok_def cli_profile_ok_def cli_mode_ok_def cli_plain_def cli_no_action_def)
  then show ?thesis using parse_confirm_result [of args ?k] by (auto simp: Let_def)
qed

lemma parse_drop_result:
  assumes "cli_fresh opt"
  shows "cli_ok (parse_drop argv opt) \<or> cli_refused (parse_drop argv opt)"
proof (cases "cli_proto (argv ! 3)")
  case None
  then show ?thesis by (simp add: parse_drop_def Let_def)
next
  case (Some p)
  let ?d = "opt\<lparr>co_mode := TRFX_CLI_MODE_DROP, co_drop_kind := fit 16 (argv ! 2), co_drop_proto := fit 8 p,
     co_drop_local := fit 64 (argv ! 4), co_drop_remote := fit 64 (argv ! 5), co_has_drop_target := 1\<rparr>"
  show ?thesis
  proof (cases "fit 16 (argv ! 2) \<in> {''connection'', ''socket''}")
    case True
    have "fit 8 p \<in> {''TCP'', ''UDP''}" using cli_proto_range [OF Some] by auto
    moreover have "length (fit 64 s) < 64" for s by (rule length_fit) simp
    ultimately have "cli_ok ?d" "cli_ok (?d\<lparr>co_confirmed := 1\<rparr>)"
      using assms True
      by (simp_all add: cli_fresh_def cli_ok_def cli_profile_ok_def cli_mode_ok_def cli_plain_def cli_no_action_def)
    then show ?thesis using parse_confirm_result [of "drop 6 argv" ?d] True Some by (auto simp: parse_drop_def Let_def)
  next
    case False
    then show ?thesis using Some by (simp add: parse_drop_def Let_def)
  qed
qed

lemma parse_command_result:
  assumes "cli_fresh opt" and "2 \<le> length argv"
  shows "cli_ok (parse_command argv opt) \<or> cli_refused (parse_command argv opt)"
proof (cases "if length argv = 2 then parse_single (argv ! 1) opt else None")
  case (Some r)
  then show ?thesis using parse_single_result [OF assms(1)] by (simp add: parse_command_def Let_def split: if_splits)
next
  case None
  note top = None
  show ?thesis
  proof (cases "3 \<le> length argv \<and> argv ! 1 = ''kill'' \<or> 6 \<le> length argv \<and> argv ! 1 = ''drop''")
    case True
    then show ?thesis using top parse_kill_result [OF assms(1)] parse_drop_result [OF assms(1)]
      by (auto simp: parse_command_def Let_def)
  next
    case False
    show ?thesis
    proof (cases "if 3 \<le> length argv then is_command (argv ! 1) else None")
      case (Some m)
      let ?r = "parse_filters (drop 2 argv) (opt\<lparr>co_mode := m\<rparr>)"
      have m: "is_command (argv ! 1) = Some m" "3 \<le> length argv" using Some by (auto split: if_splits)
      have "cli_report m ?r \<or> cli_refused ?r" by (rule parse_filters_result) (rule cli_fresh_report [OF assms(1)])
      moreover have "m = TRFX_CLI_MODE_DROP \<Longrightarrow> co_output_format ?r = TRFX_CLI_OUTPUT_JSON \<or> cli_refused ?r"
        using m(2) by (intro parse_filters_json) auto
      moreover have "m \<noteq> TRFX_CLI_MODE_KILL" using is_command_modes [OF m(1)] False m(2) by auto
      ultimately have "cli_ok ?r \<or> cli_refused ?r" using is_command_modes [OF m(1)] cli_report_ok by blast
      moreover have "parse_command argv opt = ?r" using top False Some by (auto simp: parse_command_def Let_def)
      ultimately show ?thesis by simp
    next
      case None
      then show ?thesis using top False by (auto simp: parse_command_def Let_def)
    qed
  qed
qed

lemma cli_well_formed:
  "cli_ok (trfx_parse_cli argv) \<or> cli_refused (trfx_parse_cli argv)"
proof -
  have fresh: "cli_fresh cli_default" "cli_fresh (cli_default\<lparr>co_profile_name := fit 64 n, co_has_profile := 1\<rparr>)" for n
    using length_fit [of 64 n]
    by (simp_all add: cli_fresh_def cli_default_def cli_profile_ok_def cli_plain_def cli_no_action_def)
  have tui: "cli_ok opt" if "cli_fresh opt" "co_mode opt = TRFX_CLI_MODE_TUI" for opt
    using that by (simp add: cli_fresh_def cli_ok_def cli_mode_ok_def)
  have mode: "co_mode cli_default = TRFX_CLI_MODE_TUI" by (simp add: cli_default_def)
  have long: "2 \<le> length (drop 2 argv)" if "3 < length argv" using that by simp
  have prof: "cli_ok (parse_command (drop 2 argv) (cli_default\<lparr>co_profile_name := fit 64 n, co_has_profile := 1\<rparr>))
    \<or> cli_refused (parse_command (drop 2 argv) (cli_default\<lparr>co_profile_name := fit 64 n, co_has_profile := 1\<rparr>))"
    if "3 < length argv" for n using parse_command_result [OF fresh(2) long [OF that]] .
  show ?thesis
  proof (cases "3 < length argv")
    case True
    then show ?thesis using prof parse_command_result [OF fresh(1), of argv] by (simp add: trfx_parse_cli_def Let_def)
  next
    case False
    then show ?thesis
      using tui [OF fresh(1)] tui [OF fresh(2)] mode parse_command_result [OF fresh(1), of argv] by (auto simp: trfx_parse_cli_def Let_def)
  qed
qed

text \<open>C26. The result of the parser is always well formed: for any command line, either the options belong to
  exactly one request that can be expressed (a kill has a process id that fits its buffer, a drop of a target
  has a kind, a protocol and two endpoints, filters occur only for the connections and name a known protocol
  and state, a confirmation occurs only with an action), or the mode is invalid and there is a message.\<close>

theorem cli_result_well_formed:
  "cli_ok (trfx_parse_cli argv) \<or> cli_refused (trfx_parse_cli argv)"
  by (rule cli_well_formed)

end
