(* ===== verification/SysInfo.thy ===== *)
theory SysInfo
  imports OsView ProcInfo
begin

text \<open>
  \<open>src/trfx_sysinfo.c\<close>, \<open>src/trfx_meminfo.c\<close>, \<open>src/trfx_disk.c\<close> and \<open>src/trfx_cpu.c\<close>: the overview of the
  system, the memory, the mounted disks and the processors. Numbers that the kernel prints are read as the
  C library reads decimal numbers; a quotient by zero of two \<open>float\<close>s is \<open>None\<close>.
\<close>

text \<open>The system calls of these files: \<open>gethostname\<close>, \<open>uname\<close>, the login records (whether one is of type
  \<open>USER_PROCESS\<close>, and its user), the mount table, and \<open>statvfs\<close> (blocks, fragment size, free blocks).\<close>

record sys_env =
  se_os :: os_view
  se_hostname :: "string option"
  se_release :: "string option"
  se_logins :: "(bool \<times> string) list"
  se_mounts :: "(string \<times> string) list option"
  se_statvfs :: "string \<Rightarrow> (u64 \<times> u64 \<times> u64) option"

section \<open>Numbers in a stream\<close>

text \<open>\<open>%ld\<close> and \<open>%lf\<close> of \<open>fscanf\<close>: the value and the rest. (\<open>%f\<close> rounds the value to \<open>float\<close>.)\<close>

definition scan_long :: "string \<Rightarrow> (int \<times> string) option" where
  "scan_long s =
     (let (neg, body) = split_sign (dropWhile c_isspace s); ds = takeWhile c_isdigit body
      in if ds = [] then None
         else Some (clamp_long (if neg then - int (dec_val ds) else int (dec_val ds)), dropWhile c_isdigit body))"

definition scan_real :: "string \<Rightarrow> (rat \<times> string) option" where
  "scan_real s =
     (case split_sign (dropWhile c_isspace s) of (neg, body) \<Rightarrow>
        let ip = takeWhile c_isdigit body;
            r1 = dropWhile c_isdigit body;
            dot = (r1 \<noteq> [] \<and> hd r1 = CHR ''.'');
            fp = (if dot then takeWhile c_isdigit (tl r1) else []);
            r2 = (if dot then dropWhile c_isdigit (tl r1) else r1);
            ex = (r2 \<noteq> [] \<and> (hd r2 = CHR ''e'' \<or> hd r2 = CHR ''E''));
            eb = (if ex then snd (split_sign (tl r2)) else [])
        in if ip = [] \<and> fp = [] then None
           else if \<not> ex then Some (c_atof s, r2)
           else if takeWhile c_isdigit eb = [] then None
           else Some (c_atof s, dropWhile c_isdigit eb))"

fun scan_reals :: "nat \<Rightarrow> string \<Rightarrow> rat list" where
  "scan_reals 0 s = []"
| "scan_reals (Suc n) s = (case scan_real s of None \<Rightarrow> [] | Some (v, r) \<Rightarrow> v # scan_reals n r)"

section \<open>System overview\<close>

record SystemOverview =
  ov_hostname :: string
  ov_os_version :: string
  ov_kernel_version :: string
  ov_uptime :: string
  ov_load_avg :: string
  ov_logged_in_users :: string

definition login_name_max :: nat where "login_name_max = 32"

definition append_unique_user :: "string list \<Rightarrow> string \<Rightarrow> string list" where
  "append_unique_user users user =
     (if user = [] then users
      else if list_ex (\<lambda>u. take (login_name_max - 1) u = take (login_name_max - 1) user) users then users
      else if length users < 32 then users @ [take (login_name_max - 1) user] else users)"

definition join_users :: "nat \<Rightarrow> string list \<Rightarrow> string" where
  "join_users bufsize users =
     foldl (\<lambda>buf (i, u). cat_fit bufsize (if 0 < i then cat_fit bufsize buf '' '' else buf) u) []
       (zip [0..<length users] users)"

definition get_logged_in_users :: "(bool \<times> string) list \<Rightarrow> nat \<Rightarrow> string" where
  "get_logged_in_users logins bufsize =
     (let users = foldl (\<lambda>us (proc, user). if proc then append_unique_user us user else us) [] logins
      in if users = [] then fit bufsize ''N/A'' else join_users bufsize users)"

text \<open>The first \<open>PRETTY_NAME\<close> line that the format matches.\<close>

fun os_release_lines :: "string list \<Rightarrow> string \<Rightarrow> string" where
  "os_release_lines [] v = v"
| "os_release_lines (l # ls) v =
     (if starts_with ''PRETTY_NAME='' l
      then (case c_sscanf (sc_lits (''PRETTY_NAME='' @ [CHR 0x22]) @ [ScSet 127 (\<lambda>c. c \<noteq> CHR 0x22)]) l of
              [ScText t] \<Rightarrow> t | _ \<Rightarrow> os_release_lines ls v)
      else os_release_lines ls v)"

text \<open>Division and remainder of C by a positive number: they truncate towards zero.\<close>

definition c_quot :: "int \<Rightarrow> int \<Rightarrow> int" where
  "c_quot a b = (if 0 \<le> a then a div b else - ((- a) div b))"

definition c_rem :: "int \<Rightarrow> int \<Rightarrow> int" where
  "c_rem a b = (if 0 \<le> a then a mod b else - ((- a) mod b))"

definition format_uptime :: "rat \<Rightarrow> string" where
  "format_uptime secs =
     (let days = c_trunc (dbl (secs / 86400));
          hours = c_quot (c_rem (c_trunc secs) 86400) 3600;
          minutes = c_quot (c_rem (c_trunc secs) 3600) 60
      in fit 64 (show_int days @ ''d '' @ show_int hours @ ''h '' @ show_int minutes @ ''m''))"

definition get_system_overview :: "sys_env \<Rightarrow> SystemOverview" where
  "get_system_overview env =
     (let os = se_os env
      in \<lparr>ov_hostname = (case se_hostname env of Some h \<Rightarrow> fit 64 h | None \<Rightarrow> ''N/A''),
          ov_os_version = (case os_file os ''/etc/os-release'' of
             Some f \<Rightarrow> os_release_lines (c_lines 256 f) ''N/A'' | None \<Rightarrow> ''N/A''),
          ov_kernel_version = (case se_release env of Some r \<Rightarrow> fit 64 r | None \<Rightarrow> ''N/A''),
          ov_uptime = (case Option.bind (os_file os ''/proc/uptime'') scan_real of
             Some (secs, _) \<Rightarrow> format_uptime secs | None \<Rightarrow> ''N/A''),
          ov_load_avg = (case os_file os ''/proc/loadavg'' of None \<Rightarrow> ''N/A''
             | Some f \<Rightarrow> (case map flt (scan_reals 3 f) of
                 [a1, a5, a15] \<Rightarrow> fit 64 (fmt_fixed 2 a1 @ '' '' @ fmt_fixed 2 a5 @ '' '' @ fmt_fixed 2 a15)
               | _ \<Rightarrow> ''N/A'')),
          ov_logged_in_users = get_logged_in_users (se_logins env) 128\<rparr>)"

section \<open>Memory\<close>

record MemoryInfo =
  mi_total_ram :: int
  mi_used_ram :: int
  mi_free_ram :: int
  mi_total_swap :: int
  mi_used_swap :: int
  mi_mem_percent :: rat
  mi_top_processes :: string

text \<open>The rest of the format, \<open>" kB\\n"\<close>: it stops silently where the input differs.\<close>

definition skip_kb :: "string \<Rightarrow> string" where
  "skip_kb s =
     (case dropWhile c_isspace s of
        [] \<Rightarrow> []
      | c # t \<Rightarrow> if c = CHR ''k''
                  then (case t of [] \<Rightarrow> [] | d # u \<Rightarrow> if d = CHR ''B'' then dropWhile c_isspace u else t)
                  else c # t)"

lemma skip_kb_le: "length (skip_kb s) \<le> length s"
  using length_dropWhile_le [of c_isspace s]
  by (auto simp: skip_kb_def split: list.splits)
    (metis Suc_le_eq dual_order.trans length_Cons length_dropWhile_le less_imp_le_nat)+

text \<open>One call of \<open>fscanf\<close> that assigns both fields.\<close>

definition scan_meminfo :: "string \<Rightarrow> (string \<times> int \<times> string) option" where
  "scan_meminfo s =
     (let t = dropWhile c_isspace s; label = take 63 (takeWhile (\<lambda>c. \<not> c_isspace c) t)
      in if label = [] then None
         else (case scan_long (drop (length label) t) of
                 None \<Rightarrow> None | Some (v, r) \<Rightarrow> Some (label, v, skip_kb r)))"

lemma split_sign_le: "length (snd (split_sign s)) \<le> length s"
  by (cases s) auto

lemma scan_long_le: "scan_long s = Some (v, r) \<Longrightarrow> length r \<le> length s"
proof -
  assume a: "scan_long s = Some (v, r)"
  have "length r \<le> length (snd (split_sign (dropWhile c_isspace s)))"
    using a by (auto simp: scan_long_def Let_def length_dropWhile_le split: if_splits prod.splits)
  also have "\<dots> \<le> length (dropWhile c_isspace s)" by (rule split_sign_le)
  also have "\<dots> \<le> length s" by (rule length_dropWhile_le)
  finally show ?thesis .
qed

lemma scan_meminfo_shorter: "scan_meminfo s = Some (label, v, r) \<Longrightarrow> length r < length s"
proof -
  assume a: "scan_meminfo s = Some (label, v, r)"
  define t where "t = dropWhile c_isspace s"
  have l: "label = take 63 (takeWhile (\<lambda>c. \<not> c_isspace c) t)" "label \<noteq> []"
    using a by (auto simp: scan_meminfo_def Let_def t_def split: if_splits option.splits)
  obtain r0 where r: "scan_long (drop (length label) t) = Some (v, r0)" "r = skip_kb r0"
    using a l by (auto simp: scan_meminfo_def Let_def t_def split: if_splits option.splits)
  have "length label \<le> length t" using l length_takeWhile_le [of "\<lambda>c. \<not> c_isspace c" t] by simp
  moreover have "length r0 \<le> length t - length label" using scan_long_le [OF r(1)] by simp
  moreover have "length t \<le> length s" unfolding t_def by (rule length_dropWhile_le)
  moreover have "0 < length label" using l(2) by simp
  moreover have "length r \<le> length r0" using skip_kb_le [of r0] r(2) by simp
  ultimately show ?thesis by linarith
qed

function meminfo_pairs :: "string \<Rightarrow> (string \<times> int) list" where
  "meminfo_pairs s = (case scan_meminfo s of None \<Rightarrow> [] | Some (label, v, r) \<Rightarrow> (label, v) # meminfo_pairs r)"
  by pat_completeness auto
termination by (relation "measure length") (auto dest: scan_meminfo_shorter)

declare meminfo_pairs.simps [simp del]

text \<open>The last value of a label; 0 where it does not occur.\<close>

definition meminfo_value :: "(string \<times> int) list \<Rightarrow> string \<Rightarrow> int" where
  "meminfo_value ps label = foldl (\<lambda>v p. if fst p = label then snd p else v) 0 ps"

definition get_memory_info :: "os_view \<Rightarrow> MemoryInfo" where
  "get_memory_info os =
     (let ps = (case os_file os ''/proc/meminfo'' of None \<Rightarrow> [] | Some f \<Rightarrow> meminfo_pairs f);
          mem_total = meminfo_value ps ''MemTotal:'';
          free = meminfo_value ps ''MemFree:'' + meminfo_value ps ''Buffers:'' + meminfo_value ps ''Cached:'';
          used = mem_total - free;
          top = (case os_cmd os ''ps -eo pid,comm,%mem --sort=-%mem 2>/dev/null | head -n 4'' of
                   None \<Rightarrow> [] | Some out \<Rightarrow> foldl (cat_fit 512) [] (drop 1 (c_lines 128 out)))
      in \<lparr>mi_total_ram = mem_total, mi_used_ram = used, mi_free_ram = free,
          mi_total_swap = meminfo_value ps ''SwapTotal:'',
          mi_used_swap = meminfo_value ps ''SwapTotal:'' - meminfo_value ps ''SwapFree:'',
          mi_mem_percent = (if mem_total \<noteq> 0
                            then flt (flt (100 * flt (of_int used)) / flt (of_int mem_total)) else 0),
          mi_top_processes = top\<rparr>)"

section \<open>Disks\<close>

record DiskInfo =
  di_mount_point :: string
  di_filesystem :: string
  di_used_mb :: rat
  di_total_mb :: rat
  di_usage_percent :: rat
  di_temperature :: rat

definition max_disks :: nat where "max_disks = 100"

definition c_contains :: "string \<Rightarrow> string \<Rightarrow> bool" where
  "c_contains s p \<longleftrightarrow> c_strstr s p \<noteq> None"

definition skip_mount :: "string \<Rightarrow> string \<Rightarrow> bool" where
  "skip_mount fs dir \<longleftrightarrow>
     list_ex (\<lambda>p. starts_with p fs) [''tmpfs'', ''devtmpfs'', ''efivarfs'', ''fuse'']
   \<or> list_ex (c_contains fs) [''squashfs'', ''overlay'', ''cgroup'', ''proc'', ''sysfs'', ''debugfs'']
   \<or> list_ex (\<lambda>p. starts_with p dir) [''/run/'', ''/dev/'', ''/sys/'', ''/proc/'']"

definition blocks_mb :: "u64 \<Rightarrow> u64 \<Rightarrow> rat" where
  "blocks_mb blocks frsize =
     dbl (dbl (dbl (dbl (of_nat (unat blocks)) * dbl (of_nat (unat frsize))) / 1024) / 1024)"

text \<open>The row of a mount, unless it is skipped.\<close>

definition disk_row :: "sys_env \<Rightarrow> string \<times> string \<Rightarrow> DiskInfo option" where
  "disk_row env mnt =
     (case mnt of (fs, dir) \<Rightarrow>
        if skip_mount fs dir then None
        else (case se_statvfs env dir of
                None \<Rightarrow> None
              | Some (blocks, frsize, bfree) \<Rightarrow>
                  (let total_mb = blocks_mb blocks frsize; free_mb = blocks_mb bfree frsize;
                       used_mb = dbl (total_mb - free_mb)
                   in if total_mb \<le> 0 \<or> used_mb \<le> 0 then None
                      else Some \<lparr>di_mount_point = fit 64 dir, di_filesystem = fit 32 fs, di_used_mb = used_mb,
                                 di_total_mb = total_mb,
                                 di_usage_percent = dbl (dbl (used_mb / total_mb) * 100), di_temperature = -1\<rparr>)))"

text \<open>The loop over the mount table. It stops at the first row that does not fit.\<close>

fun disk_loop :: "sys_env \<Rightarrow> nat \<Rightarrow> (string \<times> string) list \<Rightarrow> DiskInfo list \<times> rat \<times> rat \<Rightarrow> DiskInfo list \<times> rat \<times> rat" where
  "disk_loop env mx [] st = st"
| "disk_loop env mx (m # ms) (rows, used, tot) =
     (case disk_row env m of
        None \<Rightarrow> disk_loop env mx ms (rows, used, tot)
      | Some d \<Rightarrow> if mx \<le> length rows then (rows, used, tot)
                  else disk_loop env mx ms (rows @ [d], dbl (used + di_used_mb d), dbl (tot + di_total_mb d)))"

text \<open>The rows and the two totals; \<open>totals\<close> are the values of the caller's variables before.\<close>

definition get_disk_info :: "sys_env \<Rightarrow> nat \<Rightarrow> rat \<times> rat \<Rightarrow> DiskInfo list \<times> rat \<times> rat" where
  "get_disk_info env mx totals =
     (case se_mounts env of None \<Rightarrow> ([], totals) | Some ms \<Rightarrow> disk_loop env mx ms ([], 0, 0))"

section \<open>Processors\<close>

record CPUInfo =
  cpu_avg_usage :: "rat option"
  cpu_usage_per_core :: "rat option list"
  cpu_num_cores :: int
  cpu_frequency_per_core :: "rat list"
  cpu_temperature :: rat

definition stat_format :: "scan_dir list" where
  "stat_format = ScSkipStr # concat (replicate 8 [ScWs, ScUInt])"

text \<open>The eight fields of a line; a missing one is an uninitialised local of the code.\<close>

definition stat_fields :: "u64 list \<Rightarrow> string \<Rightarrow> u64 list" where
  "stat_fields junk line =
     (let vs = map (\<lambda>v. case v of ScNum n \<Rightarrow> word_of_int n | ScText _ \<Rightarrow> 0) (c_sscanf stat_format line)
      in vs @ drop (length vs) junk)"

definition stat_line :: "u64 list \<Rightarrow> string \<Rightarrow> u64 \<times> u64" where
  "stat_line junk line = (let vs = stat_fields junk line in (sum_list vs, vs ! 3))"

text \<open>The total and the idle time of each processor line, up to the first other line.\<close>

definition stat_rows :: "u64 list \<Rightarrow> string \<Rightarrow> (u64 \<times> u64) list" where
  "stat_rows junk content = map (stat_line junk) (takeWhile (starts_with ''cpu'') (c_lines 256 content))"

definition core_usage :: "u64 \<times> u64 \<Rightarrow> u64 \<times> u64 \<Rightarrow> rat option" where
  "core_usage prev cur =
     (let delta_total = fst cur - fst prev; delta_idle = snd cur - snd prev
      in if delta_total = 0 then None
         else Some (flt (flt (100 * flt (of_nat (unat (delta_total - delta_idle)))) / flt (of_nat (unat delta_total)))))"

definition core_usages :: "(u64 \<times> u64) list \<Rightarrow> (u64 \<times> u64) list \<Rightarrow> rat option list" where
  "core_usages prev cur =
     map (\<lambda>i. core_usage (if i < length prev then prev ! i else (0, 0)) (cur ! i)) [0..<length cur]"

definition core_frequency :: "os_view \<Rightarrow> nat \<Rightarrow> rat" where
  "core_frequency os i =
     (case os_file os (fit 128 (''/sys/devices/system/cpu/cpu'' @ show_nat i @ ''/cpufreq/scaling_cur_freq'')) of
        None \<Rightarrow> 0
      | Some f \<Rightarrow> (case scan_long f of None \<Rightarrow> 0 | Some (v, _) \<Rightarrow> flt (flt (of_int (to_int32 v)) / 1000)))"

definition sensors_command :: string where
  "sensors_command = ''sensors 2>/dev/null | grep '' @ [CHR 0x27] @ ''Core 0:'' @ [CHR 0x27]"

definition read_temperature :: "os_view \<Rightarrow> rat" where
  "read_temperature os =
     (case os_cmd os sensors_command of
        None \<Rightarrow> -1
      | Some out \<Rightarrow>
          (case c_fgets 128 out of
             None \<Rightarrow> 0
           | Some (line, _) \<Rightarrow>
               (case c_sscanf (sc_lits ''Core 0: +'' @ [ScStr 127]) line of
                  [ScText t] \<Rightarrow> (case scan_real t of Some (v, _) \<Rightarrow> flt v | None \<Rightarrow> 0)
                | _ \<Rightarrow> 0)))"

definition cpu_zero :: CPUInfo where
  "cpu_zero = \<lparr>cpu_avg_usage = Some 0, cpu_usage_per_core = [], cpu_num_cores = 0, cpu_frequency_per_core = [],
     cpu_temperature = 0\<rparr>"

text \<open>\<open>stat1\<close> and \<open>stat2\<close> are \<open>/proc/stat\<close> before and after the pause of 100 ms. The per-core lists are the filled
  entries of the arrays.\<close>

definition get_cpu_info :: "os_view \<Rightarrow> u64 list \<Rightarrow> string option \<Rightarrow> string option \<Rightarrow> CPUInfo" where
  "get_cpu_info os junk stat1 stat2 =
     (case (stat1, stat2) of
        (Some s1, Some s2) \<Rightarrow>
          (let usages = core_usages (stat_rows junk s1) (stat_rows junk s2)
           in \<lparr>cpu_avg_usage = (case usages of [] \<Rightarrow> Some 0 | u # _ \<Rightarrow> u),
               cpu_usage_per_core = drop 1 usages,
               cpu_num_cores = int (length usages) - 1,
               cpu_frequency_per_core = map (core_frequency os) [0..<length usages - 1],
               cpu_temperature = read_temperature os\<rparr>)
      | _ \<Rightarrow> cpu_zero)"

section \<open>The table of disks and the list of users\<close>

lemma disk_loop_eq:
  "disk_loop env mx ms (rows, used, tot) =
     (let ds = take (mx - length rows) (List.map_filter (disk_row env) ms)
      in (rows @ ds, foldl (\<lambda>a d. dbl (a + di_used_mb d)) used ds, foldl (\<lambda>a d. dbl (a + di_total_mb d)) tot ds))"
proof (induction ms arbitrary: rows used tot)
  case (Cons m ms)
  show ?case
  proof (cases "disk_row env m")
    case None
    with Cons show ?thesis by (simp add: List.map_filter_simps)
  next
    case (Some d)
    show ?thesis
    proof (cases "mx \<le> length rows")
      case False
      then have k: "mx - length rows = Suc (mx - Suc (length rows))" by simp
      from Some False Cons.IH [of "rows @ [d]"] show ?thesis
        by (simp add: List.map_filter_simps k Let_def)
    qed (simp add: Some List.map_filter_simps Let_def)
  qed
qed (simp add: List.map_filter_simps Let_def)

lemma disk_row_shown:
  "disk_row env (fs, dir) = Some d \<Longrightarrow> \<not> skip_mount fs dir \<and> 0 < di_used_mb d \<and> 0 < di_total_mb d
     \<and> di_mount_point d = fit 64 dir \<and> di_filesystem d = fit 32 fs"
proof -
  assume a: "disk_row env (fs, dir) = Some d"
  then have ns: "\<not> skip_mount fs dir" by (auto simp only: disk_row_def prod.case split: if_splits)
  then obtain b z f where v: "se_statvfs env dir = Some (b, z, f)"
    using a by (cases "se_statvfs env dir") (auto simp: disk_row_def)
  define t u where "t = blocks_mb b z" and "u = dbl (t - blocks_mb f z)"
  define r where "r = \<lparr>di_mount_point = fit 64 dir, di_filesystem = fit 32 fs, di_used_mb = u, di_total_mb = t,
      di_usage_percent = dbl (dbl (u / t) * 100), di_temperature = -1\<rparr>"
  have eq: "disk_row env (fs, dir) = (if t \<le> 0 \<or> u \<le> 0 then None else Some r)"
    using ns v unfolding t_def u_def r_def by (simp only: disk_row_def prod.case option.case if_False Let_def)
  have pos: "\<not> (t \<le> 0 \<or> u \<le> 0)"
  proof
    assume "t \<le> 0 \<or> u \<le> 0"
    then have "disk_row env (fs, dir) = None" using eq by (simp only: if_True)
    with a show False by simp
  qed
  then have "disk_row env (fs, dir) = Some r" using eq by (simp only: if_False)
  with a have "d = r" by simp
  moreover have "di_used_mb r = u" "di_total_mb r = t" "di_mount_point r = fit 64 dir" "di_filesystem r = fit 32 fs"
    by (simp_all add: r_def)
  ultimately show ?thesis using ns pos by simp
qed

text \<open>A row that stands for a real file system of the mount table.\<close>

definition disk_shown :: "(string \<times> string) list \<Rightarrow> DiskInfo \<Rightarrow> bool" where
  "disk_shown ms d \<longleftrightarrow> 0 < di_used_mb d \<and> 0 < di_total_mb d
     \<and> list_ex (\<lambda>(fs, dir). \<not> skip_mount fs dir \<and> di_mount_point d = fit 64 dir \<and> di_filesystem d = fit 32 fs) ms"

lemma disk_rows_shown: "d \<in> set (take mx (List.map_filter (disk_row env) ms)) \<Longrightarrow> disk_shown ms d"
proof -
  assume "d \<in> set (take mx (List.map_filter (disk_row env) ms))"
  then have "d \<in> set (List.map_filter (disk_row env) ms)" by (rule in_set_takeD)
  then obtain m where m: "m \<in> set ms" "disk_row env m = Some d" unfolding set_map_filter by blast
  obtain fs dir where "m = (fs, dir)" by (cases m)
  then show ?thesis using m disk_row_shown [of env fs dir d] unfolding disk_shown_def list_ex_iff by blast
qed

text \<open>C30. The disk table shows the real file systems of the mount table in its order, up to the size of the array:
  no row is of a skipped kind, every row has space in use, and the two totals are the sums over exactly the
  rows that are shown.\<close>

theorem disk_table_exact:
  "case get_disk_info (env\<lparr>se_mounts := Some ms\<rparr>) mx t of (rows, used, tot) \<Rightarrow>
     rows = take mx (List.map_filter (disk_row env) ms)
   \<and> used = foldl (\<lambda>a d. dbl (a + di_used_mb d)) 0 rows \<and> tot = foldl (\<lambda>a d. dbl (a + di_total_mb d)) 0 rows
   \<and> list_all (disk_shown ms) rows"
proof -
  have row: "disk_row (env\<lparr>se_mounts := Some ms\<rparr>) = disk_row env" by (simp add: fun_eq_iff disk_row_def split: prod.splits)
  have "list_all (disk_shown ms) (take mx (List.map_filter (disk_row env) ms))"
    using disk_rows_shown by (fastforce simp: list_all_iff)
  then show ?thesis by (simp add: get_disk_info_def disk_loop_eq row Let_def)
qed

lemma append_unique_user_take:
  assumes "us = take 32 (dedup_first seen)" and "user \<noteq> []" and "\<forall>u\<in>set seen. length u \<le> 31"
  shows "append_unique_user us user = take 32 (dedup_first (seen @ [take 31 user]))"
proof -
  have "\<forall>u\<in>set us. length u \<le> 31" using assms(1,3) by (auto dest: in_set_takeD)
  then have "list_ex (\<lambda>u. take 31 u = take 31 user) us \<longleftrightarrow> take 31 user \<in> set us"
    by (fastforce simp: list_ex_iff)
  then have "append_unique_user us user = (if take 31 user \<in> set us then us
      else if length us < 32 then us @ [take 31 user] else us)"
    using assms(2) by (simp add: append_unique_user_def login_name_max_def)
  also have "\<dots> = take 32 (dedup_first (seen @ [take 31 user]))" using assms(1) by (rule dedup_take_step)
  finally show ?thesis .
qed

definition login_users :: "(bool \<times> string) list \<Rightarrow> string list" where
  "login_users logins = map (\<lambda>(_, u). take 31 u) (filter (\<lambda>(proc, u). proc \<and> u \<noteq> []) logins)"

lemma logged_in_users_fold:
  "us = take 32 (dedup_first seen) \<Longrightarrow> \<forall>u\<in>set seen. length u \<le> 31 \<Longrightarrow>
   foldl (\<lambda>us (proc, user). if proc then append_unique_user us user else us) us logins
     = take 32 (dedup_first (seen @ login_users logins))"
proof (induction logins arbitrary: us seen)
  case (Cons l logins)
  obtain proc user where l: "l = (proc, user)" by (cases l)
  show ?case
  proof (cases "proc \<and> user \<noteq> []")
    case True
    then have "append_unique_user us user = take 32 (dedup_first (seen @ [take 31 user]))"
      using Cons.prems by (intro append_unique_user_take) auto
    from Cons.IH [OF this] Cons.prems(2) True l show ?thesis by (simp add: login_users_def)
  next
    case False
    then have "(if proc then append_unique_user us user else us) = us" by (auto simp: append_unique_user_def)
    moreover have "login_users (l # logins) = login_users logins" using l False by (auto simp: login_users_def)
    ultimately show ?thesis using Cons.IH [OF Cons.prems] l by simp
  qed
qed (simp add: login_users_def)

lemma logged_in_users_exact:
  "get_logged_in_users logins n =
     (let us = take 32 (dedup_first (login_users logins)) in if us = [] then fit n ''N/A'' else join_users n us)"
  using logged_in_users_fold [of "[]" "[]" logins] by (simp add: get_logged_in_users_def)

end
