(* ===== verification/Diagnostics.thy ===== *)
theory Diagnostics
  imports SysInfo NetSnapshot Config History
begin

text \<open>
  \<open>src/trfx_diagnostics.c\<close>: the recent log lines, the diagnostics snapshot, which joins the collectors of the
  system with the network snapshot, and the alerts computed from it.
\<close>

record TrfxDiagnosticsLogLine =
  ll_source :: string
  ll_text :: string

text \<open>\<open>al_lines\<close> and \<open>lg_lines\<close> are the first \<open>count\<close> entries of the arrays.\<close>

record TrfxAlertSummary =
  al_lines :: "string list"

record TrfxDiagnosticsLogSnapshot =
  lg_status :: TrfxCollectorStatus
  lg_error :: string
  lg_lines :: "TrfxDiagnosticsLogLine list"

record TrfxDiagnosticsSnapshot =
  dg_system :: SystemOverview
  dg_cpu :: CPUInfo
  dg_memory :: MemoryInfo
  dg_disks :: "DiskInfo list"
  dg_disk_total_used_mb :: rat
  dg_disk_total_mb :: rat
  dg_processes :: TrfxProcessResult
  dg_network :: TrfxNetworkSnapshot
  dg_logs :: TrfxDiagnosticsLogSnapshot
  dg_status :: TrfxCollectorStatus

definition max_log_lines :: nat where "max_log_lines = 12"
definition max_alerts :: nat where "max_alerts = 8"

section \<open>Log lines\<close>

definition diagnostics_log_snapshot_reset :: TrfxDiagnosticsLogSnapshot where
  "diagnostics_log_snapshot_reset = \<lparr>lg_status = TRFX_COLLECTOR_PARSE_FAILED, lg_error = [], lg_lines = []\<rparr>"

definition diagnostics_log_snapshot_set_error ::
  "string option \<Rightarrow> TrfxDiagnosticsLogSnapshot \<Rightarrow> TrfxDiagnosticsLogSnapshot" where
  "diagnostics_log_snapshot_set_error message s =
     s\<lparr>lg_error := fit 128 (case message of None \<Rightarrow> ''logs unavailable''
                            | Some m \<Rightarrow> if m = [] then ''logs unavailable'' else m)\<rparr>"

definition log_entry :: "string \<Rightarrow> string \<Rightarrow> TrfxDiagnosticsLogLine" where
  "log_entry source line =
     \<lparr>ll_source = fit 32 (if source \<noteq> [] then source else ''logs''), ll_text = fit 256 (take 255 line)\<rparr>"

text \<open>A full array is moved down by one entry, and the new line takes the last slot.\<close>

definition log_push :: "TrfxDiagnosticsLogLine \<Rightarrow> TrfxDiagnosticsLogSnapshot \<Rightarrow> TrfxDiagnosticsLogSnapshot" where
  "log_push entry s =
     s\<lparr>lg_lines := (if length (lg_lines s) < max_log_lines then lg_lines s
                    else take (max_log_lines - 1) (drop 1 (lg_lines s))) @ [entry]\<rparr>"

definition diagnostics_log_snapshot_add ::
  "string \<Rightarrow> string \<Rightarrow> TrfxDiagnosticsLogSnapshot \<Rightarrow> TrfxDiagnosticsLogSnapshot" where
  "diagnostics_log_snapshot_add source line s = (if line = [] then s else log_push (log_entry source line) s)"

definition diagnostics_collect_log_file ::
  "string \<Rightarrow> string \<Rightarrow> TrfxDiagnosticsLogSnapshot \<Rightarrow> TrfxCollectorStatus \<times> TrfxDiagnosticsLogSnapshot" where
  "diagnostics_collect_log_file content source s =
     (let lines = filter (\<lambda>l. l \<noteq> []) (map cut_nl (c_lines 512 content));
          s1 = fold (diagnostics_log_snapshot_add source) lines s
      in if lines = [] then (TRFX_COLLECTOR_PARSE_FAILED, s1)
         else (TRFX_COLLECTOR_OK, s1\<lparr>lg_status := TRFX_COLLECTOR_OK, lg_error := []\<rparr>))"

text \<open>The status, the snapshot and the error buffer.\<close>

definition diagnostics_collect_log_path ::
  "net_env \<Rightarrow> string \<Rightarrow> string \<Rightarrow> TrfxDiagnosticsLogSnapshot \<Rightarrow> string option \<Rightarrow> nat \<Rightarrow>
   TrfxCollectorStatus \<times> TrfxDiagnosticsLogSnapshot \<times> string option" where
  "diagnostics_collect_log_path env path source s error error_size =
     (let e0 = put_buf error error_size []
      in if path = [] then (TRFX_COLLECTOR_INVALID_ARGUMENT, s, put_buf e0 error_size ''invalid argument'')
         else (case os_file (ne_os env) path of
                 None \<Rightarrow> (TRFX_COLLECTOR_OPEN_FAILED, s, put_buf e0 error_size (''open failed: '' @ ne_strerror env path))
               | Some content \<Rightarrow>
                   (case diagnostics_collect_log_file content source s of (status, s1) \<Rightarrow>
                      (status, s1, if status = TRFX_COLLECTOR_PARSE_FAILED
                                   then put_buf e0 error_size (''no readable log lines in '' @ path) else e0))))"

definition diagnostics_collect_log_command ::
  "net_env \<Rightarrow> string \<Rightarrow> string \<Rightarrow> TrfxDiagnosticsLogSnapshot \<Rightarrow> string option \<Rightarrow> nat \<Rightarrow>
   TrfxCollectorStatus \<times> TrfxDiagnosticsLogSnapshot \<times> string option" where
  "diagnostics_collect_log_command env command source s error error_size =
     (let e0 = put_buf error error_size []
      in if command = [] then (TRFX_COLLECTOR_INVALID_ARGUMENT, s, put_buf e0 error_size ''invalid argument'')
         else (case os_cmd (ne_os env) command of
                 None \<Rightarrow> (TRFX_COLLECTOR_OPEN_FAILED, s, put_buf e0 error_size (''open failed: '' @ ne_strerror env command))
               | Some content \<Rightarrow>
                   (case diagnostics_collect_log_file content source s of (status, s1) \<Rightarrow>
                      (status, s1, if status = TRFX_COLLECTOR_PARSE_FAILED
                                   then put_buf e0 error_size (''no readable log lines from '' @ source) else e0))))"

definition trfx_init_diagnostics_log_snapshot :: TrfxDiagnosticsLogSnapshot where
  "trfx_init_diagnostics_log_snapshot = diagnostics_log_snapshot_reset"

definition trfx_diagnostics_log_at :: "TrfxDiagnosticsLogSnapshot option \<Rightarrow> nat \<Rightarrow> TrfxDiagnosticsLogLine option" where
  "trfx_diagnostics_log_at snapshot index =
     (case snapshot of None \<Rightarrow> None
      | Some s \<Rightarrow> if length (lg_lines s) \<le> index then None
                  else Some (lg_lines s ! (length (lg_lines s) - 1 - index)))"

definition trfx_diagnostics_log_count :: "TrfxDiagnosticsLogSnapshot option \<Rightarrow> nat" where
  "trfx_diagnostics_log_count snapshot = (case snapshot of None \<Rightarrow> 0 | Some s \<Rightarrow> length (lg_lines s))"

definition trfx_collect_diagnostics_log_path ::
  "net_env \<Rightarrow> string \<Rightarrow> string \<Rightarrow> TrfxDiagnosticsLogSnapshot option \<Rightarrow> string option \<Rightarrow> nat \<Rightarrow>
   TrfxCollectorStatus \<times> TrfxDiagnosticsLogSnapshot option \<times> string option" where
  "trfx_collect_diagnostics_log_path env path source snapshot error error_size =
     (if snapshot = None
      then (TRFX_COLLECTOR_INVALID_ARGUMENT, None, put_buf error error_size ''invalid argument'')
      else (case diagnostics_collect_log_path env path source trfx_init_diagnostics_log_snapshot error error_size of
              (status, s, e) \<Rightarrow>
                (let s1 = s\<lparr>lg_status := status\<rparr>
                 in (status, Some (if status \<noteq> TRFX_COLLECTOR_OK then diagnostics_log_snapshot_set_error e s1 else s1), e))))"

definition log_file_sources :: "(string \<times> string) list" where
  "log_file_sources = [(''/var/log/syslog'', ''syslog''), (''/var/log/messages'', ''messages''), (''/var/log/kern.log'', ''kern.log'')]"

definition journal_command :: string where
  "journal_command = ''journalctl -k -n 12 --no-pager -o cat 2>/dev/null''"

definition dmesg_command :: string where
  "dmesg_command = ''dmesg --ctime --color=never 2>/dev/null''"

text \<open>The loop over the log files, which ends at the first that yields lines. The first component is the status
  before the loop when there is no file.\<close>

fun try_log_files ::
  "net_env \<Rightarrow> (string \<times> string) list \<Rightarrow> TrfxCollectorStatus \<times> TrfxDiagnosticsLogSnapshot \<times> string option \<Rightarrow>
   TrfxCollectorStatus \<times> TrfxDiagnosticsLogSnapshot \<times> string option" where
  "try_log_files env [] r = r"
| "try_log_files env (src # srcs) (st, s, e) =
     (case diagnostics_collect_log_path env (fst src) (snd src) s e 128 of
        (st1, s1, e1) \<Rightarrow> if st1 = TRFX_COLLECTOR_OK then (st1, s1, e1) else try_log_files env srcs (st1, s1, e1))"

definition try_log_command ::
  "net_env \<Rightarrow> string \<Rightarrow> string \<Rightarrow> TrfxCollectorStatus \<times> TrfxDiagnosticsLogSnapshot \<times> string option \<Rightarrow>
   TrfxCollectorStatus \<times> TrfxDiagnosticsLogSnapshot \<times> string option" where
  "try_log_command env command source r =
     (case r of (st, s, e) \<Rightarrow>
        if st \<noteq> TRFX_COLLECTOR_OK
        then diagnostics_collect_log_command env command source diagnostics_log_snapshot_reset e 128 else (st, s, e))"

definition trfx_collect_diagnostics_logs ::
  "net_env \<Rightarrow> TrfxDiagnosticsLogSnapshot option \<Rightarrow> string option \<Rightarrow> nat \<Rightarrow>
   TrfxCollectorStatus \<times> TrfxDiagnosticsLogSnapshot option \<times> string option" where
  "trfx_collect_diagnostics_logs env snapshot error error_size =
     (if snapshot = None
      then (TRFX_COLLECTOR_INVALID_ARGUMENT, None, put_buf error error_size ''invalid argument'')
      else (let e0 = put_buf error error_size []
            in case try_log_command env dmesg_command ''dmesg''
                      (try_log_command env journal_command ''journalctl''
                        (try_log_files env log_file_sources
                          (TRFX_COLLECTOR_OPEN_FAILED, trfx_init_diagnostics_log_snapshot, Some []))) of
                 (status, s, local_error) \<Rightarrow>
                   (let s1 = s\<lparr>lg_status := status\<rparr>
                    in if status \<noteq> TRFX_COLLECTOR_OK
                       then (let s2 = diagnostics_log_snapshot_set_error local_error s1
                             in (status, Some s2, put_buf e0 error_size (lg_error s2)))
                       else (status, Some s1, e0))))"

section \<open>Alerts\<close>

definition diagnostics_alert_summary_reset :: TrfxAlertSummary where
  "diagnostics_alert_summary_reset = \<lparr>al_lines = []\<rparr>"

definition trfx_init_alert_summary :: TrfxAlertSummary where
  "trfx_init_alert_summary = diagnostics_alert_summary_reset"

definition diagnostics_alert_summary_add :: "string \<Rightarrow> TrfxAlertSummary \<Rightarrow> TrfxAlertSummary" where
  "diagnostics_alert_summary_add line s =
     (if line = [] \<or> max_alerts \<le> length (al_lines s) then s
      else s\<lparr>al_lines := al_lines s @ [fit 128 (take 127 line)]\<rparr>)"

definition trfx_diagnostics_alert_at :: "TrfxAlertSummary option \<Rightarrow> nat \<Rightarrow> string option" where
  "trfx_diagnostics_alert_at summary index =
     (case summary of None \<Rightarrow> None
      | Some s \<Rightarrow> if length (al_lines s) \<le> index then None else Some (al_lines s ! index))"

definition trfx_diagnostics_alert_count :: "TrfxAlertSummary option \<Rightarrow> nat" where
  "trfx_diagnostics_alert_count summary = (case summary of None \<Rightarrow> 0 | Some s \<Rightarrow> length (al_lines s))"

definition disk_usage_percent :: "TrfxDiagnosticsSnapshot \<Rightarrow> rat" where
  "disk_usage_percent s = dbl (dbl (dg_disk_total_used_mb s / dg_disk_total_mb s) * 100)"

definition add_alert :: "bool \<Rightarrow> string \<Rightarrow> TrfxAlertSummary \<Rightarrow> TrfxAlertSummary" where
  "add_alert cond line s = (if cond then diagnostics_alert_summary_add line s else s)"

definition cpu_alert :: "config \<Rightarrow> TrfxDiagnosticsSnapshot \<Rightarrow> bool" where
  "cpu_alert cfg s \<longleftrightarrow> 0 \<le> cpu_temperature (dg_cpu s) \<and> flt (of_int (TEMP_WARN_RED cfg)) \<le> cpu_temperature (dg_cpu s)"

definition memory_alert :: "config \<Rightarrow> TrfxDiagnosticsSnapshot \<Rightarrow> bool" where
  "memory_alert cfg s \<longleftrightarrow> 0 < mi_total_ram (dg_memory s)
     \<and> flt (of_int (ALERT_MEMORY_WARN_PERCENT cfg)) \<le> mi_mem_percent (dg_memory s)"

definition disk_alert :: "config \<Rightarrow> TrfxDiagnosticsSnapshot \<Rightarrow> bool" where
  "disk_alert cfg s \<longleftrightarrow> dg_disks s \<noteq> [] \<and> 0 < dg_disk_total_mb s \<and> 0 < ALERT_DISK_WARN_PERCENT cfg
     \<and> of_int (ALERT_DISK_WARN_PERCENT cfg) \<le> disk_usage_percent s"

definition route_alert :: "config \<Rightarrow> TrfxDiagnosticsSnapshot \<Rightarrow> bool" where
  "route_alert cfg s \<longleftrightarrow> ALERT_REQUIRE_DEFAULT_ROUTE cfg \<noteq> 0 \<and> sn_route_status (dg_network s) = TRFX_COLLECTOR_OK
     \<and> rs_has_default (sn_route (dg_network s)) = 0"

definition dns_alert :: "config \<Rightarrow> TrfxDiagnosticsSnapshot \<Rightarrow> bool" where
  "dns_alert cfg s \<longleftrightarrow> ALERT_REQUIRE_DNS cfg \<noteq> 0 \<and> sn_dns_status (dg_network s) = TRFX_COLLECTOR_OK
     \<and> ds_servers (sn_dns (dg_network s)) = []"

definition cpu_alert_line :: "config \<Rightarrow> TrfxDiagnosticsSnapshot \<Rightarrow> string" where
  "cpu_alert_line cfg s = fit 128 (''CPU temperature high: '' @ fmt_fixed 1 (cpu_temperature (dg_cpu s)) @ ''C >= ''
     @ show_int (TEMP_WARN_RED cfg) @ ''C'')"

definition memory_alert_line :: "config \<Rightarrow> TrfxDiagnosticsSnapshot \<Rightarrow> string" where
  "memory_alert_line cfg s = fit 128 (''Memory pressure high: '' @ fmt_fixed 1 (mi_mem_percent (dg_memory s)) @ ''% >= ''
     @ show_int (ALERT_MEMORY_WARN_PERCENT cfg) @ ''%'')"

definition disk_alert_line :: "config \<Rightarrow> TrfxDiagnosticsSnapshot \<Rightarrow> string" where
  "disk_alert_line cfg s = fit 128 (''Disk pressure high: '' @ fmt_fixed 1 (disk_usage_percent s) @ ''% >= ''
     @ show_int (ALERT_DISK_WARN_PERCENT cfg) @ ''%'')"

definition trfx_collect_diagnostics_alerts ::
  "config \<Rightarrow> TrfxDiagnosticsSnapshot option \<Rightarrow> TrfxAlertSummary option \<Rightarrow> TrfxAlertSummary option" where
  "trfx_collect_diagnostics_alerts cfg snapshot summary =
     (case (snapshot, summary) of
        (Some s, Some _) \<Rightarrow>
          Some (add_alert (dns_alert cfg s) ''DNS servers missing''
                 (add_alert (route_alert cfg s) ''Default route missing''
                   (add_alert (disk_alert cfg s) (disk_alert_line cfg s)
                     (add_alert (memory_alert cfg s) (memory_alert_line cfg s)
                       (add_alert (cpu_alert cfg s) (cpu_alert_line cfg s) diagnostics_alert_summary_reset)))))
      | _ \<Rightarrow> summary)"

section \<open>The diagnostics snapshot\<close>

text \<open>What a collection reads: the system, the network, and the two readings of \<open>/proc/stat\<close>. \<open>de_junk\<close> and
  \<open>de_stat_junk\<close> are uninitialised locals.\<close>

record diag_env =
  de_sys :: sys_env
  de_net :: net_env
  de_junk :: "u32 \<times> u32"
  de_stat1 :: "string option"
  de_stat2 :: "string option"
  de_stat_junk :: "u64 list"

text \<open>The zeros of \<open>memset\<close>.\<close>

definition zero_overview :: SystemOverview where
  "zero_overview = \<lparr>ov_hostname = [], ov_os_version = [], ov_kernel_version = [], ov_uptime = [], ov_load_avg = [],
     ov_logged_in_users = []\<rparr>"

definition zero_memory :: MemoryInfo where
  "zero_memory = \<lparr>mi_total_ram = 0, mi_used_ram = 0, mi_free_ram = 0, mi_total_swap = 0, mi_used_swap = 0,
     mi_mem_percent = 0, mi_top_processes = []\<rparr>"

definition trfx_init_diagnostics_snapshot :: TrfxDiagnosticsSnapshot where
  "trfx_init_diagnostics_snapshot = \<lparr>dg_system = zero_overview, dg_cpu = cpu_zero, dg_memory = zero_memory,
     dg_disks = [], dg_disk_total_used_mb = 0, dg_disk_total_mb = 0,
     dg_processes = \<lparr>pr_status = TRFX_PROCESS_COLLECTOR_OK, pr_error = [], pr_processes = []\<rparr>,
     dg_network = trfx_init_network_snapshot, dg_logs = trfx_init_diagnostics_log_snapshot,
     dg_status = TRFX_COLLECTOR_PARSE_FAILED\<rparr>"

text \<open>The status, the snapshot, the error buffer and the static hardware address of the network collector.\<close>

definition trfx_collect_diagnostics_snapshot ::
  "diag_env \<Rightarrow> TrfxDiagnosticsSnapshot option \<Rightarrow> string option \<Rightarrow> nat \<Rightarrow> string \<Rightarrow>
   TrfxCollectorStatus \<times> TrfxDiagnosticsSnapshot option \<times> string option \<times> string" where
  "trfx_collect_diagnostics_snapshot env snapshot error error_size mac =
     (if snapshot = None
      then (TRFX_COLLECTOR_INVALID_ARGUMENT, None, put_buf error error_size ''invalid argument'', mac)
      else (let os = ne_os (de_net env);
                e0 = put_buf error error_size [];
                s0 = trfx_init_diagnostics_snapshot;
                (disks, used, tot) = get_disk_info (de_sys env) max_disks (dg_disk_total_used_mb s0, dg_disk_total_mb s0);
                s1 = s0\<lparr>dg_system := get_system_overview (de_sys env),
                       dg_cpu := get_cpu_info os (de_stat_junk env) (de_stat1 env) (de_stat2 env),
                       dg_memory := get_memory_info os,
                       dg_processes := trfx_collect_processes os SORT_BY_MEM,
                       dg_disks := disks, dg_disk_total_used_mb := used, dg_disk_total_mb := tot\<rparr>;
                (net_st, net, e1, mac1) = trfx_collect_network_snapshot (de_net env) (de_junk env)
                                            (Some (dg_network s1)) e0 error_size mac;
                (log_st, logs, e2) = trfx_collect_diagnostics_logs (de_net env) (Some (dg_logs s1)) e1 error_size;
                status = (if net_st = TRFX_COLLECTOR_OK \<and> log_st \<noteq> TRFX_COLLECTOR_OK \<and> log_st \<noteq> TRFX_COLLECTOR_OPEN_FAILED
                          then log_st else net_st);
                s2 = s1\<lparr>dg_network := the net, dg_logs := the logs, dg_status := status\<rparr>
            in (status, Some s2, if status = TRFX_COLLECTOR_OK then put_buf e2 error_size [] else e2, mac1)))"

section \<open>The log window\<close>

definition log_valid :: "TrfxDiagnosticsLogSnapshot \<Rightarrow> bool" where
  "log_valid s \<longleftrightarrow> length (lg_lines s) \<le> max_log_lines"

lemma log_push_items: "log_valid s \<Longrightarrow> lg_lines (log_push e s) = lastn max_log_lines (lg_lines s @ [e])"
  by (cases "length (lg_lines s) < max_log_lines")
    (auto simp: log_push_def log_valid_def max_log_lines_def lastn_def)

interpretation logs: bounded_history max_log_lines log_valid lg_lines log_push
proof unfold_locales
  show "log_valid (log_push x s)" if "log_valid s" for x s
    using that log_push_items [OF that, of x] by (simp add: log_valid_def)
qed (simp_all add: log_push_items, simp add: max_log_lines_def)

text \<open>The nonblank lines of a text, as log entries.\<close>

definition log_rows :: "string \<Rightarrow> string \<Rightarrow> TrfxDiagnosticsLogLine list" where
  "log_rows source content = map (log_entry source) (filter (\<lambda>l. l \<noteq> []) (map cut_nl (c_lines 512 content)))"

lemma fold_log_add:
  "[] \<notin> set ls \<Longrightarrow> fold (diagnostics_log_snapshot_add source) ls s = fold log_push (map (log_entry source) ls) s"
  by (induction ls arbitrary: s) (auto simp: diagnostics_log_snapshot_add_def)

lemma collect_log_file_result:
  assumes "lg_lines s = []" and "diagnostics_collect_log_file content source s = (st, s1)"
  shows "(st = TRFX_COLLECTOR_OK \<longleftrightarrow> log_rows source content \<noteq> []) \<and> lg_lines s1 = lastn 12 (log_rows source content)"
proof -
  have "log_valid s" using assms by (simp add: log_valid_def)
  from logs.history_from_empty(2) [OF this assms(1), of "log_rows source content"] assms show ?thesis
    by (auto simp: diagnostics_collect_log_file_def Let_def fold_log_add log_rows_def max_log_lines_def lastn_def split: if_splits)
qed

text \<open>The sources in the order of the collection, and the first one with a line.\<close>

definition log_sources :: "os_view \<Rightarrow> (string \<times> string option) list" where
  "log_sources os = map (\<lambda>(p, n). (n, os_file os p)) log_file_sources
     @ [(''journalctl'', os_cmd os journal_command), (''dmesg'', os_cmd os dmesg_command)]"

fun first_rows :: "(string \<times> string option) list \<Rightarrow> TrfxDiagnosticsLogLine list" where
  "first_rows [] = []"
| "first_rows ((n, c) # srcs) =
     (let rows = (case c of None \<Rightarrow> [] | Some t \<Rightarrow> log_rows n t) in if rows = [] then first_rows srcs else rows)"

definition collected :: "TrfxDiagnosticsLogLine list \<Rightarrow> TrfxCollectorStatus \<times> TrfxDiagnosticsLogSnapshot \<times> string option \<Rightarrow> bool" where
  "collected rows r \<longleftrightarrow> (case r of (st, s, e) \<Rightarrow>
     (st = TRFX_COLLECTOR_OK \<longleftrightarrow> rows \<noteq> []) \<and> lg_lines s = lastn 12 rows)"

lemma collect_path_collected:
  assumes "lg_lines s = []" and "path \<noteq> []"
  shows "collected (case os_file (ne_os env) path of None \<Rightarrow> [] | Some t \<Rightarrow> log_rows n t)
    (diagnostics_collect_log_path env path n s e k)"
  using assms(2) collect_log_file_result [OF assms(1)]
  by (fastforce simp: collected_def diagnostics_collect_log_path_def Let_def assms(1) lastn_def split: option.splits prod.splits)

lemma collect_command_collected:
  assumes "lg_lines s = []" and "c \<noteq> []"
  shows "collected (case os_cmd (ne_os env) c of None \<Rightarrow> [] | Some t \<Rightarrow> log_rows n t)
    (diagnostics_collect_log_command env c n s e k)"
  using assms(2) collect_log_file_result [OF assms(1)]
  by (fastforce simp: collected_def diagnostics_collect_log_command_def Let_def assms(1) lastn_def split: option.splits prod.splits)

lemma try_log_files_collected:
  assumes "lg_lines s = []" and "st \<noteq> TRFX_COLLECTOR_OK" and "\<forall>(p, n)\<in>set srcs. p \<noteq> []"
  shows "collected (first_rows (map (\<lambda>(p, n). (n, os_file (ne_os env) p)) srcs)) (try_log_files env srcs (st, s, e))"
  using assms
proof (induction srcs arbitrary: st s e)
  case Nil
  then show ?case by (simp add: collected_def)
next
  case (Cons src srcs)
  obtain p n where src: "src = (p, n)" by (cases src)
  obtain st1 s1 e1 where r: "diagnostics_collect_log_path env p n s e 128 = (st1, s1, e1)" by (metis prod_cases3)
  have c: "collected (case os_file (ne_os env) p of None \<Rightarrow> [] | Some t \<Rightarrow> log_rows n t) (st1, s1, e1)"
    using collect_path_collected [OF Cons.prems(1), where path = p and env = env and n = n and e = e and k = 128] Cons.prems(3) src r by simp
  show ?case
  proof (cases "st1 = TRFX_COLLECTOR_OK")
    case True
    then show ?thesis using c src r by (auto simp: collected_def Let_def)
  next
    case False
    then have "lg_lines s1 = []" and "(case os_file (ne_os env) p of None \<Rightarrow> [] | Some t \<Rightarrow> log_rows n t) = []"
      using c by (auto simp: collected_def)
    then show ?thesis using Cons.IH [of s1 st1 e1] Cons.prems(3) False src r by (simp add: Let_def)
  qed
qed

lemma try_log_command_collected:
  assumes "collected rows r" and "c \<noteq> []"
  shows "collected (if rows = [] then (case os_cmd (ne_os env) c of None \<Rightarrow> [] | Some t \<Rightarrow> log_rows n t) else rows)
    (try_log_command env c n r)"
proof -
  obtain st s e where r: "r = (st, s, e)" by (metis prod_cases3)
  have "lg_lines diagnostics_log_snapshot_reset = []" by (simp add: diagnostics_log_snapshot_reset_def)
  from collect_command_collected [OF this assms(2)] show ?thesis
    using assms(1) by (auto simp: try_log_command_def r collected_def split: prod.splits)
qed

lemma first_rows_append: "first_rows (xs @ ys) = (if first_rows xs = [] then first_rows ys else first_rows xs)"
  by (induction xs) (auto simp: Let_def)

lemma collect_logs_rows:
  assumes "trfx_collect_diagnostics_logs env (Some old) err n = (st, Some s, e)"
  shows "lg_status s = st \<and> (st = TRFX_COLLECTOR_OK \<longleftrightarrow> first_rows (log_sources (ne_os env)) \<noteq> [])
    \<and> lg_lines s = lastn 12 (first_rows (log_sources (ne_os env)))"
proof -
  let ?f = "try_log_files env log_file_sources (TRFX_COLLECTOR_OPEN_FAILED, trfx_init_diagnostics_log_snapshot, Some [])"
  let ?r = "try_log_command env dmesg_command ''dmesg'' (try_log_command env journal_command ''journalctl'' ?f)"
  obtain st1 s1 e1 where r: "?r = (st1, s1, e1)" by (metis prod_cases3)
  have "collected (first_rows (map (\<lambda>(p, n). (n, os_file (ne_os env) p)) log_file_sources)) ?f"
    by (rule try_log_files_collected) (simp_all add: log_file_sources_def trfx_init_diagnostics_log_snapshot_def diagnostics_log_snapshot_reset_def)
  then have c: "collected (let a = first_rows (map (\<lambda>(p, n). (n, os_file (ne_os env) p)) log_file_sources);
        b = (if a = [] then (case os_cmd (ne_os env) journal_command of None \<Rightarrow> [] | Some t \<Rightarrow> log_rows ''journalctl'' t) else a)
      in if b = [] then (case os_cmd (ne_os env) dmesg_command of None \<Rightarrow> [] | Some t \<Rightarrow> log_rows ''dmesg'' t) else b) ?r"
    unfolding Let_def by (intro try_log_command_collected) (simp_all add: journal_command_def dmesg_command_def)
  have "first_rows (log_sources (ne_os env)) =
      (let a = first_rows (map (\<lambda>(p, n). (n, os_file (ne_os env) p)) log_file_sources);
        b = (if a = [] then (case os_cmd (ne_os env) journal_command of None \<Rightarrow> [] | Some t \<Rightarrow> log_rows ''journalctl'' t) else a)
      in if b = [] then (case os_cmd (ne_os env) dmesg_command of None \<Rightarrow> [] | Some t \<Rightarrow> log_rows ''dmesg'' t) else b)"
    unfolding log_sources_def first_rows_append by (simp add: Let_def)
  with c r have "collected (first_rows (log_sources (ne_os env))) (st1, s1, e1)" by metis
  then show ?thesis
    using assms by (auto simp: trfx_collect_diagnostics_logs_def Let_def r collected_def diagnostics_log_snapshot_set_error_def)
qed

text \<open>C29. The log panel shows the newest messages: the lines are those of the first source, in the fixed order of the
  log files, the journal and \<open>dmesg\<close>, that has a nonblank line; the last twelve of them are kept and read newest
  first, and the collection succeeds exactly when there is such a source.\<close>

theorem diagnostics_logs_newest_first:
  assumes "trfx_collect_diagnostics_logs env (Some old) err n = (st, Some s, e)"
    and "rows = first_rows (log_sources (ne_os env))"
  shows "(st = TRFX_COLLECTOR_OK) = (rows \<noteq> []) \<and> lg_status s = st
    \<and> trfx_diagnostics_log_count (Some s) = min 12 (length rows)
    \<and> trfx_diagnostics_log_at (Some s) i = (if i < min 12 (length rows) then Some (rev rows ! i) else None)"
proof -
  note r = collect_logs_rows [OF assms(1), folded assms(2)]
  have "lastn 12 rows ! (min 12 (length rows) - 1 - i) = rev rows ! i" if "i < min 12 (length rows)"
    using that by (subst rev_nth) (auto simp: lastn_def min_def split: if_splits)
  then show ?thesis using r by (auto simp: trfx_diagnostics_log_count_def trfx_diagnostics_log_at_def)
qed

text \<open>A system whose \<open>syslog\<close> has two lines, for the witnesses.\<close>

definition demo_log_env :: net_env where
  "demo_log_env = demo_net\<lparr>ne_os := os_empty\<lparr>os_file :=
     (\<lambda>p. if p = ''/var/log/syslog'' then Some (''boot'' @ nl # ''link up'' @ nl # []) else None)\<rparr>\<rparr>"

lemma demo_log_rows:
  "first_rows (log_sources (ne_os demo_log_env)) = [log_entry ''syslog'' ''boot'', log_entry ''syslog'' ''link up'']"
proof -
  have lines: "c_lines 512 (''boot'' @ nl # ''link up'' @ nl # []) = [''boot'' @ [nl], ''link up'' @ [nl]]"
    by (subst c_lines_line, simp, simp)+ simp
  have "log_rows ''syslog'' (''boot'' @ nl # ''link up'' @ nl # []) = [log_entry ''syslog'' ''boot'', log_entry ''syslog'' ''link up'']"
    unfolding log_rows_def lines by (simp add: cut_nl_def)
  then show ?thesis by (simp add: demo_log_env_def log_sources_def log_file_sources_def)
qed

lemma collect_logs_result: "\<exists>st s e. trfx_collect_diagnostics_logs env (Some old) err n = (st, Some s, e)"
  by (simp add: trfx_collect_diagnostics_logs_def Let_def split: prod.splits)

lemma diagnostics_logs_newest_first_witness:
  "\<exists>st s e. trfx_collect_diagnostics_logs demo_log_env (Some trfx_init_diagnostics_log_snapshot) None 0 = (st, Some s, e)
     \<and> st = TRFX_COLLECTOR_OK
     \<and> trfx_diagnostics_log_at (Some s) 0 = Some \<lparr>ll_source = ''syslog'', ll_text = ''link up''\<rparr>"
proof -
  obtain st s e where ex: "trfx_collect_diagnostics_logs demo_log_env (Some trfx_init_diagnostics_log_snapshot) None 0
      = (st, Some s, e)" using collect_logs_result by metis
  from diagnostics_logs_newest_first [OF ex demo_log_rows [symmetric], of 0] show ?thesis
    using ex by (simp add: log_entry_def)
qed

section \<open>The alerts of a snapshot\<close>

lemma add_alert_lines:
  "length (al_lines a) < 8 \<Longrightarrow> line \<noteq> [] \<Longrightarrow>
     al_lines (add_alert c line a) = al_lines a @ (if c then [fit 128 (take 127 line)] else [])"
  by (simp add: add_alert_def diagnostics_alert_summary_add_def max_alerts_def)

lemma fit_take_127 [simp]: "fit 128 (take 127 (fit 128 l)) = fit 128 l"
  by (simp add: fit_def)

lemma alert_lines_nonempty: "cpu_alert_line cfg s \<noteq> []" "memory_alert_line cfg s \<noteq> []" "disk_alert_line cfg s \<noteq> []"
  by (simp_all add: cpu_alert_line_def memory_alert_line_def disk_alert_line_def fit_def)

lemma alerts_of_snapshot:
  "map_option al_lines (trfx_collect_diagnostics_alerts cfg (Some s) (Some a)) = Some
     ((if cpu_alert cfg s then [cpu_alert_line cfg s] else [])
      @ (if memory_alert cfg s then [memory_alert_line cfg s] else [])
      @ (if disk_alert cfg s then [disk_alert_line cfg s] else [])
      @ (if route_alert cfg s then [''Default route missing''] else [])
      @ (if dns_alert cfg s then [''DNS servers missing''] else []))"
proof -
  have fit: "fit 128 (take 127 (cpu_alert_line cfg s)) = cpu_alert_line cfg s"
    "fit 128 (take 127 (memory_alert_line cfg s)) = memory_alert_line cfg s"
    "fit 128 (take 127 (disk_alert_line cfg s)) = disk_alert_line cfg s"
    by (simp_all only: cpu_alert_line_def memory_alert_line_def disk_alert_line_def fit_take_127)
  show ?thesis
    by (simp add: trfx_collect_diagnostics_alerts_def add_alert_lines alert_lines_nonempty fit
        diagnostics_alert_summary_reset_def)
qed

lemma diagnostics_network:
  assumes "trfx_collect_diagnostics_snapshot env (Some old) err n mac = (st, Some s, e, m)"
  obtains st1 e0 e1 where "trfx_collect_network_snapshot (de_net env) (de_junk env) (Some trfx_init_network_snapshot)
      e0 n mac = (st1, Some (dg_network s), e1, m)"
proof -
  let ?e0 = "put_buf err n []"
  obtain st1 net e1 m1 where net: "trfx_collect_network_snapshot (de_net env) (de_junk env) (Some trfx_init_network_snapshot)
      ?e0 n mac = (st1, Some net, e1, m1)" using snapshot_result by metis
  obtain st2 logs e2 where logs: "trfx_collect_diagnostics_logs (de_net env) (Some trfx_init_diagnostics_log_snapshot) e1 n
      = (st2, logs, e2)" by (metis prod_cases3)
  have "dg_network s = net" "m = m1"
    using assms net logs by (auto simp: trfx_collect_diagnostics_snapshot_def trfx_init_diagnostics_snapshot_def Let_def split: prod.splits)
  with net that show thesis by blast
qed

text \<open>C28. The alerts of a collected snapshot are exactly these, in this order: a high processor temperature, memory
  pressure, disk pressure and missing name servers, each when its condition holds and never cut off. The alert
  for a missing default route cannot occur, even when it is required and no default route exists, because the
  code tests for it only when the route collector succeeded, which it does only when there is a default route.\<close>

theorem alerts_of_collected_snapshot:
  assumes "trfx_collect_diagnostics_snapshot env (Some old) err n mac = (st, Some s, e, m)"
  shows "map_option al_lines (trfx_collect_diagnostics_alerts cfg (Some s) (Some a)) = Some
     ((if cpu_alert cfg s then [cpu_alert_line cfg s] else [])
      @ (if memory_alert cfg s then [memory_alert_line cfg s] else [])
      @ (if disk_alert cfg s then [disk_alert_line cfg s] else [])
      @ (if ALERT_REQUIRE_DNS cfg \<noteq> 0 \<and> sn_dns_status (dg_network s) = TRFX_COLLECTOR_OK
            \<and> ds_servers (sn_dns (dg_network s)) = [] then [''DNS servers missing''] else []))
   \<and> \<not> route_alert cfg s"
proof -
  obtain st1 e0 e1 where net: "trfx_collect_network_snapshot (de_net env) (de_junk env) (Some trfx_init_network_snapshot)
      e0 n mac = (st1, Some (dg_network s), e1, m)" using diagnostics_network [OF assms] .
  have "\<not> route_alert cfg s" using snapshot_consistency [OF net] by (auto simp: route_alert_def)
  then show ?thesis unfolding alerts_of_snapshot by (simp add: dns_alert_def)
qed

lemma diagnostics_result: "\<exists>st s e m. trfx_collect_diagnostics_snapshot env (Some old) err n mac = (st, Some s, e, m)"
  by (simp add: trfx_collect_diagnostics_snapshot_def Let_def split: prod.splits)

definition demo_diag :: diag_env where
  "demo_diag = \<lparr>de_sys = \<lparr>se_os = ne_os demo_log_env, se_hostname = Some ''host'', se_release = None, se_logins = [],
       se_mounts = None, se_statvfs = (\<lambda>_. None)\<rparr>,
     de_net = demo_log_env, de_junk = (0, 0), de_stat1 = None, de_stat2 = None, de_stat_junk = []\<rparr>"

lemma alerts_of_collected_snapshot_witness:
  "\<exists>st s e m. trfx_collect_diagnostics_snapshot demo_diag (Some trfx_init_diagnostics_snapshot) None 0 [] = (st, Some s, e, m)
     \<and> ALERT_REQUIRE_DEFAULT_ROUTE config_default = 1 \<and> \<not> route_alert config_default s"
proof -
  obtain st s e m where "trfx_collect_diagnostics_snapshot demo_diag (Some trfx_init_diagnostics_snapshot) None 0 []
      = (st, Some s, e, m)" using diagnostics_result by metis
  with alerts_of_collected_snapshot [OF this] show ?thesis by (auto simp: config_default_def)
qed

end
