(* ===== verification/CliOutput.thy ===== *)
theory CliOutput
  imports Json Cli Diagnostics
begin

text \<open>
  \<open>src/trfx_cli_output.c\<close>: the reports of the command line, as the text that is written to \<open>out\<close>.
\<close>

section \<open>Filters\<close>

definition connection_matches_filters :: "ConnectionInfo option \<Rightarrow> TrfxCliOptions option \<Rightarrow> bool" where
  "connection_matches_filters connection options =
     (case (connection, options) of
        (Some c, Some opt) \<Rightarrow>
          if co_has_proto_filter opt \<noteq> 0 \<and> ci_protocol c \<noteq> co_proto_filter opt then False
          else if co_has_state_filter opt \<noteq> 0 \<and> ci_state c \<noteq> co_state_filter opt then False
          else True
      | _ \<Rightarrow> False)"

definition cli_connection_is_listener :: "ConnectionInfo option \<Rightarrow> bool" where
  "cli_connection_is_listener connection =
     (case connection of None \<Rightarrow> False
      | Some c \<Rightarrow> if ci_state c = ''LISTEN'' then True else ci_protocol c = ''UDP'' \<and> ci_state c = ''UNCONN'')"

section \<open>Rows\<close>

text \<open>A loop that prints one row per element, with a comma before every row but the first.\<close>

definition print_rows :: "('a \<Rightarrow> string) \<Rightarrow> 'a list \<Rightarrow> string" where
  "print_rows f xs =
     fst (foldl (\<lambda>(out, written :: nat) x. (out @ (if 0 < written then '','' else []) @ f x, written + 1)) ([], 0) xs)"

definition text_rows :: "('a \<Rightarrow> string) \<Rightarrow> 'a list \<Rightarrow> string" where
  "text_rows f xs = concat (map (\<lambda>x. f x @ [nl]) xs)"

definition list_of :: "'a list option \<Rightarrow> 'a list" where
  "list_of xs = (case xs of None \<Rightarrow> [] | Some l \<Rightarrow> l)"

definition trfx_print_interfaces_text :: "TrfxInterfaceStatsResult option \<Rightarrow> string" where
  "trfx_print_interfaces_text result =
     pad_right 15 ''INTERFACE'' @ '' '' @ pad_left 12 ''RX_BYTES'' @ '' '' @ pad_left 12 ''TX_BYTES'' @ [nl]
     @ text_rows (\<lambda>s. pad_right 15 (is_name s) @ '' '' @ pad_left 12 (show_u64 (is_rx_bytes s)) @ '' ''
                      @ pad_left 12 (show_u64 (is_tx_bytes s)))
         (list_of (map_option isr_stats result))"

definition interface_json :: "TrfxInterfaceStat \<Rightarrow> string" where
  \<open>interface_json s = ''{"interface":'' @ print_json_string (Some (is_name s))
     @ '',"rx_bytes":'' @ show_u64 (is_rx_bytes s) @ '',"tx_bytes":'' @ show_u64 (is_tx_bytes s) @ ''}''\<close>

definition trfx_print_interfaces_json :: "TrfxInterfaceStatsResult option \<Rightarrow> string" where
  \<open>trfx_print_interfaces_json result =
     ''{"interfaces":['' @ print_rows interface_json (list_of (map_option isr_stats result)) @ '']}'' @ [nl]\<close>

definition connection_text :: "ConnectionInfo \<Rightarrow> string" where
  "connection_text c = pad_right 6 (ci_protocol c) @ '' '' @ pad_right 22 (ci_local_addr c) @ '' ''
     @ pad_right 22 (ci_remote_addr c) @ '' '' @ pad_right 15 (ci_state c) @ '' '' @ pad_right 8 (show_u32 (ci_uid c)) @ '' ''
     @ pad_right 16 (take 16 (ci_user c)) @ '' '' @ pad_right 7 (ci_pid c) @ '' '' @ pad_right 16 (take 16 (ci_process c))"

definition trfx_print_connections_text :: "ConnectionInfo list option \<Rightarrow> TrfxCliOptions option \<Rightarrow> string" where
  "trfx_print_connections_text connections options =
     pad_right 6 ''PROTO'' @ '' '' @ pad_right 22 ''LOCAL'' @ '' '' @ pad_right 22 ''REMOTE'' @ '' '' @ pad_right 15 ''STATE'' @ '' ''
     @ pad_right 8 ''UID'' @ '' '' @ pad_right 16 ''USER'' @ '' '' @ pad_right 7 ''PID'' @ '' '' @ pad_right 16 ''PROCESS'' @ [nl]
     @ text_rows connection_text (filter (\<lambda>c. connection_matches_filters (Some c) options) (list_of connections))"

definition connection_json :: "ConnectionInfo \<Rightarrow> string" where
  \<open>connection_json c =
     ''{"proto":'' @ print_json_string (Some (ci_protocol c)) @ '',"local":'' @ print_json_string (Some (ci_local_addr c))
     @ '',"remote":'' @ print_json_string (Some (ci_remote_addr c)) @ '',"state":'' @ print_json_string (Some (ci_state c))
     @ '',"uid":'' @ show_u32 (ci_uid c) @ '',"user":'' @ print_json_string (Some (ci_user c))
     @ '',"pid":'' @ print_json_string (Some (ci_pid c)) @ '',"process":'' @ print_json_string (Some (ci_process c)) @ ''}''\<close>

definition trfx_print_connections_json :: "ConnectionInfo list option \<Rightarrow> TrfxCliOptions option \<Rightarrow> string" where
  \<open>trfx_print_connections_json connections options =
     ''{"connections":[''
     @ print_rows connection_json (filter (\<lambda>c. connection_matches_filters (Some c) options) (list_of connections))
     @ '']}'' @ [nl]\<close>

definition listener_text :: "ConnectionInfo \<Rightarrow> string" where
  "listener_text c = pad_right 6 (ci_protocol c) @ '' '' @ pad_right 22 (ci_local_addr c) @ '' ''
     @ pad_right 8 (show_u32 (ci_uid c)) @ '' '' @ pad_right 16 (take 16 (ci_user c)) @ '' '' @ pad_right 7 (ci_pid c) @ '' ''
     @ pad_right 16 (take 16 (ci_process c))"

definition trfx_print_listeners_text :: "ConnectionInfo list option \<Rightarrow> string" where
  "trfx_print_listeners_text connections =
     pad_right 6 ''PROTO'' @ '' '' @ pad_right 22 ''LOCAL'' @ '' '' @ pad_right 8 ''UID'' @ '' '' @ pad_right 16 ''USER'' @ '' ''
     @ pad_right 7 ''PID'' @ '' '' @ pad_right 16 ''PROCESS'' @ [nl]
     @ text_rows listener_text (filter (\<lambda>c. cli_connection_is_listener (Some c)) (list_of connections))"

definition listener_json :: "ConnectionInfo \<Rightarrow> string" where
  \<open>listener_json c =
     ''{"proto":'' @ print_json_string (Some (ci_protocol c)) @ '',"local":'' @ print_json_string (Some (ci_local_addr c))
     @ '',"uid":'' @ show_u32 (ci_uid c) @ '',"user":'' @ print_json_string (Some (ci_user c))
     @ '',"pid":'' @ print_json_string (Some (ci_pid c)) @ '',"process":'' @ print_json_string (Some (ci_process c)) @ ''}''\<close>

definition trfx_print_listeners_json :: "ConnectionInfo list option \<Rightarrow> string" where
  \<open>trfx_print_listeners_json connections =
     ''{"listeners":['' @ print_rows listener_json (filter (\<lambda>c. cli_connection_is_listener (Some c)) (list_of connections))
     @ '']}'' @ [nl]\<close>

definition trfx_print_system_text :: "SystemOverview \<Rightarrow> string" where
  "trfx_print_system_text overview = concat (map (\<lambda>(k, v). pad_right 16 k @ '' '' @ v @ [nl])
     [(''HOSTNAME'', ov_hostname overview), (''OS'', ov_os_version overview), (''KERNEL'', ov_kernel_version overview),
      (''UPTIME'', ov_uptime overview), (''LOAD_AVG'', ov_load_avg overview),
      (''LOGGED_IN_USERS'', ov_logged_in_users overview)])"

definition trfx_print_system_json :: "SystemOverview \<Rightarrow> string" where
  \<open>trfx_print_system_json overview =
     ''{"hostname":'' @ print_json_string (Some (ov_hostname overview))
     @ '',"os":'' @ print_json_string (Some (ov_os_version overview))
     @ '',"kernel":'' @ print_json_string (Some (ov_kernel_version overview))
     @ '',"uptime":'' @ print_json_string (Some (ov_uptime overview))
     @ '',"load_avg":'' @ print_json_string (Some (ov_load_avg overview))
     @ '',"logged_in_users":'' @ print_json_string (Some (ov_logged_in_users overview)) @ ''}'' @ [nl]\<close>

section \<open>The diagnostics report\<close>

definition or_else :: "string \<Rightarrow> string \<Rightarrow> string" where
  "or_else s d = (if s \<noteq> [] then s else d)"

definition diagnostics_system_text :: "SystemOverview \<Rightarrow> string" where
  "diagnostics_system_text ov = text_rows id
     [''SYSTEM'', ''HOSTNAME          '' @ ov_hostname ov, ''OS                '' @ ov_os_version ov,
      ''KERNEL            '' @ ov_kernel_version ov, ''UPTIME            '' @ ov_uptime ov,
      ''LOAD_AVG          '' @ ov_load_avg ov, ''LOGGED_IN_USERS   '' @ ov_logged_in_users ov, []]"

definition diagnostics_network_text :: "TrfxNetworkSnapshot \<Rightarrow> string" where
  "diagnostics_network_text n = text_rows id
     [''NETWORK'',
      (if rs_has_default (sn_route n) \<noteq> 0
       then ''ROUTE             default via '' @ rs_gateway (sn_route n) @ '' dev '' @ rs_interface (sn_route n)
            @ '' metric '' @ rs_metric (sn_route n)
       else ''ROUTE             unavailable''),
      ''DNS               '' @ (if ds_servers (sn_dns n) \<noteq> [] then join_with '', '' (ds_servers (sn_dns n)) else ''unavailable''),
      ''ACTIVE_IFACE      '' @ (if sn_has_active_interface n then sn_active_interface n else ''unavailable'') @ '' (''
        @ sn_active_type n @ '') '' @ or_else (sn_active_ip n) ''N/A'' @ '' '' @ or_else (sn_active_mac n) ''N/A'',
      ''VPN               '' @ (if sn_has_vpn_interface n then sn_vpn_interface n else ''unavailable''), []]"

text \<open>\<open>nan\<close> is what the C library prints for an average that is not a finite number.\<close>

definition diagnostics_pressure_text :: "string \<Rightarrow> TrfxDiagnosticsSnapshot \<Rightarrow> string" where
  "diagnostics_pressure_text nan s = text_rows id
     [''PRESSURE'',
      ''CPU               avg '' @ (case cpu_avg_usage (dg_cpu s) of Some u \<Rightarrow> fmt_fixed 1 u | None \<Rightarrow> nan) @ ''% | temp ''
        @ fmt_fixed 1 (cpu_temperature (dg_cpu s)) @ ''C | cores '' @ show_int (cpu_num_cores (dg_cpu s)),
      ''MEMORY            '' @ fmt_fixed 1 (mi_mem_percent (dg_memory s)) @ ''% | RAM '' @ show_int (mi_used_ram (dg_memory s))
        @ ''/'' @ show_int (mi_total_ram (dg_memory s)) @ '' | SWAP '' @ show_int (mi_used_swap (dg_memory s)) @ ''/''
        @ show_int (mi_total_swap (dg_memory s)),
      ''DISK              '' @ show_nat (length (dg_disks s)) @ '' mounts | '' @ fmt_fixed 1 (dg_disk_total_used_mb s) @ ''/''
        @ fmt_fixed 1 (dg_disk_total_mb s) @ '' MB used'',
      ''PROCESSES         '' @ show_nat (length (pr_processes (dg_processes s))) @ '' captured | top ''
        @ (case pr_processes (dg_processes s) of p # _ \<Rightarrow> pi_command p | [] \<Rightarrow> ''unavailable''), []]"

definition diagnostics_alerts_text :: "TrfxAlertSummary \<Rightarrow> string" where
  "diagnostics_alerts_text alerts =
     ''ALERTS'' @ [nl]
     @ (if trfx_diagnostics_alert_count (Some alerts) = 0 then ''  none'' @ [nl]
        else text_rows (\<lambda>i. ''  '' @ the (trfx_diagnostics_alert_at (Some alerts) i))
               [0..<trfx_diagnostics_alert_count (Some alerts)])
     @ [nl]"

definition diagnostics_logs_text :: "TrfxDiagnosticsLogSnapshot \<Rightarrow> string" where
  "diagnostics_logs_text logs =
     ''LOGS'' @ [nl]
     @ (if trfx_diagnostics_log_count (Some logs) = 0 then ''  unavailable'' @ [nl]
        else text_rows (\<lambda>i. let l = the (trfx_diagnostics_log_at (Some logs) i) in ''  ['' @ ll_source l @ ''] '' @ ll_text l)
               [0..<trfx_diagnostics_log_count (Some logs)])"

definition trfx_print_diagnostics_text :: "config \<Rightarrow> string \<Rightarrow> TrfxDiagnosticsSnapshot option \<Rightarrow> string" where
  "trfx_print_diagnostics_text cfg nan snapshot =
     (case snapshot of None \<Rightarrow> []
      | Some s \<Rightarrow>
          diagnostics_system_text (dg_system s) @ diagnostics_network_text (dg_network s)
          @ diagnostics_pressure_text nan s
          @ diagnostics_alerts_text (the (trfx_collect_diagnostics_alerts cfg (Some s) (Some trfx_init_alert_summary)))
          @ diagnostics_logs_text (dg_logs s))"

section \<open>The JSON reports can be read back\<close>

lemma print_rows_join: "print_rows f xs = join_with '','' (map f xs)"
proof -
  have "fst (foldl (\<lambda>(out, written :: nat) x. (out @ (if 0 < written then '','' else []) @ f x, written + 1)) (o1, Suc k) ys)
      = o1 @ concat (map (\<lambda>x. '','' @ f x) ys)" for o1 k ys
    by (induction ys arbitrary: o1 k) auto
  moreover have "join_with '','' (map f (x # ys)) = f x @ concat (map (\<lambda>x. '','' @ f x) ys)" for x ys
    by (induction ys arbitrary: x) auto
  ultimately show ?thesis by (cases xs) (simp_all add: print_rows_def)
qed

definition interface_doc :: "TrfxInterfaceStat \<Rightarrow> json" where
  "interface_doc s = JObj [(''interface'', JStr (is_name s)), (''rx_bytes'', JNum (unat (is_rx_bytes s))),
     (''tx_bytes'', JNum (unat (is_tx_bytes s)))]"

definition connection_doc :: "ConnectionInfo \<Rightarrow> json" where
  "connection_doc c = JObj [(''proto'', JStr (ci_protocol c)), (''local'', JStr (ci_local_addr c)),
     (''remote'', JStr (ci_remote_addr c)), (''state'', JStr (ci_state c)), (''uid'', JNum (unat (ci_uid c))),
     (''user'', JStr (ci_user c)), (''pid'', JStr (ci_pid c)), (''process'', JStr (ci_process c))]"

definition listener_doc :: "ConnectionInfo \<Rightarrow> json" where
  "listener_doc c = JObj [(''proto'', JStr (ci_protocol c)), (''local'', JStr (ci_local_addr c)),
     (''uid'', JNum (unat (ci_uid c))), (''user'', JStr (ci_user c)), (''pid'', JStr (ci_pid c)),
     (''process'', JStr (ci_process c))]"

definition system_doc :: "SystemOverview \<Rightarrow> json" where
  "system_doc ov = JObj [(''hostname'', JStr (ov_hostname ov)), (''os'', JStr (ov_os_version ov)),
     (''kernel'', JStr (ov_kernel_version ov)), (''uptime'', JStr (ov_uptime ov)), (''load_avg'', JStr (ov_load_avg ov)),
     (''logged_in_users'', JStr (ov_logged_in_users ov))]"

text \<open>The keys are written without escapes.\<close>

lemma print_plain: "list_all (\<lambda>c. json_escape c = [c]) s \<Longrightarrow> print_json_string (Some s) = quote # s @ [quote]"
proof -
  assume "list_all (\<lambda>c. json_escape c = [c]) s"
  then have "concat (map json_escape s) = s" by (induction s) auto
  then show ?thesis by (simp add: print_json_string_def)
qed

lemma interface_json_text: "interface_json s = json_text (interface_doc s)"
  unfolding interface_json_def interface_doc_def
  by (simp add: print_plain [of "''interface''"] print_plain [of "''rx_bytes''"] print_plain [of "''tx_bytes''"]
      json_escape_def char_simps show_u64_def)

lemma connection_json_text: "connection_json c = json_text (connection_doc c)"
  unfolding connection_json_def connection_doc_def
  by (simp add: print_plain [of "''proto''"] print_plain [of "''local''"] print_plain [of "''remote''"]
      print_plain [of "''state''"] print_plain [of "''uid''"] print_plain [of "''user''"] print_plain [of "''pid''"]
      print_plain [of "''process''"] json_escape_def char_simps show_u32_def)

lemma listener_json_text: "listener_json c = json_text (listener_doc c)"
  unfolding listener_json_def listener_doc_def
  by (simp add: print_plain [of "''proto''"] print_plain [of "''local''"]
      print_plain [of "''uid''"] print_plain [of "''user''"] print_plain [of "''pid''"]
      print_plain [of "''process''"] json_escape_def char_simps show_u32_def)

definition reads_as :: "string \<Rightarrow> json \<Rightarrow> bool" where
  "reads_as out doc \<longleftrightarrow> read_value (json_depth doc) out = Some (doc, [nl])"

lemma reads_as_text: "reads_as (json_text doc @ [nl]) doc"
  unfolding reads_as_def by (rule read_json_text) (simp_all add: number_ends_def char_simps)

lemma report_text:
  assumes "list_all (\<lambda>c. json_escape c = [c]) key" and "\<And>x. f x = json_text (doc x)"
  shows "''{'' @ quote # key @ quote # '':['' @ print_rows f xs @ '']}'' = json_text (JObj [(key, JArr (map doc xs))])"
proof -
  have "f = (\<lambda>x. json_text (doc x))" using assms(2) by blast
  then show ?thesis by (simp add: print_plain [OF assms(1)] print_rows_join comp_def)
qed

lemma list_report:
  assumes "list_all (\<lambda>c. json_escape c = [c]) key" and "\<And>x. f x = json_text (doc x)"
    and "out = ''{'' @ quote # key @ quote # '':['' @ print_rows f xs @ '']}'' @ [nl]"
  shows "reads_as out (JObj [(key, JArr (map doc xs))])"
proof -
  have "json_text (JObj [(key, JArr (map doc xs))]) = ''{'' @ quote # key @ quote # '':['' @ print_rows f xs @ '']}''"
    by (rule report_text [symmetric]) (rule assms(1), rule assms(2))
  then have "out = json_text (JObj [(key, JArr (map doc xs))]) @ [nl]" using assms(3) by simp
  then show ?thesis by (simp only: reads_as_text)
qed

lemma system_json_text: "trfx_print_system_json ov = json_text (system_doc ov) @ [nl]"
  unfolding trfx_print_system_json_def system_doc_def
  by (simp add: print_plain [of "''hostname''"] print_plain [of "''os''"] print_plain [of "''kernel''"]
      print_plain [of "''uptime''"] print_plain [of "''load_avg''"] print_plain [of "''logged_in_users''"]
      json_escape_def char_simps)

text \<open>C27. Every JSON report is a JSON text from which a reader recovers the data exactly, whatever bytes the
  names and addresses contain (the reader works on bytes and does not check their UTF-8 encoding): the interfaces with their counters, the connections that match the filters
  and the listeners with all their fields, in the order of the table, and the system overview.\<close>

theorem json_reports_roundtrip:
  "reads_as (trfx_print_interfaces_json (Some r)) (JObj [(''interfaces'', JArr (map interface_doc (isr_stats r)))])
 \<and> reads_as (trfx_print_connections_json (Some cs) (Some opt))
     (JObj [(''connections'', JArr (map connection_doc (filter (\<lambda>c. connection_matches_filters (Some c) (Some opt)) cs)))])
 \<and> reads_as (trfx_print_listeners_json (Some cs))
     (JObj [(''listeners'', JArr (map listener_doc (filter (\<lambda>c. cli_connection_is_listener (Some c)) cs)))])
 \<and> reads_as (trfx_print_system_json ov) (system_doc ov)"
proof (intro conjI)
  have plain: "list_all (\<lambda>c. json_escape c = [c]) ''interfaces''" "list_all (\<lambda>c. json_escape c = [c]) ''connections''"
    "list_all (\<lambda>c. json_escape c = [c]) ''listeners''" by (simp_all add: json_escape_def char_simps)
  show "reads_as (trfx_print_interfaces_json (Some r)) (JObj [(''interfaces'', JArr (map interface_doc (isr_stats r)))])"
    by (rule list_report [OF plain(1) interface_json_text]) (simp add: trfx_print_interfaces_json_def list_of_def)
  show "reads_as (trfx_print_connections_json (Some cs) (Some opt))
     (JObj [(''connections'', JArr (map connection_doc (filter (\<lambda>c. connection_matches_filters (Some c) (Some opt)) cs)))])"
    by (rule list_report [OF plain(2) connection_json_text]) (simp add: trfx_print_connections_json_def list_of_def)
  show "reads_as (trfx_print_listeners_json (Some cs))
     (JObj [(''listeners'', JArr (map listener_doc (filter (\<lambda>c. cli_connection_is_listener (Some c)) cs)))])"
    by (rule list_report [OF plain(3) listener_json_text]) (simp add: trfx_print_listeners_json_def list_of_def)
  show "reads_as (trfx_print_system_json ov) (system_doc ov)"
    unfolding system_json_text by (rule reads_as_text)
qed

end
