(* ===== verification/App.thy ===== *)
theory App
  imports CliOutput Actions
begin

text \<open>
  \<open>src/trfx_app.c\<close> and \<open>src/trafix.c\<close>: the commands and \<open>main\<close>. A run yields the exit code, the texts written to
  the two streams, the system calls that were made, the audit trail, and the configuration with which the
  dashboard is started where the run starts it.
\<close>

record app_env =
  ap_act :: action_env
  ap_diag :: diag_env
  ap_getenv :: files
  ap_euid :: u32
  ap_tty :: bool
  ap_key :: int
  ap_version :: "string option"
  ap_nan :: string

text \<open>\<open>trfx_get_version\<close> of \<open>src/trfx_version.c\<close>: the version that the build may define.\<close>

definition trfx_get_version :: "string option \<Rightarrow> string" where
  "trfx_get_version defined_version = (case defined_version of None \<Rightarrow> ''unknown'' | Some v \<Rightarrow> v)"

record app_run =
  rn_exit :: TrfxExitCode
  rn_out :: string
  rn_err :: string
  rn_effects :: "action_effect list"
  rn_audit :: audit_log
  rn_dashboard :: "config option"

definition app_os :: "app_env \<Rightarrow> os_view" where
  "app_os env = ae_os (ap_act env)"

definition plain_run :: "TrfxExitCode \<Rightarrow> string \<Rightarrow> string \<Rightarrow> audit_log \<Rightarrow> app_run" where
  "plain_run code out err au =
     \<lparr>rn_exit = code, rn_out = out, rn_err = err, rn_effects = [], rn_audit = au, rn_dashboard = None\<rparr>"

definition err_line :: "string \<Rightarrow> string" where
  "err_line msg = ''trafix: '' @ msg @ [nl]"

definition selected_profile :: "TrfxCliOptions option \<Rightarrow> string option" where
  "selected_profile options =
     (case options of None \<Rightarrow> None
      | Some opt \<Rightarrow> if co_has_profile opt \<noteq> 0 then Some (co_profile_name opt) else None)"

section \<open>Reports\<close>

definition trfx_run_tui :: "app_env \<Rightarrow> TrfxCliOptions option \<Rightarrow> config \<Rightarrow> audit_log \<Rightarrow> app_run" where
  "trfx_run_tui env options cfg au =
     (case trfx_load_runtime_config (ap_getenv env) (os_file (app_os env)) (selected_profile options) (Some []) 256 cfg of
        (ok, e, cfg', ws) \<Rightarrow>
          if ok = 0
          then plain_run TRFX_EXIT_ERROR [] (concat ws @ err_line (or_else (the e) ''failed to load profile'')) au
          else (plain_run TRFX_EXIT_OK [] (concat ws) au)\<lparr>rn_dashboard := Some cfg'\<rparr>)"

definition trfx_run_interfaces_command :: "app_env \<Rightarrow> TrfxCliOutputFormat \<Rightarrow> audit_log \<Rightarrow> app_run" where
  "trfx_run_interfaces_command env fmt au =
     (let result = trfx_collect_interface_stats_path (app_os env) (ne_strerror (de_net (ap_diag env)) ''/proc/net/dev'')
                     (Some ''/proc/net/dev'')
      in if isr_status result \<noteq> TRFX_COLLECTOR_OK
         then plain_run TRFX_EXIT_DATA_UNAVAILABLE []
                (err_line (''failed to collect interfaces: '' @ or_else (isr_error result) ''unknown error'')) au
         else plain_run TRFX_EXIT_OK
                (if fmt = TRFX_CLI_OUTPUT_JSON then trfx_print_interfaces_json (Some result)
                 else trfx_print_interfaces_text (Some result)) [] au)"

definition trfx_run_connections_command :: "app_env \<Rightarrow> TrfxCliOptions option \<Rightarrow> audit_log \<Rightarrow> app_run" where
  "trfx_run_connections_command env options au =
     (let connections = get_connection_info (app_os env) max_connections;
          fmt = (case options of Some opt \<Rightarrow> co_output_format opt | None \<Rightarrow> TRFX_CLI_OUTPUT_TEXT)
      in plain_run TRFX_EXIT_OK
           (if fmt = TRFX_CLI_OUTPUT_JSON then trfx_print_connections_json (Some connections) options
            else trfx_print_connections_text (Some connections) options) [] au)"

definition trfx_run_listeners_command :: "app_env \<Rightarrow> TrfxCliOutputFormat \<Rightarrow> audit_log \<Rightarrow> app_run" where
  "trfx_run_listeners_command env fmt au =
     (let connections = get_connection_info (app_os env) max_connections
      in plain_run TRFX_EXIT_OK
           (if fmt = TRFX_CLI_OUTPUT_JSON then trfx_print_listeners_json (Some connections)
            else trfx_print_listeners_text (Some connections)) [] au)"

definition trfx_run_system_command :: "app_env \<Rightarrow> TrfxCliOutputFormat \<Rightarrow> audit_log \<Rightarrow> app_run" where
  "trfx_run_system_command env fmt au =
     (let overview = get_system_overview (de_sys (ap_diag env))
      in plain_run TRFX_EXIT_OK
           (if fmt = TRFX_CLI_OUTPUT_JSON then trfx_print_system_json overview else trfx_print_system_text overview) [] au)"

definition trfx_run_diagnostics_command :: "app_env \<Rightarrow> TrfxCliOptions option \<Rightarrow> config \<Rightarrow> audit_log \<Rightarrow> app_run" where
  "trfx_run_diagnostics_command env options cfg au =
     (case trfx_load_runtime_config (ap_getenv env) (os_file (app_os env)) (selected_profile options) (Some []) 256 cfg of
        (ok, e, cfg', ws) \<Rightarrow>
          if ok = 0
          then plain_run TRFX_EXIT_ERROR [] (concat ws @ err_line (or_else (the e) ''failed to load profile'')) au
          else (case trfx_collect_diagnostics_snapshot (ap_diag env) (Some trfx_init_diagnostics_snapshot) e 256 mac_start of
                  (status, snapshot, e1, _) \<Rightarrow>
                    plain_run
                      (if status \<in> {TRFX_COLLECTOR_OK, TRFX_COLLECTOR_OPEN_FAILED, TRFX_COLLECTOR_PARSE_FAILED}
                       then TRFX_EXIT_OK else TRFX_EXIT_ERROR)
                      (trfx_print_diagnostics_text cfg' (ap_nan env) snapshot)
                      (concat ws @ (if status \<noteq> TRFX_COLLECTOR_OK \<and> the e1 \<noteq> [] then err_line (the e1) else [])) au))"

section \<open>Actions\<close>

text \<open>The answer and the text of the question; \<open>key\<close> is what \<open>getchar\<close> returns.\<close>

definition prompt_confirm_action :: "int \<Rightarrow> TrfxActionReview option \<Rightarrow> int \<times> string" where
  "prompt_confirm_action key review =
     (case review of None \<Rightarrow> (0, [])
      | Some v \<Rightarrow> (if key = 121 \<or> key = 89 then 1 else 0,
                    av_prompt v @ [nl] @ av_details v @ [nl] @ ''Proceed? [y/N] '' @ [nl]))"

definition connection_matches_drop_target :: "ConnectionInfo option \<Rightarrow> TrfxCliOptions option \<Rightarrow> bool" where
  "connection_matches_drop_target connection options =
     (case (connection, options) of
        (Some c, Some opt) \<Rightarrow> ci_protocol c = co_drop_proto opt \<and> ci_local_addr c = co_drop_local opt
                              \<and> ci_remote_addr c = co_drop_remote opt
      | _ \<Rightarrow> False)"

definition socket_matches_drop_target :: "SocketOwnerInfo option \<Rightarrow> TrfxCliOptions option \<Rightarrow> bool" where
  "socket_matches_drop_target socket_owner options =
     (case (socket_owner, options) of
        (Some s, Some opt) \<Rightarrow> so_proto s = co_drop_proto opt \<and> so_laddr s = co_drop_local opt
                              \<and> so_raddr s = co_drop_remote opt
      | _ \<Rightarrow> False)"

text \<open>The end of both commands: confirmation, execution, message and exit code.\<close>

definition confirm_and_execute ::
  "app_env \<Rightarrow> TrfxCliOptions \<Rightarrow> string \<Rightarrow> TrfxActionReview \<Rightarrow> TrfxActionRequest \<Rightarrow> audit_log \<Rightarrow> app_run" where
  "confirm_and_execute env opt name review request au =
     (if co_confirmed opt = 0 \<and> \<not> ap_tty env
      then plain_run TRFX_EXIT_ERROR [] (err_line (''confirmation required for '' @ name @ '' command'')) au
      else (let (confirmed, asked) = (if co_confirmed opt = 0 then prompt_confirm_action (ap_key env) (Some review)
                                      else (co_confirmed opt, []))
            in case trfx_execute_action_request (ap_act env) (Some request) confirmed (ap_euid env) (Some []) 256 au of
                 (result, _, effects, au') \<Rightarrow>
                   \<lparr>rn_exit = (if as_status result = TRFX_ACTION_RESULT_OK then TRFX_EXIT_OK
                               else if as_status result = TRFX_ACTION_RESULT_NOT_FOUND then TRFX_EXIT_DATA_UNAVAILABLE
                               else TRFX_EXIT_ERROR),
                    rn_out = [], rn_err = asked @ err_line (or_else (as_message result) ''action completed''),
                    rn_effects = effects, rn_audit = au', rn_dashboard = None\<rparr>))"

definition kill_request :: "os_view \<Rightarrow> string \<Rightarrow> TrfxActionRequest" where
  "kill_request os pid =
     (let r = trfx_action_request_set_process_kill (Some pid) (Some ''-'')
      in case trfx_lookup_process_name os (Some pid) (Some []) 64 (Some []) 256 of
           (False, _, _) \<Rightarrow> r
         | (True, name, _) \<Rightarrow>
             (let t = (ar_target r)\<lparr>at_process := fit 64 (the name)\<rparr>
              in r\<lparr>ar_target := t,
                   ar_description := fit 256 (''kill process '' @ at_pid t @ '' ('' @ at_process t @ '')''),
                   ar_label := fit 128 (''kill process '' @ at_pid t)\<rparr>))"

definition trfx_run_kill_command :: "app_env \<Rightarrow> TrfxCliOptions option \<Rightarrow> audit_log \<Rightarrow> app_run" where
  "trfx_run_kill_command env options au =
     (case options of
        None \<Rightarrow> plain_run TRFX_EXIT_ERROR [] (err_line ''kill requires a PID'') au
      | Some opt \<Rightarrow>
          if co_has_target_pid opt = 0 then plain_run TRFX_EXIT_ERROR [] (err_line ''kill requires a PID'') au
          else (let request = kill_request (app_os env) (co_target_pid opt)
                in case trfx_lookup_process_uid (app_os env) (Some (co_target_pid opt)) (Some []) 256 of
                     (None, e) \<Rightarrow>
                       plain_run TRFX_EXIT_DATA_UNAVAILABLE [] (err_line (or_else (the e) ''process not found'')) au
                   | (Some target_uid, _) \<Rightarrow>
                       confirm_and_execute env opt ''kill''
                         (trfx_prepare_action_review (Some request) (ap_euid env) target_uid 1) request au))"

definition drop_request :: "app_env \<Rightarrow> TrfxCliOptions \<Rightarrow> TrfxActionRequest option" where
  "drop_request env opt =
     (if co_drop_kind opt = ''connection''
      then map_option (\<lambda>c. trfx_action_request_set_connection_drop (Some c))
             (List.find (\<lambda>c. connection_matches_drop_target (Some c) (Some opt)) (get_connection_info (app_os env) max_connections))
      else if co_drop_kind opt = ''socket''
      then map_option (\<lambda>s. trfx_action_request_set_socket_drop (Some s))
             (List.find (\<lambda>s. socket_matches_drop_target (Some s) (Some opt))
                (get_socket_owner_info (app_os env) (de_junk (ap_diag env)) max_socket_owners))
      else None)"

definition trfx_run_drop_command :: "app_env \<Rightarrow> TrfxCliOptions option \<Rightarrow> audit_log \<Rightarrow> app_run" where
  "trfx_run_drop_command env options au =
     (case options of
        None \<Rightarrow> plain_run TRFX_EXIT_ERROR [] (err_line ''drop requires a target type and endpoints'') au
      | Some opt \<Rightarrow>
          if co_has_drop_target opt = 0
          then plain_run TRFX_EXIT_ERROR [] (err_line ''drop requires a target type and endpoints'') au
          else (case drop_request env opt of
                  None \<Rightarrow> plain_run TRFX_EXIT_DATA_UNAVAILABLE [] (err_line ''target not found'') au
                | Some request \<Rightarrow>
                    confirm_and_execute env opt ''drop''
                      (trfx_prepare_action_review (Some request) (ap_euid env) 0 1) request au))"

definition trafix_main :: "app_env \<Rightarrow> string list \<Rightarrow> config \<Rightarrow> audit_log \<Rightarrow> app_run" where
  "trafix_main env argv cfg au =
     (let opt = trfx_parse_cli argv
      in case co_mode opt of
           TRFX_CLI_MODE_HELP \<Rightarrow> plain_run TRFX_EXIT_OK trfx_print_cli_help [] au
         | TRFX_CLI_MODE_VERSION \<Rightarrow> plain_run TRFX_EXIT_OK (trfx_print_cli_version (trfx_get_version (ap_version env))) [] au
         | TRFX_CLI_MODE_INVALID \<Rightarrow> plain_run TRFX_EXIT_ERROR [] (trfx_print_cli_error (Some opt)) au
         | TRFX_CLI_MODE_INTERFACES \<Rightarrow> trfx_run_interfaces_command env (co_output_format opt) au
         | TRFX_CLI_MODE_CONNECTIONS \<Rightarrow> trfx_run_connections_command env (Some opt) au
         | TRFX_CLI_MODE_LISTENERS \<Rightarrow> trfx_run_listeners_command env (co_output_format opt) au
         | TRFX_CLI_MODE_SYSTEM \<Rightarrow> trfx_run_system_command env (co_output_format opt) au
         | TRFX_CLI_MODE_DIAGNOSTICS \<Rightarrow> trfx_run_diagnostics_command env (Some opt) cfg au
         | TRFX_CLI_MODE_DROP \<Rightarrow> trfx_run_drop_command env (Some opt) au
         | TRFX_CLI_MODE_KILL \<Rightarrow> trfx_run_kill_command env (Some opt) au
         | TRFX_CLI_MODE_TUI \<Rightarrow> trfx_run_tui env (Some opt) cfg au)"

section \<open>From the command line to a signal\<close>

lemma plain_run_simps [simp]: "rn_effects (plain_run c out err au) = []" "rn_audit (plain_run c out err au) = au"
  "rn_exit (plain_run c out err au) = c"
  by (simp_all add: plain_run_def)

lemma confirm_and_execute_cases:
  assumes "rn_effects (confirm_and_execute env opt name review rq au) \<noteq> []"
  shows "\<exists>confirmed res e effs au'.
      trfx_execute_action_request (ap_act env) (Some rq) confirmed (ap_euid env) (Some []) 256 au = (res, e, effs, au')
    \<and> rn_effects (confirm_and_execute env opt name review rq au) = effs
    \<and> (rn_exit (confirm_and_execute env opt name review rq au) = TRFX_EXIT_OK \<longleftrightarrow> as_status res = TRFX_ACTION_RESULT_OK)
    \<and> (confirmed \<noteq> 0 \<longrightarrow> co_confirmed opt \<noteq> 0 \<or> ap_tty env \<and> ap_key env \<in> {121, 89})"
proof -
  define confirmed where "confirmed = (if co_confirmed opt = 0 then fst (prompt_confirm_action (ap_key env) (Some review)) else co_confirmed opt)"
  obtain res e effs au' where ex: "trfx_execute_action_request (ap_act env) (Some rq) confirmed (ap_euid env) (Some []) 256 au
      = (res, e, effs, au')" by (metis prod_cases4)
  have tty: "\<not> (co_confirmed opt = 0 \<and> \<not> ap_tty env)"
  proof
    assume "co_confirmed opt = 0 \<and> \<not> ap_tty env"
    then have "rn_effects (confirm_and_execute env opt name review rq au) = []" by (simp add: confirm_and_execute_def)
    with assms show False by simp
  qed
  then have "rn_effects (confirm_and_execute env opt name review rq au) = effs"
    "rn_exit (confirm_and_execute env opt name review rq au) = TRFX_EXIT_OK \<longleftrightarrow> as_status res = TRFX_ACTION_RESULT_OK"
    using ex by (auto simp: confirm_and_execute_def confirmed_def split: prod.splits if_splits)
  moreover have "co_confirmed opt \<noteq> 0 \<or> ap_tty env \<and> ap_key env \<in> {121, 89}" if "confirmed \<noteq> 0"
    using that tty by (auto simp: confirmed_def prompt_confirm_action_def split: if_splits)
  ultimately show ?thesis using ex by blast
qed

lemma drop_request_kind: "drop_request env opt = Some rq \<Longrightarrow> ar_kind rq \<noteq> TRFX_ACTION_KIND_KILL_PROCESS"
  by (auto simp: drop_request_def trfx_action_request_set_connection_drop_def trfx_action_request_set_socket_drop_def
      Let_def split: if_splits)

text \<open>Only two commands act on the outside, each by one call of \<open>trfx_execute_action_request\<close>.\<close>

lemma main_acts:
  assumes "rn_effects (trafix_main env argv cfg au) \<noteq> []" and "opt = trfx_parse_cli argv"
  obtains name review rq where "trafix_main env argv cfg au = confirm_and_execute env opt name review rq au"
    and "co_mode opt = TRFX_CLI_MODE_KILL \<and> rq = kill_request (app_os env) (co_target_pid opt)
       \<or> co_mode opt = TRFX_CLI_MODE_DROP \<and> drop_request env opt = Some rq"
proof -
  have reports: "rn_effects (trfx_run_interfaces_command env f au) = []" "rn_effects (trfx_run_connections_command env p au) = []"
    "rn_effects (trfx_run_listeners_command env f au) = []" "rn_effects (trfx_run_system_command env f au) = []"
    "rn_effects (trfx_run_diagnostics_command env p cfg au) = []" "rn_effects (trfx_run_tui env p cfg au) = []" for f p
    by (simp_all add: trfx_run_interfaces_command_def trfx_run_connections_command_def trfx_run_listeners_command_def
        trfx_run_system_command_def trfx_run_diagnostics_command_def trfx_run_tui_def Let_def split: prod.splits)
  then have "co_mode opt \<in> {TRFX_CLI_MODE_KILL, TRFX_CLI_MODE_DROP}"
    using assms by (cases "co_mode opt") (auto simp: trafix_main_def Let_def)
  then show thesis
  proof
    assume mode: "co_mode opt = TRFX_CLI_MODE_KILL"
    then have run: "trafix_main env argv cfg au = trfx_run_kill_command env (Some opt) au"
      using assms(2) by (simp add: trafix_main_def Let_def)
    then obtain review where "trafix_main env argv cfg au
        = confirm_and_execute env opt ''kill'' review (kill_request (app_os env) (co_target_pid opt)) au"
      using assms(1) unfolding run by (auto simp: trfx_run_kill_command_def Let_def split: if_splits option.splits prod.splits)
    then show thesis using that mode by blast
  next
    assume "co_mode opt \<in> {TRFX_CLI_MODE_DROP}"
    then have mode: "co_mode opt = TRFX_CLI_MODE_DROP" by simp
    then have run: "trafix_main env argv cfg au = trfx_run_drop_command env (Some opt) au"
      using assms(2) by (simp add: trafix_main_def Let_def)
    then obtain review rq where "drop_request env opt = Some rq"
      "trafix_main env argv cfg au = confirm_and_execute env opt ''drop'' review rq au"
      using assms(1) unfolding run by (auto simp: trfx_run_drop_command_def split: if_splits option.splits)
    then show thesis using that mode by blast
  qed
qed

lemma kill_request_target:
  "ar_kind (kill_request os pid) = TRFX_ACTION_KIND_KILL_PROCESS"
  "at_pid (ar_target (kill_request os pid)) = set_string 16 (Some pid)"
  by (simp_all add: kill_request_def trfx_action_request_set_process_kill_def Let_def split: prod.splits bool.splits)

lemma set_string_pid:
  "parse_pid_value (Some (set_string 16 (Some pid))) = Some v \<Longrightarrow> length pid < 16 \<Longrightarrow> set_string 16 (Some pid) = pid"
proof -
  assume p: "parse_pid_value (Some (set_string 16 (Some pid))) = Some v" and l: "length pid < 16"
  have "parse_pid_value (Some ''-'') = None" by code_simp
  then have "pid \<noteq> []" using p by (auto simp: set_string_def)
  then show ?thesis using l by (simp add: set_string_def)
qed

lemma execute_kill_status:
  assumes "trfx_execute_action_request env (Some rq) c euid e n au = (res, e', effs, au')" and "EffKill v sig \<in> set effs"
  shows "as_status res = TRFX_ACTION_RESULT_OK \<longleftrightarrow> ae_kill env v sigterm = 0"
proof -
  have ex: "execute_request env (Some rq) c euid e n = (res, e', effs)"
    using assms(1) by (simp add: trfx_execute_action_request_def finalize_action_result_def split: prod.splits)
  then have "execute_kill env rq euid (put_buf e n []) n = (res, e', effs)"
    using assms(2) execute_drop_no_kill by (fastforce simp: execute_request_def Let_def split: if_splits)
  then show ?thesis
    using assms(2) by (auto simp: execute_kill_def Let_def errno_esrch_def errno_eperm_def split: option.splits prod.splits if_splits)
qed

lemma parsed_kill:
  assumes "co_mode (trfx_parse_cli argv) = TRFX_CLI_MODE_KILL"
  shows "length (co_target_pid (trfx_parse_cli argv)) < 16 \<and> co_confirmed (trfx_parse_cli argv) \<in> {0, 1}"
  using assms cli_well_formed [of argv] by (auto simp: cli_ok_def cli_mode_ok_def cli_refused_def)

text \<open>What a command did, and why it was allowed to.\<close>

lemma command_acts:
  assumes "eff \<in> set (rn_effects (trafix_main env argv cfg au))" and "opt = trfx_parse_cli argv"
  shows "rn_effects (trafix_main env argv cfg au) = [eff] \<and> (co_confirmed opt \<noteq> 0 \<or> ap_tty env \<and> ap_key env \<in> {121, 89})
    \<and> (case eff of
         EffKill v sig \<Rightarrow> co_mode opt = TRFX_CLI_MODE_KILL \<and> sig = sigterm
           \<and> parse_pid_value (Some (co_target_pid opt)) = Some v
           \<and> (\<exists>content uid. os_file (app_os env) (''/proc/'' @ co_target_pid opt @ ''/status'') = Some content
                \<and> lookup_process_uid_file content = Some uid \<and> (ap_euid env = 0 \<or> ap_euid env = uid))
           \<and> (rn_exit (trafix_main env argv cfg au) = TRFX_EXIT_OK \<longleftrightarrow> ae_kill (ap_act env) v sigterm = 0)
       | EffRun args \<Rightarrow> co_mode opt = TRFX_CLI_MODE_DROP \<and> ap_euid env = 0
           \<and> (\<exists>rq. drop_request env opt = Some rq \<and> effect_allowed (ap_act env) 0 rq eff))"
proof -
  have some: "rn_effects (trafix_main env argv cfg au) \<noteq> []" using assms(1) by auto
  obtain name review rq where r: "trafix_main env argv cfg au = confirm_and_execute env opt name review rq au"
    and mode: "co_mode opt = TRFX_CLI_MODE_KILL \<and> rq = kill_request (app_os env) (co_target_pid opt)
      \<or> co_mode opt = TRFX_CLI_MODE_DROP \<and> drop_request env opt = Some rq"
    by (rule main_acts [OF some assms(2)])
  from confirm_and_execute_cases [OF some [unfolded r]] obtain c res e effs au' where ex:
    "trfx_execute_action_request (ap_act env) (Some rq) c (ap_euid env) (Some []) 256 au = (res, e, effs, au')"
    "rn_effects (trafix_main env argv cfg au) = effs"
    "rn_exit (trafix_main env argv cfg au) = TRFX_EXIT_OK \<longleftrightarrow> as_status res = TRFX_ACTION_RESULT_OK"
    "c \<noteq> 0 \<Longrightarrow> co_confirmed opt \<noteq> 0 \<or> ap_tty env \<and> ap_key env \<in> {121, 89}"
    unfolding r by blast
  have eff: "c \<noteq> 0" "effs = [eff]" "effect_allowed (ap_act env) (ap_euid env) rq eff"
    using effects_authorised [OF ex(1)] assms(1) ex(2) by auto
  show ?thesis
  proof (cases eff)
    case (EffKill v sig)
    then have kind: "ar_kind rq = TRFX_ACTION_KIND_KILL_PROCESS" using eff(3) by simp
    then have k: "co_mode opt = TRFX_CLI_MODE_KILL" "rq = kill_request (app_os env) (co_target_pid opt)"
      using mode drop_request_kind by auto
    note ok = parsed_kill [of argv, folded assms(2), OF k(1)]
    have parse: "parse_pid_value (Some (set_string 16 (Some (co_target_pid opt)))) = Some v"
      using eff(3) EffKill k(2) by (simp add: kill_request_target)
    have pid: "at_pid (ar_target rq) = co_target_pid opt"
      using set_string_pid [OF parse] ok k(2) by (simp add: kill_request_target)
    moreover have "fit 256 (''/proc/'' @ co_target_pid opt @ ''/status'') = ''/proc/'' @ co_target_pid opt @ ''/status''"
      using ok by (intro fit_id) simp
    ultimately show ?thesis
      using k(1) eff ex EffKill execute_kill_status [OF ex(1), of v sig]
      by (auto simp: app_os_def split: option.splits)
  next
    case (EffRun args)
    then have kind: "ar_kind rq \<in> {TRFX_ACTION_KIND_DROP_CONNECTION, TRFX_ACTION_KIND_DROP_SOCKET}" "ap_euid env = 0"
      using eff(3) by simp_all
    then have "co_mode opt = TRFX_CLI_MODE_DROP \<and> drop_request env opt = Some rq"
      using mode by (auto simp: kill_request_target)
    then show ?thesis using kind(2) eff ex EffRun by auto
  qed
qed

text \<open>User 1000 and the process 42 that belongs to this user, for the witness.\<close>

definition demo_app :: app_env where
  "demo_app = \<lparr>ap_act = demo_env, ap_diag = demo_diag, ap_getenv = (\<lambda>_. None), ap_euid = 1000, ap_tty = False,
     ap_key = -1, ap_version = Some ''1'', ap_nan = ''nan''\<rparr>"

lemma demo_main_effects:
  "rn_effects (trafix_main demo_app [''trafix'', ''kill'', ''42'', ''--yes''] config_default audit_start) = [EffKill 42 15]"
  by code_simp

end
