(* ===== verification/Layout.thy ===== *)
theory Layout
  imports CText
begin

text \<open>
  \<open>src/trfx_layout.c\<close>: the split of the second row into a primary and a secondary column. The C
  integers of the layout are screen coordinates and percentages; they are modelled as \<open>int\<close>, and
  the product of a width and a percentage wraps around as an \<open>int\<close> does; \<open>layout_no_overflow\<close> shows that it does not
  on widths below \<open>2 ^ 31 / 100\<close>.
\<close>

record TrfxTwoColumnLayoutState =
  secondary_visible :: int
  primary_width_percent :: int
  secondary_width_percent :: int
  secondary_state_index :: int

record TrfxTwoColumnLayoutGeometry =
  primary_x :: int
  primary_y :: int
  primary_width :: int
  primary_height :: int
  secondary_x :: int
  secondary_y :: int
  secondary_width :: int
  secondary_height :: int
  geometry_secondary_visible :: int

definition clamp_percent :: "int \<Rightarrow> int \<Rightarrow> int" where
  "clamp_percent value fallback = (if value \<le> 0 \<or> 100 \<le> value then fallback else value)"

definition trfx_two_column_layout_init ::
  "TrfxTwoColumnLayoutState option \<Rightarrow> TrfxTwoColumnLayoutState option" where
  "trfx_two_column_layout_init state =
     (case state of None \<Rightarrow> None
      | Some s \<Rightarrow> Some (s\<lparr>secondary_visible := 1, primary_width_percent := 70,
                          secondary_width_percent := 30, secondary_state_index := 0\<rparr>))"

definition layout_secondary_visible :: "TrfxTwoColumnLayoutState option \<Rightarrow> int" where
  "layout_secondary_visible state = (case state of Some s \<Rightarrow> secondary_visible s | None \<Rightarrow> 0)"

definition layout_set_secondary_visible ::
  "TrfxTwoColumnLayoutState option \<Rightarrow> int \<Rightarrow> TrfxTwoColumnLayoutState option" where
  "layout_set_secondary_visible state visible =
     map_option (\<lambda>s. s\<lparr>secondary_visible := (if visible \<noteq> 0 then 1 else 0)\<rparr>) state"

definition layout_toggle_secondary ::
  "TrfxTwoColumnLayoutState option \<Rightarrow> TrfxTwoColumnLayoutState option" where
  "layout_toggle_secondary state =
     map_option (\<lambda>s. s\<lparr>secondary_visible := (if secondary_visible s = 0 then 1 else 0)\<rparr>) state"

definition layout_primary_width_percent :: "TrfxTwoColumnLayoutState option \<Rightarrow> int" where
  "layout_primary_width_percent state =
     (case state of None \<Rightarrow> 70 | Some s \<Rightarrow> clamp_percent (primary_width_percent s) 70)"

definition layout_secondary_width_percent :: "TrfxTwoColumnLayoutState option \<Rightarrow> int" where
  "layout_secondary_width_percent state =
     (case state of None \<Rightarrow> 30 | Some s \<Rightarrow> clamp_percent (secondary_width_percent s) 30)"

definition layout_secondary_state_index :: "TrfxTwoColumnLayoutState option \<Rightarrow> int" where
  "layout_secondary_state_index state =
     (case state of None \<Rightarrow> 0
      | Some s \<Rightarrow> if secondary_state_index s < 0 then 0 else secondary_state_index s)"

definition layout_set_secondary_state_index ::
  "TrfxTwoColumnLayoutState option \<Rightarrow> int \<Rightarrow> TrfxTwoColumnLayoutState option" where
  "layout_set_secondary_state_index state state_index =
     map_option (\<lambda>s. s\<lparr>secondary_state_index := (if state_index < 0 then 0 else state_index)\<rparr>) state"

text \<open>The computation of the two widths when the secondary column is shown. The product is one of \<open>int\<close>s and wraps around; a
  negative one is less than 1 after either rounding of the division.\<close>

definition layout_split_width :: "TrfxTwoColumnLayoutState option \<Rightarrow> int \<Rightarrow> int \<times> int" where
  "layout_split_width state total_width =
     (let p0 = layout_primary_width_percent state;
          s0 = layout_secondary_width_percent state;
          primary_percent = (if p0 + s0 \<le> 0 then 70 else p0);
          w0 = to_int32 (total_width * primary_percent) div 100;
          w1 = (if w0 < 1 then 1 else w0);
          primary = (if total_width \<le> w1 \<and> 1 < total_width then total_width - 1 else w1);
          secondary = total_width - primary
      in (primary, if secondary < 0 then 0 else secondary))"

text \<open>The result is the return value and what \<open>*geometry\<close> holds afterwards.\<close>

definition trfx_two_column_layout_compute_geometry ::
  "TrfxTwoColumnLayoutState option \<Rightarrow> int \<Rightarrow> int \<Rightarrow> int \<Rightarrow> int \<Rightarrow>
   TrfxTwoColumnLayoutGeometry option \<Rightarrow> int \<times> TrfxTwoColumnLayoutGeometry option" where
  "trfx_two_column_layout_compute_geometry state origin_y origin_x total_height total_width geometry =
     (case geometry of None \<Rightarrow> (0, None)
      | Some g0 \<Rightarrow>
          if total_height < 0 \<or> total_width < 0 then (0, Some g0)
          else
            (let g = g0\<lparr>primary_x := origin_x, primary_y := origin_y, primary_height := total_height,
                        secondary_x := origin_x, secondary_y := origin_y,
                        secondary_height := total_height,
                        geometry_secondary_visible := layout_secondary_visible state\<rparr>
             in if geometry_secondary_visible g = 0 \<or> total_width < 90 \<or> total_width \<le> 0
                then (1, Some (g\<lparr>geometry_secondary_visible := 0, primary_width := total_width,
                                 secondary_width := 0, secondary_x := origin_x + total_width\<rparr>))
                else (let (primary, secondary) = layout_split_width state total_width
                      in (1, Some (g\<lparr>primary_width := primary, secondary_width := secondary,
                                     secondary_x := origin_x + primary\<rparr>)))))"

section \<open>The columns tile the row\<close>

lemma clamp_percent_range: "0 < fallback \<Longrightarrow> fallback < 100 \<Longrightarrow>
    0 < clamp_percent v fallback \<and> clamp_percent v fallback < 100"
  by (simp add: clamp_percent_def)

lemma primary_percent_range: "0 < layout_primary_width_percent s \<and> layout_primary_width_percent s < 100"
  by (cases s) (auto simp: layout_primary_width_percent_def clamp_percent_def)

lemma secondary_percent_range:
  "0 < layout_secondary_width_percent s \<and> layout_secondary_width_percent s < 100"
  by (cases s) (auto simp: layout_secondary_width_percent_def clamp_percent_def)

text \<open>Whatever the product is, the two widths are positive and add up.\<close>

lemma split_width_tiles:
  assumes "90 \<le> w" and "layout_split_width s w = (a, b)"
  shows "a + b = w \<and> 1 \<le> a \<and> 1 \<le> b"
  using assms by (auto simp: layout_split_width_def Let_def split: if_splits)

lemma split_width_rest: "90 \<le> w \<Longrightarrow> layout_split_width s w = (fst (layout_split_width s w), w - fst (layout_split_width s w))"
  using split_width_tiles [of w s] by (cases "layout_split_width s w") fastforce

text \<open>Below 21,474,836 columns nothing wraps around, and the primary column has its percentage of the width.\<close>

lemma layout_no_overflow:
  assumes "90 \<le> w" and "w < 2 ^ 31 div 100"
  shows "layout_split_width s w =
    (max 1 (w * layout_primary_width_percent s div 100), w - max 1 (w * layout_primary_width_percent s div 100))"
proof -
  let ?p = "layout_primary_width_percent s"
  have p: "0 < ?p" "?p < 100" using primary_percent_range [of s] by auto
  have le: "w * ?p \<le> w * 99" using assms p by (intro mult_left_mono) auto
  moreover have "0 \<le> w * ?p" using assms p by simp
  moreover have "w * 99 < 2 ^ 31" using assms(2) by simp
  ultimately have wrap: "to_int32 (w * ?p) = w * ?p" by (intro to_int32_id) linarith+
  have "w * ?p div 100 \<le> w * 99 div 100" using le by (rule zdiv_mono1) simp
  also have "\<dots> < w" using assms by (simp add: div_less_iff_less_mult)
  finally have "w * ?p div 100 < w" .
  then show ?thesis
    using p secondary_percent_range [of s] assms by (auto simp: layout_split_width_def Let_def wrap)
qed

lemma compute_geometry_eq:
  assumes "0 \<le> h" and "0 \<le> w"
  shows "trfx_two_column_layout_compute_geometry st y x h w (Some g0) =
    (let shown = layout_secondary_visible st \<noteq> 0 \<and> 90 \<le> w;
         a = (if shown then fst (layout_split_width st w) else w)
     in (1, Some (g0\<lparr>primary_x := x, primary_y := y, primary_height := h, secondary_x := x + a,
                     secondary_y := y, secondary_height := h,
                     geometry_secondary_visible := (if shown then layout_secondary_visible st else 0),
                     primary_width := a, secondary_width := w - a\<rparr>)))"
  using assms
  using split_width_rest [of w st]
  by (cases g0) (auto simp: trfx_two_column_layout_compute_geometry_def Let_def split: prod.splits)

text \<open>With a non-negative height and width the computation of the geometry succeeds. The two columns
  then have the height of the row and start at its top, the primary one at its left edge; they are
  adjacent and tile its width exactly, with no gap and no overlap, whatever percentages the state
  holds. The secondary column is marked as shown exactly when the state shows it and the row is at
  least 90 columns wide; then both columns are at least one column wide, and otherwise the secondary
  one has width 0.\<close>

lemma geometry_tiles_row:
  assumes "0 \<le> h" and "0 \<le> w"
  shows "\<exists>g. trfx_two_column_layout_compute_geometry st y x h w (Some g0) = (1, Some g)
     \<and> primary_y g = y \<and> secondary_y g = y \<and> primary_height g = h \<and> secondary_height g = h
     \<and> primary_x g = x \<and> secondary_x g = primary_x g + primary_width g
     \<and> primary_width g + secondary_width g = w \<and> 0 \<le> primary_width g \<and> 0 \<le> secondary_width g
     \<and> (geometry_secondary_visible g \<noteq> 0 \<longleftrightarrow> layout_secondary_visible st \<noteq> 0 \<and> 90 \<le> w)
     \<and> (geometry_secondary_visible g \<noteq> 0 \<longrightarrow> 1 \<le> primary_width g \<and> 1 \<le> secondary_width g)
     \<and> (geometry_secondary_visible g = 0 \<longrightarrow> secondary_width g = 0)"
proof -
  obtain a b where ab: "layout_split_width st w = (a, b)" by (cases "layout_split_width st w")
  have "a + b = w \<and> 1 \<le> a \<and> 1 \<le> b" if "90 \<le> w"
    using split_width_tiles [OF that ab] .
  then show ?thesis
    using assms ab by (auto simp: compute_geometry_eq Let_def)
qed

lemma geometry_tiles_row_witness:
  "\<exists>g. trfx_two_column_layout_compute_geometry (Some \<lparr>secondary_visible = 1,
      primary_width_percent = 0, secondary_width_percent = 250, secondary_state_index = 0\<rparr>)
      11 0 30 120 (Some \<lparr>primary_x = 0, primary_y = 0, primary_width = 0, primary_height = 0,
        secondary_x = 0, secondary_y = 0, secondary_width = 0, secondary_height = 0,
        geometry_secondary_visible = 0\<rparr>) = (1, Some g)
     \<and> primary_width g + secondary_width g = 120"
  using geometry_tiles_row [of 30 120] by fastforce

text \<open>The operations of the state keep the shown flag 0 or 1 and the index non-negative.\<close>

definition layout_state_ok :: "TrfxTwoColumnLayoutState \<Rightarrow> bool" where
  "layout_state_ok s \<longleftrightarrow> secondary_visible s \<in> {0, 1} \<and> 0 \<le> secondary_state_index s"

lemma layout_ops_ok:
  "trfx_two_column_layout_init (Some s) = Some t \<Longrightarrow> layout_state_ok t"
  "layout_state_ok s \<Longrightarrow> layout_set_secondary_visible (Some s) v = Some t \<Longrightarrow> layout_state_ok t"
  "layout_state_ok s \<Longrightarrow> layout_toggle_secondary (Some s) = Some t \<Longrightarrow> layout_state_ok t"
  "layout_state_ok s \<Longrightarrow> layout_set_secondary_state_index (Some s) i = Some t \<Longrightarrow> layout_state_ok t"
  by (auto simp: layout_state_ok_def trfx_two_column_layout_init_def layout_set_secondary_visible_def
      layout_toggle_secondary_def layout_set_secondary_state_index_def split: if_splits)

lemma layout_toggle_twice:
  "layout_state_ok s \<Longrightarrow> layout_toggle_secondary (layout_toggle_secondary (Some s)) = Some s"
  by (auto simp: layout_state_ok_def layout_toggle_secondary_def)

end
