(* ===== verification/DashLayout.thy ===== *)
theory DashLayout
  imports SysInfo Config Layout
begin

text \<open>
  The geometry of the dashboard in \<open>src/trfx_dashboard.c\<close>: the heights and widths of the rows, the layout that is
  computed from the size of the screen, its application to the windows, and the tables of the modules. A window is
  known by its place on the screen. Widths and heights are screen coordinates, modelled as \<open>int\<close>.
\<close>

section \<open>Modules\<close>

definition dynamic_module_netinfo :: int where "dynamic_module_netinfo = 0"
definition dynamic_module_conninfo :: int where "dynamic_module_conninfo = 1"
definition dynamic_module_procinfo :: int where "dynamic_module_procinfo = 2"
definition dynamic_module_proc_compact_info :: int where "dynamic_module_proc_compact_info = 3"
definition dynamic_module_socket_owners :: int where "dynamic_module_socket_owners = 4"

definition dynamic_module_indexes :: "int list" where
  "dynamic_module_indexes = [dynamic_module_conninfo, dynamic_module_netinfo, dynamic_module_procinfo,
     dynamic_module_proc_compact_info, dynamic_module_socket_owners]"

text \<open>The thread functions of the primary pane.\<close>

datatype panel_func =
    NETWORK_INFO_THREAD | CONNECTION_INFO_THREAD | SOCKET_OWNER_INFO_THREAD | PROCESS_INFO_THREAD
  | PROCESS_COMPACT_INFO_THREAD

definition modules :: "(string \<times> panel_func) list" where
  "modules = [(''Network'', NETWORK_INFO_THREAD), (''Connections'', CONNECTION_INFO_THREAD),
     (''Socket Owners'', SOCKET_OWNER_INFO_THREAD), (''Processes'', PROCESS_INFO_THREAD),
     (''Processes Compact'', PROCESS_COMPACT_INFO_THREAD)]"

definition get_module_array_index_by_dynamic_index :: "int \<Rightarrow> nat" where
  "get_module_array_index_by_dynamic_index module_index =
     (case find_index (\<lambda>i. dynamic_module_indexes ! i = module_index) [0..<length modules] of
        Some i \<Rightarrow> i | None \<Rightarrow> 0)"

definition get_module_index_by_name :: "string \<Rightarrow> int" where
  "get_module_index_by_name name =
     (case find_index (\<lambda>m. fst m = name) modules of Some i \<Rightarrow> dynamic_module_indexes ! i | None \<Rightarrow> -1)"

section \<open>Rows\<close>

definition fixed_row1_height :: int where "fixed_row1_height = 11"
definition min_row2_height :: int where "min_row2_height = 3"
definition min_tui_width :: int where "min_tui_width = 50"
definition row1_modules :: nat where "row1_modules = 4"
definition primary_pane_slots :: nat where "primary_pane_slots = 1"

definition top_height :: "config \<Rightarrow> int" where
  "top_height cfg = (if SHOW_TOP_PANELS cfg \<noteq> 0 then fixed_row1_height else 0)"

definition calculate_row2_height :: "config \<Rightarrow> int \<Rightarrow> int" where
  "calculate_row2_height cfg screen_height =
     (let row2_height = screen_height - top_height cfg
      in if row2_height < min_row2_height then min_row2_height else row2_height)"

definition calculate_row2_y :: "config \<Rightarrow> int" where
  "calculate_row2_y cfg = (if SHOW_TOP_PANELS cfg \<noteq> 0 then fixed_row1_height else 0)"

definition tui_size_is_too_small :: "config \<Rightarrow> int \<Rightarrow> int \<Rightarrow> bool" where
  "tui_size_is_too_small cfg screen_height screen_width \<longleftrightarrow>
     screen_width < min_tui_width \<or> screen_height < top_height cfg + min_row2_height"

text \<open>\<open>(int)(screen_width * 0.25)\<close> and \<open>(int)(screen_width * 0.20)\<close>, in double precision.\<close>

definition calculate_row1_widths :: "int \<Rightarrow> int list" where
  "calculate_row1_widths screen_width =
     (let a = c_trunc (dbl (of_int screen_width * dbl (1 / 4)));
          b = c_trunc (dbl (of_int screen_width * dbl (1 / 5)));
          c = c_trunc (dbl (of_int screen_width * dbl (1 / 4)))
      in [a, b, c, screen_width - a - b - c])"

definition calculate_row2_widths :: "int \<Rightarrow> int list" where
  "calculate_row2_widths screen_width = [screen_width]"

section \<open>The layout\<close>

record DashboardLayoutGeometry =
  dl_screen_height :: int
  dl_screen_width :: int
  dl_row1_height :: int
  dl_row2_height :: int
  dl_row2_y :: int
  dl_row1_widths :: "int list"
  dl_row2_widths :: "int list"
  dl_row2_geometry :: TrfxTwoColumnLayoutGeometry

definition zero_row2_geometry :: TrfxTwoColumnLayoutGeometry where
  "zero_row2_geometry = \<lparr>primary_x = 0, primary_y = 0, primary_width = 0, primary_height = 0, secondary_x = 0,
     secondary_y = 0, secondary_width = 0, secondary_height = 0, geometry_secondary_visible = 0\<rparr>"

text \<open>The zeros of \<open>memset\<close> in \<open>build_dashboard_frame_update\<close>.\<close>

definition zero_layout :: DashboardLayoutGeometry where
  "zero_layout = \<lparr>dl_screen_height = 0, dl_screen_width = 0, dl_row1_height = 0, dl_row2_height = 0, dl_row2_y = 0,
     dl_row1_widths = replicate row1_modules 0, dl_row2_widths = replicate primary_pane_slots 0,
     dl_row2_geometry = zero_row2_geometry\<rparr>"

text \<open>\<open>screen\<close> is what \<open>getmaxyx(stdscr, ...)\<close> yields: height and width.\<close>

definition compute_dashboard_layout ::
  "config \<Rightarrow> int \<times> int \<Rightarrow> TrfxTwoColumnLayoutState \<Rightarrow> DashboardLayoutGeometry option
    \<Rightarrow> bool \<times> DashboardLayoutGeometry option" where
  "compute_dashboard_layout cfg screen st layout =
     (case layout of None \<Rightarrow> (False, None)
      | Some l \<Rightarrow>
          (let l1 = l\<lparr>dl_screen_height := fst screen, dl_screen_width := snd screen\<rparr>
           in if tui_size_is_too_small cfg (fst screen) (snd screen) then (False, Some l1)
              else (let l2 = l1\<lparr>dl_row1_widths := calculate_row1_widths (snd screen),
                              dl_row1_height := (if SHOW_TOP_PANELS cfg \<noteq> 0 then fixed_row1_height else 0),
                              dl_row2_height := calculate_row2_height cfg (fst screen),
                              dl_row2_y := calculate_row2_y cfg\<rparr>;
                        g = the (snd (trfx_two_column_layout_compute_geometry (Some st) (dl_row2_y l2) 0
                                        (dl_row2_height l2) (dl_screen_width l2) (Some (dl_row2_geometry l2))))
                    in (True, Some (l2\<lparr>dl_row2_geometry := g,
                                       dl_row2_widths := calculate_row2_widths (primary_width g)\<rparr>)))))"

definition build_dashboard_frame_update ::
  "config \<Rightarrow> int \<times> int \<Rightarrow> TrfxTwoColumnLayoutState \<Rightarrow> bool \<times> DashboardLayoutGeometry" where
  "build_dashboard_frame_update cfg screen st =
     (case compute_dashboard_layout cfg screen st (Some zero_layout) of (ok, l) \<Rightarrow> (ok, the l))"

section \<open>Windows on the screen\<close>

text \<open>\<open>wresize\<close> followed by \<open>mvwin\<close> puts a window to its place.\<close>

record win_geom =
  wg_h :: int
  wg_w :: int
  wg_y :: int
  wg_x :: int

definition place :: "int \<Rightarrow> int \<Rightarrow> int \<Rightarrow> int \<Rightarrow> win_geom" where
  "place h w y x = \<lparr>wg_h = h, wg_w = w, wg_y = y, wg_x = x\<rparr>"

text \<open>The four windows of the top row: system, processors, memory, disks. A window that could not be made is
  \<open>None\<close>; then none is moved.\<close>

definition apply_top_panel_geometry ::
  "config \<Rightarrow> DashboardLayoutGeometry \<Rightarrow> win_geom option list \<Rightarrow> win_geom option list" where
  "apply_top_panel_geometry cfg l tops =
     (if None \<in> set tops then tops
      else if SHOW_TOP_PANELS cfg = 0 then tops
      else (let h = dl_row1_height l; w = dl_row1_widths l
            in [Some (place h (w ! 0) 0 0), Some (place h (w ! 1) 0 (w ! 0)),
                Some (place h (w ! 2) 0 (w ! 0 + w ! 1)), Some (place h (w ! 3) 0 (w ! 0 + w ! 1 + w ! 2))]))"

text \<open>The windows of the slots of the primary pane; a slot without a window keeps none.\<close>

definition apply_primary_panes_geometry ::
  "DashboardLayoutGeometry \<Rightarrow> win_geom option list \<Rightarrow> win_geom option list" where
  "apply_primary_panes_geometry l panes =
     map (\<lambda>i. map_option (\<lambda>_. place (dl_row2_height l) (dl_row2_widths l ! i) (dl_row2_y l)
                                  (sum_list (take i (dl_row2_widths l)))) (panes ! i)) [0..<length panes]"

section \<open>Small helpers\<close>

text \<open>\<open>NULL\<close> for a time is \<open>None\<close>; a \<open>timespec\<close> is a pair of seconds and nanoseconds.\<close>

definition layout_elapsed_us :: "(int \<times> int) option \<Rightarrow> (int \<times> int) option \<Rightarrow> int" where
  "layout_elapsed_us begun ended =
     (case (begun, ended) of
        (Some (s, sn), Some (e, en)) \<Rightarrow> (e - s) * 1000000 + c_quot (en - sn) 1000
      | _ \<Rightarrow> 0)"

text \<open>\<open>cached\<close> is the static variable; the result is what the function returns and what the variable holds then.\<close>

definition layout_timing_enabled :: "int \<Rightarrow> string option \<Rightarrow> int \<times> int" where
  "layout_timing_enabled cached env_value =
     (if cached \<noteq> -1 then (cached, cached)
      else (let c = (if env_value = Some ''1'' then 1 else 0) in (c, c)))"

text \<open>The line written to \<open>stderr\<close>; \<open>now\<close> is what \<open>clock_gettime\<close> yields.\<close>

definition layout_timing_log :: "int \<Rightarrow> string option \<Rightarrow> (int \<times> int) option \<Rightarrow> (int \<times> int) option \<Rightarrow> string" where
  "layout_timing_log enabled label begun now =
     (if enabled = 0 \<or> label = None \<or> begun = None then []
      else case now of None \<Rightarrow> []
           | Some _ \<Rightarrow> ''[trafix] '' @ the label @ '': '' @ show_int (layout_elapsed_us begun now) @ '' us'' @ [nl])"

section \<open>The widths of the top row\<close>

lemma ulp_small:
  assumes "0 < x" and "x < 2 ^ 52"
  shows "\<exists>m. ulp 53 x * 2 ^ m = 1"
proof -
  have "2 powi (ilog2 x) < (2 :: rat) powi 52"
    using ilog2_lower [OF assms(1)] assms(2) by (simp add: power_int_def)
  then have l: "ilog2 x < 52"
    by (metis not_le power_int_increasing one_le_numeral less_le_not_le)
  have "ulp 53 x = 2 powi (ilog2 x - 52)" using assms(1) by (simp add: ulp_def abs_of_pos)
  also have "\<dots> = 2 powi (- int (nat (52 - ilog2 x)))" using l by simp
  finally have "ulp 53 x = 1 / 2 ^ nat (52 - ilog2 x)" by (simp only: two_powi)
  then have "ulp 53 x * 2 ^ nat (52 - ilog2 x) = 1" by simp
  then show ?thesis ..
qed

lemma dbl_int_ge:
  assumes "of_int k \<le> x" and "0 < x" and "x < 2 ^ 52"
  shows "of_int k \<le> dbl x"
proof -
  obtain m where m: "ulp 53 x * 2 ^ m = 1" using ulp_small [OF assms(2,3)] by blast
  have "of_int (k * 2 ^ m) * ulp 53 x = of_int k * (ulp 53 x * 2 ^ m)" by simp
  then have e: "of_int (k * 2 ^ m) * ulp 53 x = of_int k" unfolding m by simp
  show ?thesis using fl_grid_ge [of "k * 2 ^ m" 53 x] assms(1) unfolding e by simp
qed

lemma trunc_dbl:
  assumes "0 \<le> k" and "of_int k \<le> x" and "x \<le> of_int k + 9 / 10" and "x < 2 ^ 40"
  shows "c_trunc (dbl x) = k"
proof (cases "x = 0")
  case True
  then have "k = 0" using assms(1,2) by simp
  then show ?thesis using True by (simp add: c_trunc_def)
next
  case False
  have k: "(0 :: rat) \<le> of_int k" using assms(1) by simp
  then have x: "0 < x" using False assms(2) by linarith
  have "of_int k \<le> dbl x" using assms x by (intro dbl_int_ge) simp_all
  moreover have "\<bar>dbl x - x\<bar> \<le> \<bar>x\<bar> * 2 powi (- int 53)" by (rule fl_error)
  then have "dbl x \<le> x + x * (1 / 2 ^ 53)" using x by (simp only: two_powi)
  moreover have "x * (1 / 2 ^ 53) < 2 ^ 40 * (1 / 2 ^ 53)" using assms(4) by (intro mult_strict_right_mono) simp_all
  ultimately have "of_int k \<le> dbl x" "dbl x < of_int k + 1" using assms(3) by simp_all
  then show ?thesis using k by (simp add: c_trunc_def floor_eq_iff)
qed

lemma quarter_exact: "dbl (1 / 4) = 1 / 4"
  by code_simp

lemma fifth_value: "dbl (1 / 5) = 3602879701896397 / 18014398509481984"
  by code_simp

lemma div_rat:
  assumes "0 < (d :: int)"
  shows "(of_int w :: rat) = of_int d * of_int (w div d) + of_int (w mod d)"
    and "(0 :: rat) \<le> of_int (w mod d)" and "(of_int (w mod d) :: rat) \<le> of_int d - 1"
proof -
  have "w = d * (w div d) + w mod d" by simp
  then show "(of_int w :: rat) = of_int d * of_int (w div d) + of_int (w mod d)"
    by (metis of_int_add of_int_mult)
  show "(0 :: rat) \<le> of_int (w mod d)" using assms by simp
  have "w mod d \<le> d - 1" using assms pos_mod_bound [of d w] by linarith
  then show "(of_int (w mod d) :: rat) \<le> of_int d - 1" by (metis of_int_1 of_int_diff of_int_le_iff)
qed

lemma row1_widths_eq:
  assumes "0 \<le> w" and "w < 2 ^ 31"
  shows "calculate_row1_widths w = [w div 4, w div 5, w div 4, w - w div 4 - w div 5 - w div 4]"
proof -
  have "(of_int w :: rat) < of_int (2 ^ 31)" using assms(2) by (simp only: of_int_less_iff)
  then have b: "(of_int w :: rat) < 2147483648" "(0 :: rat) \<le> of_int w" using assms by simp_all
  have "c_trunc (dbl (of_int w * dbl (1 / 4))) = w div 4"
  proof (rule trunc_dbl)
    show "0 \<le> w div 4" using assms by simp
    show "of_int (w div 4) \<le> of_int w * dbl (1 / 4)" "of_int w * dbl (1 / 4) \<le> of_int (w div 4) + 9 / 10"
      unfolding quarter_exact using div_rat [of 4 w] by simp_all
    show "of_int w * dbl (1 / 4) < 2 ^ 40" unfolding quarter_exact using b by simp
  qed
  moreover have "c_trunc (dbl (of_int w * dbl (1 / 5))) = w div 5"
  proof (rule trunc_dbl)
    show "0 \<le> w div 5" using assms by simp
    show "of_int (w div 5) \<le> of_int w * dbl (1 / 5)" "of_int w * dbl (1 / 5) \<le> of_int (w div 5) + 9 / 10"
      unfolding fifth_value using div_rat [of 5 w] b by simp_all
    show "of_int w * dbl (1 / 5) < 2 ^ 40" unfolding fifth_value using b by simp
  qed
  ultimately show ?thesis by (simp add: calculate_row1_widths_def Let_def)
qed

lemma row_shares:
  assumes "50 \<le> (w :: int)"
  shows "10 \<le> w div 4 \<and> 10 \<le> w div 5 \<and> 10 \<le> w - w div 4 - w div 5 - w div 4"
proof -
  have "10 \<le> w div 4" using zdiv_mono1 [OF assms, of 4] by simp
  moreover have "10 \<le> w div 5" using zdiv_mono1 [OF assms, of 5] by simp
  moreover have "4 * (w div 4) \<le> w" "5 * (w div 5) \<le> w"
    using mult_div_mod_eq [of 4 w] mult_div_mod_eq [of 5 w] pos_mod_sign [of 4 w] pos_mod_sign [of 5 w] by linarith+
  ultimately show ?thesis using assms by linarith
qed

text \<open>The width of the primary column on a screen of width \<open>w\<close>.\<close>

definition primary_share :: "TrfxTwoColumnLayoutState \<Rightarrow> int \<Rightarrow> int" where
  "primary_share st w =
     (if layout_secondary_visible (Some st) \<noteq> 0 \<and> 90 \<le> w then fst (layout_split_width (Some st) w) else w)"

lemma primary_share_range: "0 < w \<Longrightarrow> 1 \<le> primary_share st w \<and> primary_share st w \<le> w
    \<and> (90 \<le> w \<longrightarrow> layout_secondary_visible (Some st) \<noteq> 0 \<longrightarrow> primary_share st w < w)"
  using split_width_tiles [of w "Some st"]
  by (cases "layout_split_width (Some st) w") (auto simp: primary_share_def)

definition full_layout :: "config \<Rightarrow> int \<Rightarrow> int \<Rightarrow> TrfxTwoColumnLayoutState \<Rightarrow> DashboardLayoutGeometry" where
  "full_layout cfg h w st =
     (let top = top_height cfg; a = primary_share st w;
          shown = layout_secondary_visible (Some st) \<noteq> 0 \<and> 90 \<le> w
      in \<lparr>dl_screen_height = h, dl_screen_width = w, dl_row1_height = top, dl_row2_height = h - top, dl_row2_y = top,
          dl_row1_widths = [w div 4, w div 5, w div 4, w - w div 4 - w div 5 - w div 4], dl_row2_widths = [a],
          dl_row2_geometry = \<lparr>primary_x = 0, primary_y = top, primary_width = a, primary_height = h - top,
            secondary_x = a, secondary_y = top, secondary_width = w - a, secondary_height = h - top,
            geometry_secondary_visible = (if shown then layout_secondary_visible (Some st) else 0)\<rparr>\<rparr>)"

lemma frame_update_fits:
  assumes "\<not> tui_size_is_too_small cfg h w" and "w < 2 ^ 31"
  shows "build_dashboard_frame_update cfg (h, w) st = (True, full_layout cfg h w st)"
proof -
  have w: "0 \<le> w" and h: "0 \<le> h - top_height cfg" "calculate_row2_height cfg h = h - top_height cfg"
    using assms(1) by (auto simp: tui_size_is_too_small_def min_tui_width_def min_row2_height_def
        calculate_row2_height_def Let_def)
  have y: "calculate_row2_y cfg = top_height cfg" by (simp add: calculate_row2_y_def top_height_def)
  have top: "(if SHOW_TOP_PANELS cfg \<noteq> 0 then fixed_row1_height else 0) = top_height cfg"
    by (simp add: top_height_def)
  have g: "trfx_two_column_layout_compute_geometry (Some st) (top_height cfg) 0 (h - top_height cfg) w
      (Some zero_row2_geometry) = (1, Some (dl_row2_geometry (full_layout cfg h w st)))"
    unfolding compute_geometry_eq [OF h(1) w]
    by (simp add: full_layout_def primary_share_def zero_row2_geometry_def Let_def)
  have a: "dl_row2_widths (full_layout cfg h w st) = [primary_width (dl_row2_geometry (full_layout cfg h w st))]"
    by (simp add: full_layout_def Let_def)
  have "compute_dashboard_layout cfg (h, w) st (Some zero_layout) = (True, Some (full_layout cfg h w st))"
    by (simp add: compute_dashboard_layout_def assms(1) y top h(2) zero_layout_def calculate_row2_widths_def
        row1_widths_eq [OF w assms(2)] g)
      (simp add: full_layout_def Let_def)
  then show ?thesis by (simp add: build_dashboard_frame_update_def)
qed

text \<open>C13. On a screen that is large enough the windows of the dashboard tile it exactly, in spite of the floating-point
  percentages: the four windows of the top row stand side by side from the left border to the right one, and below
  them, down to the last row, the primary pane and the support column share the whole width. No window is empty.\<close>

theorem dashboard_tiles_screen:
  assumes "\<not> tui_size_is_too_small cfg h w" and "w < 2 ^ 31"
  shows "\<exists>l. build_dashboard_frame_update cfg (h, w) st = (True, l)
    \<and> length (dl_row1_widths l) = 4 \<and> sum_list (dl_row1_widths l) = w \<and> (\<forall>x\<in>set (dl_row1_widths l). 10 \<le> x)
    \<and> dl_row1_height l = dl_row2_y l \<and> dl_row2_y l + dl_row2_height l = h \<and> 3 \<le> dl_row2_height l
    \<and> dl_row2_widths l = [primary_width (dl_row2_geometry l)] \<and> 1 \<le> primary_width (dl_row2_geometry l)
    \<and> secondary_x (dl_row2_geometry l) = primary_width (dl_row2_geometry l)
    \<and> primary_width (dl_row2_geometry l) + secondary_width (dl_row2_geometry l) = w
    \<and> (geometry_secondary_visible (dl_row2_geometry l) \<noteq> 0 \<longleftrightarrow> 1 \<le> secondary_width (dl_row2_geometry l))"
proof -
  have w: "50 \<le> w" and h: "top_height cfg + 3 \<le> h"
    using assms(1) by (auto simp: tui_size_is_too_small_def min_tui_width_def min_row2_height_def)
  show ?thesis
    unfolding frame_update_fits [OF assms]
    using row_shares [OF w] primary_share_range [of w st] w h
    by (auto simp: full_layout_def Let_def primary_share_def)
qed

lemma dashboard_tiles_screen_witness:
  "\<not> tui_size_is_too_small config_default 24 101 \<and> (\<exists>l. build_dashboard_frame_update config_default (24, 101)
      \<lparr>secondary_visible = 1, primary_width_percent = 70, secondary_width_percent = 30, secondary_state_index = 0\<rparr>
    = (True, l) \<and> sum_list (dl_row1_widths l) = 101)"
proof -
  have "\<not> tui_size_is_too_small config_default 24 101"
    by (simp add: tui_size_is_too_small_def config_default_def top_height_def fixed_row1_height_def min_tui_width_def
        min_row2_height_def)
  then show ?thesis
    using dashboard_tiles_screen [of config_default 24 101
        "\<lparr>secondary_visible = 1, primary_width_percent = 70, secondary_width_percent = 30, secondary_state_index = 0\<rparr>"]
    by auto
qed

end
