(* ===== verification/DashState.thy ===== *)
theory DashState
  imports PanelText App DashLayout
begin

text \<open>
  The state of the dashboard of \<open>src/trfx_dashboard.c\<close> and its waits for a key. The dashboard is the main thread: it
  shares the panel state with the other threads, reads keys, and waits in \<open>getch\<close> and \<open>wgetch\<close>. While it waits, the
  other threads run and the system changes; an input event carries the key and what has happened until it came: the
  system seen from now on, and the effect on the shared state, which is any function. An operation that needs more
  keys than there are yields \<open>Waiting\<close>. The window library is part of the system: \<open>newwin\<close> makes a window or fails.
\<close>

section \<open>Colours\<close>

text \<open>\<open>COLOR_PAIR\<close> of the window library is a parameter; \<open>A_NORMAL\<close> is 0.\<close>

definition color_data_red :: int where "color_data_red = 4"
definition color_data_yellow :: int where "color_data_yellow = 5"
definition color_data_green :: int where "color_data_green = 6"
definition color_header :: int where "color_header = 7"
definition color_border :: int where "color_border = 8"

definition trfx_color_attr :: "(int \<Rightarrow> int) \<Rightarrow> int \<Rightarrow> int \<Rightarrow> int" where
  "trfx_color_attr color_pair colors_enabled pair = (if colors_enabled \<noteq> 0 then color_pair pair else 0)"

text \<open>What the terminal can do: the answers of \<open>has_colors\<close>, \<open>start_color\<close>, \<open>use_default_colors\<close> and \<open>init_pair\<close>.\<close>

record color_terminal =
  ct_has_colors :: bool
  ct_start_color :: bool
  ct_default_colors :: bool
  ct_init_pair :: "int \<Rightarrow> int \<Rightarrow> int \<Rightarrow> bool"

text \<open>The new value of \<open>trfx_colors_enabled\<close>. \<open>COLOR_RED\<close> is 1, \<open>COLOR_GREEN\<close> 2, \<open>COLOR_YELLOW\<close> 3 and \<open>COLOR_CYAN\<close> 6.\<close>

definition init_dashboard_colors :: "color_terminal \<Rightarrow> int" where
  "init_dashboard_colors t =
     (if \<not> ct_has_colors t then 0
      else if \<not> ct_start_color t then 0
      else (let background = (if ct_default_colors t then -1 else 0)
            in if list_all (\<lambda>(pair, foreground). ct_init_pair t pair foreground background)
                    [(color_header, 6), (color_data_green, 2), (color_data_red, 1), (color_data_yellow, 3), (color_border, 6)]
               then 1 else 0))"

section \<open>The state\<close>

text \<open>Starting a thread: \<open>malloc\<close> can fail, and \<open>pthread_create\<close>. Each place that allocates or starts one has its own
  outcome: the two arrays of the primary pane, the four threads of the top row, those of the slots and of the
  support column.\<close>

datatype thread_start = ThreadStarts | NoMemory | ThreadFails

datatype start_site = SlotArray | WidthArray | TopThread nat | SlotThread nat | SupportThread

record dash_world =
  dw_app :: app_env
  dw_screen :: "int \<times> int"
  dw_newwin :: "win_geom \<Rightarrow> win_geom option"
  dw_start :: "start_site \<Rightarrow> thread_start"
  dw_colors :: color_terminal
  dw_clock :: clock
  dw_join :: "thread_state \<Rightarrow> thread_state"

record dash_event =
  ev_key :: int
  ev_world :: dash_world
  ev_others :: "thread_state \<Rightarrow> thread_state"

text \<open>
  A slot of the primary pane: the function of its running thread (\<open>None\<close> for the \<open>thread_id\<close> 0, the static memory of the
  slots being zero and \<open>pthread_create\<close> leaving it so when it fails), its module, window and stop flag.
\<close>

record WindowSlot =
  sl_thread :: "panel_func option"
  sl_module_index :: int
  sl_window :: "win_geom option"
  sl_stop :: int

text \<open>One call of \<open>trfx_execute_action_request\<close>: the keys read before, the system, the request and what it did.\<close>

record execution =
  ex_keys :: "int list"
  ex_app :: app_env
  ex_request :: TrfxActionRequest
  ex_confirmed :: int
  ex_effects :: "action_effect list"

text \<open>
  The state shared with the threads (of \<open>thread_state\<close> the fields that are not the thread's own), the system, the
  input, and the history: the keys read, the executed actions and the popup frames shown. Then the windows that
  exist: popups, the four of the top row, the slots, the support column with its thread and stop flag; which of the
  four threads of the top row run; the layout, and the colour flag.
\<close>

record dash_state =
  ds_shared :: thread_state
  ds_world :: dash_world
  ds_input :: "dash_event list"
  ds_keys :: "int list"
  ds_log :: "execution list"
  ds_frames :: "(win_geom \<times> nat option \<times> window) list"
  ds_popups :: "win_geom list"
  ds_stdscr :: window
  ds_tops :: "win_geom option list"
  ds_top_threads :: "bool list"
  ds_slots :: "WindowSlot list option"
  ds_support_window :: "win_geom option"
  ds_support_active :: bool
  ds_support_stop :: int
  ds_layout :: TrfxTwoColumnLayoutState
  ds_colors :: int

text \<open>How an operation ends: it waits for a key or for a thread, it has left the program, it has joined a thread that
  does not exist, or it is done with a value.\<close>

datatype 'a dash_result = Waiting dash_state | Exited dash_state | Undefined dash_state | Done 'a dash_state

type_synonym 'a dash = "dash_state \<Rightarrow> 'a dash_result"

definition dret :: "'a \<Rightarrow> 'a dash" where
  "dret a s = Done a s"

definition dmod :: "(dash_state \<Rightarrow> dash_state) \<Rightarrow> unit dash" where
  "dmod f s = Done () (f s)"

definition dbind :: "'a dash \<Rightarrow> ('a \<Rightarrow> 'b dash) \<Rightarrow> 'b dash" where
  "dbind m k s = (case m s of Done a s' \<Rightarrow> k a s' | Waiting s' \<Rightarrow> Waiting s' | Exited s' \<Rightarrow> Exited s'
                  | Undefined s' \<Rightarrow> Undefined s')"

definition dash_env :: "dash_state \<Rightarrow> app_env" where
  "dash_env s = dw_app (ds_world s)"

definition dash_os :: "dash_state \<Rightarrow> os_view" where
  "dash_os s = app_os (dash_env s)"

definition dash_cfg :: "dash_state \<Rightarrow> config" where
  "dash_cfg s = th_cfg (ds_shared s)"

definition dash_screen :: "dash_state \<Rightarrow> int \<times> int" where
  "dash_screen s = dw_screen (ds_world s)"

text \<open>An operation of the shared state, and one of the runtime flags.\<close>

definition on_shared :: "(thread_state \<Rightarrow> thread_state) \<Rightarrow> dash_state \<Rightarrow> dash_state" where
  "on_shared f s = s\<lparr>ds_shared := f (ds_shared s)\<rparr>"

definition on_runtime :: "(TrfxRuntimeState \<Rightarrow> TrfxRuntimeState) \<Rightarrow> dash_state \<Rightarrow> dash_state" where
  "on_runtime f = on_shared (\<lambda>t. t\<lparr>th_runtime := f (th_runtime t)\<rparr>)"

definition on_views :: "(support_view_state \<Rightarrow> support_view_state) \<Rightarrow> dash_state \<Rightarrow> dash_state" where
  "on_views f = on_shared (\<lambda>t. t\<lparr>th_views := f (th_views t)\<rparr>)"

text \<open>
  \<open>pthread_join\<close>. A thread that was not started cannot be joined. A thread ends once it was asked to stop, by its own
  flag or by the runtime's, and not before; \<open>dw_join\<close> is what the threads do to the shared state meanwhile.
\<close>

definition dash_join :: "bool \<Rightarrow> int \<Rightarrow> unit dash" where
  "dash_join exists stop s =
     (if \<not> exists then Undefined s
      else if stop \<noteq> 0 \<or> runtime_stops (ds_shared s) then Done () (on_shared (dw_join (ds_world s)) s)
      else Waiting s)"

section \<open>Keys\<close>

abbreviation key_esc :: int where "key_esc \<equiv> 27"
abbreviation key_newline :: int where "key_newline \<equiv> 10"
abbreviation key_return :: int where "key_return \<equiv> 13"
abbreviation key_down :: int where "key_down \<equiv> 258"
abbreviation key_up :: int where "key_up \<equiv> 259"
abbreviation key_f1 :: int where "key_f1 \<equiv> 265"
abbreviation key_enter :: int where "key_enter \<equiv> 343"
abbreviation key_resize :: int where "key_resize \<equiv> 410"

definition key :: "char \<Rightarrow> int" where
  "key c = int (of_char c)"

text \<open>\<open>getch\<close> and \<open>wgetch\<close>; a \<open>wgetch\<close> without delay that has no key yields \<open>ERR\<close>, the key \<open>-1\<close> of an event.\<close>

definition dash_getch :: "int dash" where
  "dash_getch s =
     (case ds_input s of [] \<Rightarrow> Waiting s
      | e # es \<Rightarrow> Done (ev_key e) (s\<lparr>ds_input := es, ds_world := ev_world e, ds_shared := ev_others e (ds_shared s),
                                     ds_keys := ds_keys s @ [ev_key e]\<rparr>))"

text \<open>The loop \<open>while (1) { ch = wgetch(popup); if (...) break; }\<close>: it reads keys until one satisfies the test.\<close>

function wait_key :: "(int \<Rightarrow> bool) \<Rightarrow> int dash" where
  "wait_key p s =
     (case dash_getch s of Done ch s' \<Rightarrow> if p ch then Done ch s' else wait_key p s'
      | Waiting s' \<Rightarrow> Waiting s' | Exited s' \<Rightarrow> Exited s' | Undefined s' \<Rightarrow> Undefined s')"
  by pat_completeness auto
termination
  by (relation "measure (\<lambda>(_, s). length (ds_input s))") (auto simp: dash_getch_def split: list.splits)

declare wait_key.simps [simp del]

section \<open>Popups\<close>

text \<open>\<open>newwin\<close> with the frame around the window: the window, in the list of the windows that exist.\<close>

definition create_bordered_window :: "win_geom \<Rightarrow> dash_state \<Rightarrow> win_geom option" where
  "create_bordered_window g s = dw_newwin (ds_world s) g"

definition open_popup :: "win_geom \<Rightarrow> dash_state \<Rightarrow> win_geom option \<times> dash_state" where
  "open_popup g s =
     (case create_bordered_window g s of None \<Rightarrow> (None, s)
      | Some p \<Rightarrow> (Some p, s\<lparr>ds_popups := ds_popups s @ [p]\<rparr>))"

text \<open>\<open>werase\<close> with the redrawn frame: an empty window. \<open>wrefresh\<close> shows it; \<open>selected\<close> is the row in reverse video, if any.\<close>

definition blank :: "win_geom \<Rightarrow> window" where
  "blank g = \<lparr>win_h = wg_h g, win_w = wg_w g, win_out = []\<rparr>"

definition show_frame :: "win_geom \<Rightarrow> nat option \<Rightarrow> window \<Rightarrow> dash_state \<Rightarrow> dash_state" where
  "show_frame g selected win s = s\<lparr>ds_frames := ds_frames s @ [(g, selected, win)]\<rparr>"

text \<open>\<open>delwin\<close> of the popup that was opened last.\<close>

definition close_popup :: "dash_state \<Rightarrow> dash_state" where
  "close_popup s = s\<lparr>ds_popups := butlast (ds_popups s)\<rparr>"

text \<open>A popup of the given height and width, centred on the screen.\<close>

definition popup_place :: "dash_state \<Rightarrow> int \<Rightarrow> int \<Rightarrow> win_geom" where
  "popup_place s h w = place h w (c_quot (fst (dash_screen s) - h) 2) (c_quot (snd (dash_screen s) - w) 2)"

text \<open>\<open>if (v > limit) v = limit;\<close> and \<open>if (v < limit) v = limit;\<close>\<close>

definition at_most :: "int \<Rightarrow> int \<Rightarrow> int" where
  "at_most limit v = (if limit < v then limit else v)"

definition at_least :: "int \<Rightarrow> int \<Rightarrow> int" where
  "at_least limit v = (if v < limit then limit else v)"

definition resume_dashboard_after_popup :: "dash_state \<Rightarrow> dash_state" where
  "resume_dashboard_after_popup s = on_runtime trfx_runtime_request_static_refresh_all (on_runtime (trfx_runtime_set_paused 0) s)"

definition request_dashboard_data_refresh :: "dash_state \<Rightarrow> dash_state" where
  "request_dashboard_data_refresh s = on_runtime (trfx_runtime_set_paused 0) (on_runtime trfx_runtime_request_static_refresh_all s)"

text \<open>
  The loop of the selection popups. \<open>frame i\<close> is what is drawn with row \<open>i\<close> selected and \<open>move\<close> the effect of the arrow
  keys; \<open>Some i\<close> is a choice and \<open>None\<close> a cancellation.
\<close>

function select_loop ::
  "win_geom \<Rightarrow> (nat \<Rightarrow> window) \<Rightarrow> (nat \<Rightarrow> int \<Rightarrow> nat) \<Rightarrow> (int \<Rightarrow> bool) \<Rightarrow> (int \<Rightarrow> bool) \<Rightarrow> nat \<Rightarrow> nat option dash" where
  "select_loop g frame move accept cancel i s =
     (case dash_getch (show_frame g (Some i) (frame i) s) of
        Done ch s' \<Rightarrow>
          if ch = key_up then select_loop g frame move accept cancel (move i (-1)) s'
          else if ch = key_down then select_loop g frame move accept cancel (move i 1) s'
          else if accept ch then Done (Some i) s'
          else if cancel ch then Done None s'
          else select_loop g frame move accept cancel i s'
      | Waiting s' \<Rightarrow> Waiting s' | Exited s' \<Rightarrow> Exited s' | Undefined s' \<Rightarrow> Undefined s')"
  by pat_completeness auto
termination
  by (relation "measure (\<lambda>(_, _, _, _, _, _, s). length (ds_input s))")
    (auto simp: dash_getch_def show_frame_def split: list.splits)

declare select_loop.simps [simp del]

text \<open>\<open>(i - 1 + n) % n\<close> and \<open>(i + 1) % n\<close>.\<close>

definition cycle_row :: "nat \<Rightarrow> nat \<Rightarrow> int \<Rightarrow> nat" where
  "cycle_row n i delta = (if delta < 0 then (i + n - 1) mod n else (i + 1) mod n)"

section \<open>The texts of the popups\<close>

definition put_at :: "int \<Rightarrow> int \<Rightarrow> string \<Rightarrow> window \<Rightarrow> window" where
  "put_at y x t win = mvwprintw win y x t"

definition put_clip :: "int \<Rightarrow> int \<Rightarrow> string \<Rightarrow> window \<Rightarrow> window" where
  "put_clip y x t win = trfx_print_clipped win y x (Some t)"

text \<open>A line of text per element, from row \<open>y\<close> on.\<close>

definition put_lines :: "(int \<Rightarrow> int \<Rightarrow> string \<Rightarrow> window \<Rightarrow> window) \<Rightarrow> int \<Rightarrow> int \<Rightarrow> string list \<Rightarrow> window \<Rightarrow> window" where
  "put_lines f y x ts win = fold (\<lambda>(i, t). f (y + int i) x t) (enumerate 0 ts) win"

definition draw_centered_message :: "string \<Rightarrow> window \<Rightarrow> window" where
  "draw_centered_message message win =
     put_at (c_quot (win_h win) 2) (c_quot (win_w win - int (length message)) 2) message win"

definition format_popup_time :: "clock \<Rightarrow> int \<Rightarrow> nat \<Rightarrow> string" where
  "format_popup_time clock when buf_size = (case clock when of None \<Rightarrow> fit buf_size ''unknown'' | Some t \<Rightarrow> t)"

definition draw_small_terminal_message :: "int \<Rightarrow> int \<Rightarrow> dash_state \<Rightarrow> dash_state" where
  "draw_small_terminal_message screen_height screen_width s =
     (let win = \<lparr>win_h = screen_height, win_w = screen_width, win_out = []\<rparr>
      in s\<lparr>ds_stdscr := (if 2 < screen_height \<and> 4 < screen_width
                         then put_at (c_quot screen_height 2) 2 ''Terminal too small. Resize or press q.'' win else win)\<rparr>)"

end
