(* ===== verification/DashPopups.thy ===== *)
theory DashPopups
  imports DashState
begin

text \<open>
  The popups of \<open>src/trfx_dashboard.c\<close> and the actions behind them: the help, the confirmation of an action and its
  result, the choice of a process, a connection, a module and a view, and the pause.
\<close>

section \<open>Help\<close>

definition hotkeys :: "(string \<times> string) list" where
  "hotkeys =
     [(''[s]'', ''Change the process sort order''),
      (''[r]'', ''Refresh all panels immediately''),
      (''[c]'', ''Change the primary module''),
      (''[d]'', ''Show bandwidth detail in the secondary panel''),
      (''[x]'', ''Open the modal process kill confirmation''),
      (''[z]'', ''Open the modal connection drop confirmation''),
      (''[a]'', ''Show action audit in the secondary panel''),
      (''[g]'', ''Show diagnostics in the secondary panel''),
      (''[n]'', ''Show route and DNS in the secondary panel''),
      (''[v]'', ''Show network health in the secondary panel''),
      (''[l]'', ''Open the view selector''),
      (''[t]'', ''Show or hide the top system panels''),
      (''[J/K]'', ''Move the selected connection row''),
      (''[o]'', ''Show connection detail in the secondary panel''),
      (''[p]'', ''Pause or resume live updates''),
      (''[h]'', ''Open this help popup''),
      (''[q]'', ''Quit Trafix'')]"

definition hotkeys_subtitle :: string where
  "hotkeys_subtitle = ''Primary and support columns stay visible. `l` opens the view selector.''"

definition hotkeys_place :: "dash_state \<Rightarrow> win_geom" where
  "hotkeys_place s =
     (let widths = (int (length hotkeys_subtitle) + 4) # map (\<lambda>(k, d). 8 + int (length d) + 6) hotkeys;
          w = fold at_least widths (int (length ''Hotkeys'') + 8)
      in popup_place s (int (length hotkeys) + 6) (at_least 54 (at_most (snd (dash_screen s) - 4) w)))"

definition hotkeys_frame :: "win_geom \<Rightarrow> window" where
  "hotkeys_frame g =
     put_clip (wg_h g - 2) 2 ''Press Esc, Enter, or q to close.''
       (put_lines put_clip 4 11 (map snd hotkeys)
         (put_lines put_at 4 2 (map (\<lambda>h. pad_right 7 (fst h)) hotkeys)
           (put_at 3 2 (pad_right 7 ''Key'' @ '' Description'')
             (put_clip 2 2 hotkeys_subtitle (put_at 1 2 ''Hotkeys'' (blank g))))))"

text \<open>Reading keys until one of \<open>keys\<close>, and then closing the popup.\<close>

definition close_on :: "int set \<Rightarrow> unit dash" where
  "close_on keys = dbind (wait_key (\<lambda>ch. ch \<in> keys)) (\<lambda>_. dmod (resume_dashboard_after_popup \<circ> close_popup))"

definition show_hotkeys_popup :: "unit dash" where
  "show_hotkeys_popup s =
     (let s1 = on_runtime (trfx_runtime_set_paused 1) s
      in case open_popup (hotkeys_place s1) s1 of
           (None, s2) \<Rightarrow> Done () (resume_dashboard_after_popup s2)
         | (Some p, s2) \<Rightarrow>
             close_on {key_esc, key_newline, key_return, key CHR ''q'', key CHR ''Q''} (show_frame p None (hotkeys_frame p) s2))"

section \<open>Actions\<close>

definition is_enter :: "int \<Rightarrow> bool" where
  "is_enter ch \<longleftrightarrow> ch = key_enter \<or> ch = key_newline"

definition is_cancel :: "int \<Rightarrow> bool" where
  "is_cancel ch \<longleftrightarrow> ch = key_esc \<or> ch = key CHR ''q'' \<or> ch = key CHR ''Q''"

definition review_frame :: "TrfxActionReview \<Rightarrow> win_geom \<Rightarrow> window" where
  "review_frame review g =
     (let detail_body = the (trfx_clip_text (Some (or_else (av_details review) ''unknown'')) (Some []) 240 239);
          line1 = fit 256 (''Action: '' @ take 248 (or_else (ar_label (av_request review)) ''unknown''));
          line2 = fit 256 (''Details: '' @ detail_body);
          line3 = fit 256 (''State: '' @ trfx_action_permission_status_name (av_permission review))
      in put_clip 5 2 ''Enter to confirm, Esc to cancel.'' (put_clip 3 2 line3 (put_clip 2 2 line2 (put_clip 1 2 line1
           (put_at 0 2 '' Confirm Action '' (blank g))))))"

definition action_popup_place :: "int \<Rightarrow> int \<Rightarrow> int \<Rightarrow> dash_state \<Rightarrow> win_geom" where
  "action_popup_place h w min_w s =
     popup_place s (at_most (fst (dash_screen s) - 2) h) (at_least min_w (at_most (snd (dash_screen s) - 4) w))"

definition show_action_review_popup :: "TrfxActionReview option \<Rightarrow> int dash" where
  "show_action_review_popup review s =
     (case review of None \<Rightarrow> Done 0 s
      | Some v \<Rightarrow>
          (let s1 = on_runtime (trfx_runtime_set_paused 1) s
           in case open_popup (action_popup_place 8 72 50 s1) s1 of
                (None, s2) \<Rightarrow> Done 0 (resume_dashboard_after_popup s2)
              | (Some p, s2) \<Rightarrow>
                  dbind (wait_key (\<lambda>ch. is_enter ch \<or> is_cancel ch))
                    (\<lambda>ch s3. Done (if is_enter ch then 1 else 0) (resume_dashboard_after_popup (close_popup s3)))
                    (show_frame p None (review_frame v p) s2)))"

definition show_action_feedback_popup :: "string option \<Rightarrow> string option \<Rightarrow> unit dash" where
  "show_action_feedback_popup title message s =
     (let m = (case message of None \<Rightarrow> ''no details'' | Some t \<Rightarrow> t);
          frame = (\<lambda>p. put_clip 3 2 ''Press Enter or Esc to close.'' (put_clip 1 2 m
                     (put_at 0 2 ('' '' @ (case title of None \<Rightarrow> ''Message'' | Some t \<Rightarrow> t) @ '' '') (blank p))))
      in case open_popup (action_popup_place 6 72 40 s) s of
           (None, s2) \<Rightarrow> Done () (resume_dashboard_after_popup s2)
         | (Some p, s2) \<Rightarrow>
             close_on {key_esc, key_newline, key_enter, key CHR ''q'', key CHR ''Q''} (show_frame p None (frame p) s2))"

definition action_result_frame :: "string \<Rightarrow> TrfxActionRequest \<Rightarrow> TrfxActionResult \<Rightarrow> win_geom \<Rightarrow> window" where
  "action_result_frame time_line request result g =
     (let clip = (\<lambda>t. the (trfx_clip_text (Some t) (Some []) 240 239));
          action_line = fit 256 (''Action: '' @ or_else (ar_label request) ''unknown'');
          detail_line = fit 256 (''Target: '' @ clip (or_else (ar_description request) ''unknown''));
          status_line = fit 256 (''Result: '' @ trfx_action_result_status_name (as_status result));
          message_line = fit 256 (''Message: '' @ clip (or_else (as_message result) ''no details''))
      in put_clip (wg_h g - 2) 2 ''Press Enter or Esc to close.''
           (put_lines put_clip 1 2 [time_line, action_line, detail_line, status_line, message_line]
             (put_at 0 2 '' Action Result '' (blank g))))"

definition show_action_result_popup :: "TrfxActionRequest option \<Rightarrow> TrfxActionResult option \<Rightarrow> unit dash" where
  "show_action_result_popup request result s =
     (case (request, result) of
        (Some rq, Some rs) \<Rightarrow>
          (let s1 = on_runtime (trfx_runtime_set_paused 1) s;
               time_line = format_popup_time (dw_clock (ds_world s)) (ae_now (ap_act (dash_env s))) 32
           in case open_popup (action_popup_place 8 84 60 s1) s1 of
                (None, s2) \<Rightarrow> Done () (resume_dashboard_after_popup s2)
              | (Some p, s2) \<Rightarrow>
                  close_on {key_esc, key_newline, key_enter, key CHR ''q'', key CHR ''Q''}
                    (show_frame p None (action_result_frame time_line rq rs p) s2))
      | _ \<Rightarrow> Done () s)"

section \<open>Killing a process\<close>

text \<open>The first eight rows of a list are offered, with a heading.\<close>

definition list_frame :: "string \<Rightarrow> string \<Rightarrow> string list \<Rightarrow> win_geom \<Rightarrow> window" where
  "list_frame title heading rows g =
     put_clip (wg_h g - 2) 2 ''Enter to confirm, Esc to cancel.''
       (put_lines put_at 2 2 rows (put_at 1 2 heading (put_at 0 2 title (blank g))))"

text \<open>Choosing one of \<open>items\<close>. On a cancellation the popup is left as it is: it is neither erased nor deleted.\<close>

definition select_item :: "win_geom \<Rightarrow> (win_geom \<Rightarrow> window) \<Rightarrow> 'a list \<Rightarrow> 'a option dash" where
  "select_item g frame items s =
     (case open_popup g s of
        (None, s2) \<Rightarrow> Done None s2
      | (Some p, s2) \<Rightarrow>
          dbind (select_loop p (\<lambda>_. frame p) (cycle_row (length items)) is_enter is_cancel 0)
            (\<lambda>c s3. case c of None \<Rightarrow> Done None s3 | Some i \<Rightarrow> Done (Some (items ! i)) (close_popup s3)) s2)"

definition kill_row :: "ProcessInfo \<Rightarrow> string" where
  "kill_row p = pad_right 7 (pi_pid p) @ '' '' @ column 16 (pi_user p) @ '' '' @ column 8 (pi_cpu p) @ '' '' @ pi_command p"

definition select_process_for_kill :: "ProcessInfo option dash" where
  "select_process_for_kill s =
     (case get_top_processes (dash_os s) (Some []) (int max_processes) (th_sort (ds_shared s)) of
        (cnt, processes) \<Rightarrow>
          if cnt \<le> 0
          then dbind (show_action_feedback_popup (Some ''Kill Process'') (Some ''No processes available'')) (\<lambda>_. dret None) s
          else (let items = take 8 (the processes)
                in select_item (action_popup_place (int (length items) + 5) 88 60 s)
                     (list_frame '' Select Process To Kill ''
                        (pad_right 7 ''PID'' @ '' '' @ pad_right 16 ''USER'' @ '' '' @ pad_right 8 ''CPU'' @ '' COMMAND'')
                        (map kill_row items)) items s))"

text \<open>\<open>trfx_execute_action_request\<close> on the state of the dashboard.\<close>

definition dash_execute :: "TrfxActionRequest \<Rightarrow> int \<Rightarrow> TrfxActionResult dash" where
  "dash_execute rq confirmed s =
     (case trfx_execute_action_request (ap_act (dash_env s)) (Some rq) confirmed (ap_euid (dash_env s)) (Some []) 256
             (th_audit (ds_shared s)) of
        (result, _, effects, au) \<Rightarrow>
          Done result (on_shared (\<lambda>t. t\<lparr>th_audit := au\<rparr>)
            (s\<lparr>ds_log := ds_log s @ [\<lparr>ex_keys = ds_keys s, ex_app = dash_env s, ex_request = rq,
                                      ex_confirmed = confirmed, ex_effects = effects\<rparr>]\<rparr>)))"

text \<open>The review, then the execution with the answer of the user, then its result.\<close>

definition review_and_execute :: "TrfxActionRequest \<Rightarrow> u32 \<Rightarrow> unit dash" where
  "review_and_execute request target_uid s =
     dbind (show_action_review_popup (Some (trfx_prepare_action_review (Some request) (ap_euid (dash_env s)) target_uid 1)))
       (\<lambda>ok. dbind (dash_execute request (if ok = 0 then 0 else 1))
          (\<lambda>result. show_action_result_popup (Some request) (Some result))) s"

definition handle_process_kill_action :: "unit dash" where
  "handle_process_kill_action =
     dbind select_process_for_kill
       (\<lambda>target. case target of None \<Rightarrow> dret ()
          | Some t \<Rightarrow> \<lambda>s.
              (case trfx_lookup_process_uid (dash_os s) (Some (pi_pid t)) (Some []) 256 of
                 (None, e) \<Rightarrow>
                   show_action_feedback_popup (Some ''Kill Process'') (Some (or_else (the e) ''process not found'')) s
               | (Some target_uid, _) \<Rightarrow>
                   review_and_execute (trfx_action_request_set_process_kill (Some (pi_pid t)) (Some (pi_command t)))
                     target_uid s))"

section \<open>Dropping a connection\<close>

definition drop_row :: "ConnectionInfo \<Rightarrow> string" where
  "drop_row c =
     column 6 (ci_protocol c) @ '' '' @ column 22 (ci_local_addr c) @ '' '' @ column 22 (ci_remote_addr c) @ '' ''
     @ column 12 (ci_state c) @ '' '' @ column 7 (ci_pid c) @ '' '' @ column 16 (ci_process c)"

definition select_connection_for_drop :: "ConnectionInfo option dash" where
  "select_connection_for_drop s =
     (let connections = get_connection_info (dash_os s) max_connections
      in if connections = []
         then dbind (show_action_feedback_popup (Some ''Drop Connection'') (Some ''No connections available'')) (\<lambda>_. dret None) s
         else (let items = take 8 connections
               in select_item (action_popup_place (int (length items) + 5) 108 72 s)
                    (list_frame '' Select Connection To Drop ''
                       (pad_right 6 ''PROTO'' @ '' '' @ pad_right 22 ''LOCAL'' @ '' '' @ pad_right 22 ''REMOTE'' @ '' ''
                        @ pad_right 12 ''STATE'' @ '' '' @ pad_right 7 ''PID'' @ '' '' @ pad_right 16 ''PROCESS'')
                       (map drop_row items)) items s))"

definition handle_connection_drop_action :: "unit dash" where
  "handle_connection_drop_action =
     dbind select_connection_for_drop
       (\<lambda>target. case target of None \<Rightarrow> dret ()
          | Some t \<Rightarrow> review_and_execute (trfx_action_request_set_connection_drop (Some t)) 0)"

section \<open>Choosing a module and a view\<close>

definition module_names :: "string list" where
  "module_names = ['' Network Overview '', '' Connections '', '' Socket Owners '', '' Processes '', '' Processes Compact '']"

text \<open>The result is the row, \<open>-1\<close> after a cancellation.\<close>

definition select_module :: "int dash" where
  "select_module s =
     (let s1 = on_runtime (trfx_runtime_set_paused 1) s; n = length module_names
      in case open_popup (popup_place s1 (int n + 4) 40) s1 of
           (None, s2) \<Rightarrow> Done (-1) (resume_dashboard_after_popup s2)
         | (Some p, s2) \<Rightarrow>
             dbind (select_loop p (\<lambda>_. put_lines put_at 2 4 module_names (put_at 1 2 ''Select a module:'' (blank p)))
                      (cycle_row n) is_enter (\<lambda>ch. ch = key_esc) 0)
               (\<lambda>c s3. Done (case c of None \<Rightarrow> -1 | Some i \<Rightarrow> int i) (resume_dashboard_after_popup (close_popup s3))) s2)"

definition selector_lines :: "string list" where
  "selector_lines = map (\<lambda>spec. the (trfx_support_view_format_selector_line (Some spec) 0 (Some []) 256)) support_views"

definition support_popup_place :: "dash_state \<Rightarrow> win_geom" where
  "support_popup_place s =
     (let widths = [int (length ''Select the active view:'') + 4, int (length ''Up/Down to move, Enter to apply, Esc to cancel.'') + 4]
                   @ map (\<lambda>l. int (length l) + 6) selector_lines;
          w = fold at_least widths (int (length ''Support Views'') + 8)
      in popup_place s (at_least 10 (at_most (fst (dash_screen s) - 4) (int trfx_support_view_count + 6)))
           (at_least 56 (at_most (snd (dash_screen s) - 4) w)))"

definition support_popup_frame :: "win_geom \<Rightarrow> window" where
  "support_popup_frame g =
     put_lines put_clip 4 2 selector_lines
       (put_clip 3 2 ''Up/Down to move, Enter to apply, Esc to cancel.'' (put_clip 2 2 ''Select the active view:''
         (put_at 1 2 ''Support Views'' (blank g))))"

definition select_support_view :: "int dash" where
  "select_support_view s =
     (let s1 = on_runtime (trfx_runtime_set_paused 1) s
      in case open_popup (support_popup_place s1) s1 of
           (None, s2) \<Rightarrow> Done (-1) (resume_dashboard_after_popup s2)
         | (Some p, s2) \<Rightarrow>
             dbind (select_loop p (\<lambda>_. support_popup_frame p) trfx_support_view_next_index is_enter is_cancel
                      (trfx_support_view_selected_index (th_views (ds_shared s1))))
               (\<lambda>c s3. let i = (case c of Some i \<Rightarrow> i | None \<Rightarrow> trfx_support_view_selected_index (th_views (ds_shared s3)));
                           s4 = resume_dashboard_after_popup (close_popup s3)
                       in Done (int i) (on_views (trfx_support_view_request_refresh \<circ> trfx_support_view_set_selected_index i) s4))
               s2)"

text \<open>Here only \<open>ESC\<close> ends the wait.\<close>

definition pause_screen :: "unit dash" where
  "pause_screen s =
     (let s1 = on_runtime (trfx_runtime_set_paused 1) s; message = ''Paused. Press ESC to continue.''
      in case open_popup (popup_place s1 5 (int (length message) + 4)) s1 of
           (None, s2) \<Rightarrow> Done () (resume_dashboard_after_popup s2)
         | (Some p, s2) \<Rightarrow> close_on {key_esc} (show_frame p None (draw_centered_message message (blank p)) s2))"

end
