(* ===== verification/DashWindows.thy ===== *)
theory DashWindows
  imports DashPopups
begin

text \<open>
  The windows and threads of the dashboard in \<open>src/trfx_dashboard.c\<close>, the keys, and the first steps of the program on
  the screen. Frames around the panels are drawn again where the code does so; the dashboard state keeps the places
  of the windows, and their contents belong to the panel threads. The timing lines on \<open>stderr\<close> are not part of it.
\<close>

section \<open>The slots of the primary pane\<close>

definition dash_slot :: "nat \<Rightarrow> dash_state \<Rightarrow> WindowSlot" where
  "dash_slot i s = the (ds_slots s) ! i"

definition set_slot :: "nat \<Rightarrow> (WindowSlot \<Rightarrow> WindowSlot) \<Rightarrow> dash_state \<Rightarrow> dash_state" where
  "set_slot i f s = s\<lparr>ds_slots := map_option (\<lambda>ss. ss[i := f (ss ! i)]) (ds_slots s)\<rparr>"

text \<open>The position of the slot that shows a module; the modules are looked up with the index of the slot.\<close>

definition find_module_slot_by_name :: "WindowSlot list \<Rightarrow> string option \<Rightarrow> int" where
  "find_module_slot_by_name slots target_name =
     (case target_name of None \<Rightarrow> -1
      | Some name \<Rightarrow>
          (case find_index (\<lambda>w. sl_module_index w \<noteq> -1 \<and> fst (modules ! nat (sl_module_index w)) = name)
                  (take primary_pane_slots slots) of
             Some i \<Rightarrow> int i | None \<Rightarrow> -1))"

text \<open>Starting the thread of a slot: its function and its cleared stop flag.\<close>

definition start_slot_thread :: "nat \<Rightarrow> panel_func \<Rightarrow> dash_state \<Rightarrow> dash_state" where
  "start_slot_thread i f s =
     (case dw_start (ds_world s) (SlotThread i) of NoMemory \<Rightarrow> s
      | ThreadStarts \<Rightarrow> set_slot i (\<lambda>w. w\<lparr>sl_stop := 0, sl_thread := Some f\<rparr>) s
      | ThreadFails \<Rightarrow> set_slot i (\<lambda>w. w\<lparr>sl_stop := 0\<rparr>) s)"

text \<open>\<open>pthread_join\<close> of the thread of a slot, which ends when it sees the stop flag of its slot.\<close>

definition join_slot :: "nat \<Rightarrow> unit dash" where
  "join_slot i s = dash_join (sl_thread (dash_slot i s) \<noteq> None) (sl_stop (dash_slot i s)) s"

definition stop_slot :: "nat \<Rightarrow> unit dash" where
  "stop_slot i s =
     (if sl_module_index (dash_slot i s) = -1 then Done () s
      else dbind (dmod (set_slot i (\<lambda>w. w\<lparr>sl_stop := 1\<rparr>)))
             (\<lambda>_. dbind (join_slot i)
             (\<lambda>_. dmod (set_slot i (\<lambda>w. w\<lparr>sl_thread := None, sl_module_index := -1\<rparr>)))) s)"

definition change_window_module :: "nat \<Rightarrow> unit dash" where
  "change_window_module i =
     dbind (stop_slot i)
       (\<lambda>_. dbind select_module
          (\<lambda>m. if m = -1 then dret ()
               else dmod (start_slot_thread i (snd (modules ! nat m)) \<circ> set_slot i (\<lambda>w. w\<lparr>sl_module_index := m\<rparr>))))"

definition create_row2_windows :: "int \<Rightarrow> int list \<Rightarrow> int \<Rightarrow> dash_state \<Rightarrow> dash_state" where
  "create_row2_windows row2_height row2_widths row2_y s =
     fold (\<lambda>i. set_slot i (\<lambda>_. \<lparr>sl_thread = None, sl_module_index = get_module_index_by_name (fst (modules ! i)),
                 sl_window = dw_newwin (ds_world s) (place row2_height (row2_widths ! i) row2_y (sum_list (take i row2_widths))),
                 sl_stop = 0\<rparr>)) [0..<primary_pane_slots] s"

text \<open>The loop over the slots: each gets its module and its thread.\<close>

primrec start_slots :: "int list option \<Rightarrow> nat list \<Rightarrow> unit dash" where
  "start_slots selected_modules [] s = Done () s"
| "start_slots selected_modules (i # is) s =
     (let module_index = (case selected_modules of Some sel \<Rightarrow> sel ! i
                          | None \<Rightarrow> get_module_index_by_name (fst (modules ! i)));
          f = snd (modules ! get_module_array_index_by_dynamic_index module_index);
          s1 = set_slot i (\<lambda>w. w\<lparr>sl_module_index := module_index\<rparr>) s
      in if dw_start (ds_world s1) (SlotThread i) = NoMemory then Exited s1
         else start_slots selected_modules is (start_slot_thread i f s1))"

definition load_row2_modules_with_selection :: "int \<Rightarrow> int \<Rightarrow> int \<Rightarrow> int list option \<Rightarrow> unit dash" where
  "load_row2_modules_with_selection row2_height screen_width row2_y selected_modules s =
     (if dw_start (ds_world s) WidthArray = NoMemory then Exited s
      else start_slots selected_modules [0..<primary_pane_slots]
             (create_row2_windows row2_height (calculate_row2_widths screen_width) row2_y s))"

definition load_row2_modules :: "int \<Rightarrow> int \<Rightarrow> int \<Rightarrow> unit dash" where
  "load_row2_modules row2_height screen_width row2_y =
     load_row2_modules_with_selection row2_height screen_width row2_y None"

text \<open>Joining the threads of the slots that have one.\<close>

primrec join_slots :: "WindowSlot list \<Rightarrow> unit dash" where
  "join_slots [] = dret ()"
| "join_slots (w # ws) =
     dbind (if sl_thread w = None then dret () else dash_join True (sl_stop w)) (\<lambda>_. join_slots ws)"

definition cleanup_row2_modules :: "unit dash" where
  "cleanup_row2_modules s =
     (case ds_slots s of None \<Rightarrow> Done () s
      | Some ss \<Rightarrow>
          (let asked = map (\<lambda>w. if sl_thread w \<noteq> None then w\<lparr>sl_stop := 1\<rparr> else w) ss
           in dbind (join_slots asked) (\<lambda>_. dmod (\<lambda>t. t\<lparr>ds_slots := None\<rparr>)) (s\<lparr>ds_slots := Some asked\<rparr>)))"

section \<open>The support column\<close>

definition start_support_column_thread :: "dash_state \<Rightarrow> dash_state" where
  "start_support_column_thread s =
     (case dw_start (ds_world s) SupportThread of NoMemory \<Rightarrow> s
      | ThreadStarts \<Rightarrow> s\<lparr>ds_support_stop := 0, ds_support_active := True\<rparr>
      | ThreadFails \<Rightarrow> s\<lparr>ds_support_stop := 0\<rparr>)"

text \<open>Its \<open>pthread_join\<close>: the thread exists and ends when it sees the stop flag of the column.\<close>

definition join_support :: "unit dash" where
  "join_support s = dash_join True (ds_support_stop s) s"

definition destroy_support_column :: "unit dash" where
  "destroy_support_column =
     dbind (\<lambda>s. if ds_support_active s
                then dbind (dmod (\<lambda>t. t\<lparr>ds_support_stop := 1\<rparr>))
                       (\<lambda>_. dbind join_support
                       (\<lambda>_. dmod (\<lambda>t. t\<lparr>ds_support_active := False\<rparr>))) s
                else Done () s)
       (\<lambda>_. dmod (\<lambda>t. t\<lparr>ds_support_window := None\<rparr>))"

definition sync_support_window_geometry :: "DashboardLayoutGeometry option \<Rightarrow> unit dash" where
  "sync_support_window_geometry layout s =
     (case layout of None \<Rightarrow> Done () s
      | Some l \<Rightarrow>
          (let g = dl_row2_geometry l;
               spot = place (dl_row2_height l) (secondary_width g) (dl_row2_y l) (secondary_x g)
           in if geometry_secondary_visible g \<noteq> 0 \<and> 0 < secondary_width g
              then (if ds_support_window s \<noteq> None then Done () (s\<lparr>ds_support_window := Some spot\<rparr>)
                    else (let s1 = s\<lparr>ds_support_window := create_bordered_window spot s\<rparr>
                          in Done () (if ds_support_window s1 \<noteq> None \<and> \<not> ds_support_active s1
                                      then start_support_column_thread s1 else s1)))
              else if ds_support_window s \<noteq> None then destroy_support_column s else Done () s))"

section \<open>A new layout\<close>

definition apply_dashboard_frame_update :: "DashboardLayoutGeometry \<Rightarrow> dash_state \<Rightarrow> dash_state" where
  "apply_dashboard_frame_update l s =
     s\<lparr>ds_tops := apply_top_panel_geometry (dash_cfg s) l (ds_tops s),
       ds_slots := map_option (\<lambda>ss. map2 (\<lambda>w g. w\<lparr>sl_window := g\<rparr>) ss
                                 (apply_primary_panes_geometry l (map sl_window ss))) (ds_slots s)\<rparr>"

text \<open>The common part of the two relayouts; \<open>prepare\<close> is what they do before the windows are moved.\<close>

definition relayout :: "(dash_state \<Rightarrow> dash_state) \<Rightarrow> unit dash" where
  "relayout prepare s =
     (case build_dashboard_frame_update (dash_cfg s) (dash_screen s) (ds_layout s) of
        (ok, l) \<Rightarrow>
          if \<not> ok then Done () (draw_small_terminal_message (dl_screen_height l) (dl_screen_width l) s)
          else dbind (sync_support_window_geometry (Some l)) (\<lambda>_. dmod request_dashboard_data_refresh)
                 (apply_dashboard_frame_update l (prepare s)))"

definition update_toggle_layout :: "unit dash" where
  "update_toggle_layout = relayout (on_runtime (trfx_runtime_set_paused 1))"

text \<open>\<open>endwin\<close>, \<open>refresh\<close>, \<open>clear\<close>: an empty screen.\<close>

definition resize_dashboard_windows :: "unit dash" where
  "resize_dashboard_windows =
     relayout (\<lambda>s. s\<lparr>ds_stdscr := \<lparr>win_h = fst (dash_screen s), win_w = snd (dash_screen s), win_out = []\<rparr>\<rparr>)"

section \<open>Keys\<close>

definition next_sort :: "SortType \<Rightarrow> SortType" where
  "next_sort t = (case t of SORT_BY_MEM \<Rightarrow> SORT_BY_CPU | SORT_BY_CPU \<Rightarrow> SORT_BY_PID | SORT_BY_PID \<Rightarrow> SORT_BY_MEM
                  | SORT_MAX \<Rightarrow> SORT_BY_CPU)"

definition show_view :: "TrfxSupportViewId \<Rightarrow> dash_state \<Rightarrow> dash_state" where
  "show_view v =
     on_views (trfx_support_view_request_refresh \<circ> trfx_support_view_set_selected_index (trfx_support_view_index_for_id v))"

definition toggle_top_panels :: "thread_state \<Rightarrow> thread_state" where
  "toggle_top_panels t =
     t\<lparr>th_cfg := (th_cfg t)\<lparr>SHOW_TOP_PANELS := (if SHOW_TOP_PANELS (th_cfg t) = 0 then 1 else 0)\<rparr>\<rparr>"

definition handle_keypress :: "int \<Rightarrow> unit dash" where
  "handle_keypress ch =
     (if ch = key_resize then resize_dashboard_windows
      else if ch \<in> {key CHR ''s'', key CHR ''S''} then dmod (on_shared (\<lambda>t. t\<lparr>th_sort := next_sort (th_sort t)\<rparr>))
      else if ch \<in> {key CHR ''c'', key CHR ''C''} then change_window_module 0
      else if ch \<in> {key CHR ''r'', key CHR ''R''} then dmod (on_runtime trfx_runtime_request_static_refresh_all)
      else if ch \<in> {key CHR ''j'', key_down}
      then dmod (on_shared (\<lambda>t. t\<lparr>th_bandwidth := trfx_bandwidth_state_move_focus 1 (th_bandwidth t)\<rparr>))
      else if ch \<in> {key CHR ''k'', key_up}
      then dmod (on_shared (\<lambda>t. t\<lparr>th_bandwidth := trfx_bandwidth_state_move_focus (-1) (th_bandwidth t)\<rparr>))
      else if ch = key CHR ''J''
      then dmod (on_shared (\<lambda>t. t\<lparr>th_connections := trfx_connection_state_move_focus 1 (th_connections t)\<rparr>))
      else if ch = key CHR ''K''
      then dmod (on_shared (\<lambda>t. t\<lparr>th_connections := trfx_connection_state_move_focus (-1) (th_connections t)\<rparr>))
      else if ch \<in> {key CHR ''O'', key CHR ''o''} then dmod (show_view VIEW_CONNECTION_DETAIL)
      else if ch \<in> {key CHR ''d'', key CHR ''D'', key_enter, key_newline} then dmod (show_view VIEW_BANDWIDTH)
      else if ch \<in> {key CHR ''x'', key CHR ''X''} then handle_process_kill_action
      else if ch \<in> {key CHR ''z'', key CHR ''Z''} then handle_connection_drop_action
      else if ch \<in> {key CHR ''a'', key CHR ''A''} then dmod (show_view VIEW_ACTION_AUDIT)
      else if ch \<in> {key CHR ''g'', key CHR ''G''} then dmod (show_view VIEW_DIAGNOSTICS)
      else if ch \<in> {key CHR ''n'', key CHR ''N''} then dmod (show_view VIEW_ROUTE_DNS)
      else if ch \<in> {key CHR ''v'', key CHR ''V''} then dmod (show_view VIEW_NETWORK_HEALTH)
      else if ch \<in> {key CHR ''l'', key CHR ''L''}
      then dbind select_support_view (\<lambda>i. if 0 \<le> i then dmod (on_views trfx_support_view_request_refresh) else dret ())
      else if ch \<in> {key CHR ''p'', key CHR ''P''} then pause_screen
      else if ch \<in> {key CHR ''t'', key CHR ''T''} then dbind (dmod (on_shared toggle_top_panels)) (\<lambda>_. update_toggle_layout)
      else if ch \<in> {key_f1, key CHR ''h'', key CHR ''H''} then show_hotkeys_popup
      else dret ())"

section \<open>The start\<close>

definition zero_slot :: WindowSlot where
  "zero_slot = \<lparr>sl_thread = None, sl_module_index = 0, sl_window = None, sl_stop = 0\<rparr>"

definition start_top_windows :: "int list \<Rightarrow> dash_state \<Rightarrow> dash_state" where
  "start_top_windows w s =
     s\<lparr>ds_tops := map (dw_newwin (ds_world s))
         [place fixed_row1_height (w ! 0) 0 0, place fixed_row1_height (w ! 1) 0 (w ! 0),
          place fixed_row1_height (w ! 2) 0 (w ! 0 + w ! 1), place fixed_row1_height (w ! 3) 0 (w ! 0 + w ! 1 + w ! 2)],
       ds_top_threads := map (\<lambda>i. dw_start (ds_world s) (TopThread i) = ThreadStarts) [0..<4]\<rparr>"

text \<open>\<open>start_dashboard\<close> up to its loop: the flags, the layout and the colours; then the windows and threads.\<close>

definition open_screen :: "dash_state \<Rightarrow> dash_state" where
  "open_screen s =
     (let s1 = (on_runtime trfx_runtime_reset s)\<lparr>ds_layout := the (trfx_two_column_layout_init (Some (ds_layout s))),
                   ds_colors := init_dashboard_colors (dw_colors (ds_world s))\<rparr>;
          h = fst (dash_screen s1); w = snd (dash_screen s1)
      in if tui_size_is_too_small (dash_cfg s1) h w then draw_small_terminal_message h w s1 else s1)"

definition first_geometry :: "dash_state \<Rightarrow> TrfxTwoColumnLayoutGeometry" where
  "first_geometry s =
     the (snd (trfx_two_column_layout_compute_geometry (Some (ds_layout s)) (calculate_row2_y (dash_cfg s)) 0
                 (calculate_row2_height (dash_cfg s) (fst (dash_screen s))) (snd (dash_screen s)) (Some zero_row2_geometry)))"

definition open_support_column :: "TrfxTwoColumnLayoutGeometry \<Rightarrow> int \<Rightarrow> int \<Rightarrow> dash_state \<Rightarrow> dash_state" where
  "open_support_column g row2_height row2_y s =
     (if geometry_secondary_visible g \<noteq> 0 \<and> 0 < secondary_width g
      then (let s1 = s\<lparr>ds_support_window := create_bordered_window (place row2_height (secondary_width g) row2_y (secondary_x g)) s\<rparr>
            in if ds_support_window s1 \<noteq> None then start_support_column_thread s1 else s1)
      else s)"

definition open_dashboard :: "unit dash" where
  "open_dashboard s =
     (let s1 = open_screen s; g = first_geometry s1;
          row2_height = calculate_row2_height (dash_cfg s1) (fst (dash_screen s1)); row2_y = calculate_row2_y (dash_cfg s1)
      in if dw_start (ds_world s1) SlotArray = NoMemory then Exited s1
         else dbind (load_row2_modules row2_height (primary_width g) row2_y)
                (\<lambda>_. dmod (on_runtime (trfx_runtime_set_ready 1) \<circ> open_support_column g row2_height row2_y))
                (start_top_windows (calculate_row1_widths (snd (dash_screen s1)))
                   (s1\<lparr>ds_slots := Some (replicate primary_pane_slots zero_slot)\<rparr>)))"

text \<open>\<open>start_dashboard\<close> after its loop: the four threads of the top row are joined, each under its own identifier, which is
  undefined when its \<open>pthread_create\<close> failed; then the other threads are joined and every window deleted.\<close>

primrec join_top_threads :: "nat list \<Rightarrow> unit dash" where
  "join_top_threads [] = dret ()"
| "join_top_threads (i # is) =
     dbind (\<lambda>s. dash_join (ds_top_threads s ! i) 0 s)
       (\<lambda>_. dbind (dmod (\<lambda>t. t\<lparr>ds_top_threads := (ds_top_threads t)[i := False]\<rparr>))
       (\<lambda>_. join_top_threads is))"

definition close_windows :: "unit dash" where
  "close_windows =
     dbind (join_top_threads [0..<4])
       (\<lambda>_. dbind destroy_support_column
       (\<lambda>_. dbind cleanup_row2_modules
       (\<lambda>_. dmod (\<lambda>t. t\<lparr>ds_tops := map (\<lambda>_. None) (ds_tops t)\<rparr>))))"

definition close_dashboard :: "unit dash" where
  "close_dashboard s = close_windows (on_runtime trfx_runtime_request_stop s)"

end
