(* ===== verification/DashRun.thy ===== *)
theory DashRun
  imports DashWindows
begin

text \<open>
  The main loop of \<open>src/trfx_dashboard.c\<close> and what holds of every run of it, for any keys and anything that the other
  threads and the system do. What an operation can do to the state is a relation between the states before and
  after it. Locales carry such a relation through the reading of keys, through the popups and through the handlers of
  the keys: \<open>reading\<close> is the contract of the loops that read keys, \<open>popup_brackets\<close> adds what opening and closing a
  popup does, and \<open>window_relation\<close> what the windows and threads do. A relation that ignores the popups altogether
  satisfies the simpler contract \<open>popup_relation\<close>, and through it the others.
\<close>

section \<open>Relations kept by the operations\<close>

fun result_state :: "'a dash_result \<Rightarrow> dash_state" where
  "result_state (Waiting s) = s"
| "result_state (Exited s) = s"
| "result_state (Undefined s) = s"
| "result_state (Done a s) = s"

text \<open>How an operation ends, without its value.\<close>

fun ending :: "'a dash_result \<Rightarrow> unit dash_result" where
  "ending (Waiting s) = Waiting s"
| "ending (Exited s) = Exited s"
| "ending (Undefined s) = Undefined s"
| "ending (Done a s) = Done () s"

lemma result_state_ending [simp]: "result_state (ending m) = result_state m"
  by (cases m) simp_all

definition keeps :: "(dash_state \<Rightarrow> unit dash_result \<Rightarrow> bool) \<Rightarrow> 'a dash \<Rightarrow> bool" where
  "keeps R m \<longleftrightarrow> (\<forall>s. R s (ending (m s)))"

text \<open>What a popup changes besides reading keys, and what the windows change: a \<open>window_step\<close> leaves the input, the history
  and the popups, a \<open>popup_step\<close> the windows and what they have read, and a \<open>steady_step\<close> the popups as well.\<close>

definition input_step :: "dash_state \<Rightarrow> dash_state \<Rightarrow> bool" where
  "input_step s t \<longleftrightarrow> ds_input t = ds_input s \<and> ds_keys t = ds_keys s \<and> ds_log t = ds_log s \<and> ds_world t = ds_world s"

definition window_step :: "dash_state \<Rightarrow> dash_state \<Rightarrow> bool" where
  "window_step s t \<longleftrightarrow> input_step s t \<and> ds_popups t = ds_popups s"

definition popup_step :: "dash_state \<Rightarrow> dash_state \<Rightarrow> bool" where
  "popup_step s t \<longleftrightarrow> input_step s t \<and> ds_stdscr t = ds_stdscr s \<and> ds_tops t = ds_tops s
     \<and> ds_top_threads t = ds_top_threads s \<and> ds_slots t = ds_slots s \<and> ds_support_window t = ds_support_window s
     \<and> ds_support_active t = ds_support_active s \<and> ds_support_stop t = ds_support_stop s \<and> ds_layout t = ds_layout s
     \<and> ds_colors t = ds_colors s"

definition steady_step :: "dash_state \<Rightarrow> dash_state \<Rightarrow> bool" where
  "steady_step s t \<longleftrightarrow> popup_step s t \<and> ds_popups t = ds_popups s"

lemmas step_defs = steady_step_def popup_step_def window_step_def input_step_def

lemma popup_steps [simp]:
  "popup_step s (on_shared f s)" "popup_step s (on_runtime g s)" "popup_step s (on_views h s)"
  "popup_step s (resume_dashboard_after_popup s)" "popup_step s (close_popup s)" "popup_step s (show_frame g' i w s)"
  "popup_step s (resume_dashboard_after_popup (close_popup s))" "popup_step s s"
  "popup_step s (on_views h (resume_dashboard_after_popup (close_popup s)))"
  by (simp_all add: popup_step_def input_step_def on_shared_def on_runtime_def on_views_def
      resume_dashboard_after_popup_def close_popup_def show_frame_def)

lemma steady_steps [simp]:
  "steady_step s (on_shared f s)" "steady_step s (on_runtime g s)" "steady_step s (on_views h s)"
  "steady_step s (resume_dashboard_after_popup s)" "steady_step s (show_frame g' i w s)" "steady_step s s"
  "steady_step s (on_views h (resume_dashboard_after_popup s))"
  by (simp_all add: step_defs on_shared_def on_runtime_def on_views_def resume_dashboard_after_popup_def show_frame_def)

lemma open_popup_step: "open_popup g s = (p, t) \<Longrightarrow> popup_step s t"
  by (auto simp: open_popup_def popup_step_def input_step_def split: option.splits)

lemma open_popup_None: "open_popup g s = (None, t) \<Longrightarrow> t = s"
  by (auto simp: open_popup_def split: option.splits)

lemma steady_is_popup_step: "steady_step s t \<Longrightarrow> popup_step s t"
  by (simp add: steady_step_def)

lemma steady_is_window_step: "steady_step s t \<Longrightarrow> window_step s t"
  by (simp add: step_defs)

text \<open>The result of an operation on an open popup, once the popup is closed.\<close>

fun closing :: "unit dash_result \<Rightarrow> unit dash_result" where
  "closing (Done a t) = Done a (close_popup t)"
| "closing (Waiting t) = Waiting t"
| "closing (Exited t) = Exited t"
| "closing (Undefined t) = Undefined t"

locale reading =
  fixes R :: "dash_state \<Rightarrow> unit dash_result \<Rightarrow> bool"
  assumes refl: "R s (Done () s)"
    and trans: "R s (Done () t) \<Longrightarrow> R t r \<Longrightarrow> R s r"
    and steady: "steady_step s t \<Longrightarrow> R s (Done () t)"
    and getch: "R s (ending (dash_getch s))"
begin

lemma keeps_dret: "keeps R (dret a)"
  by (simp add: keeps_def dret_def refl)

lemma keeps_dmod: "(\<And>s. R s (Done () (f s))) \<Longrightarrow> keeps R (dmod f)"
  by (simp add: keeps_def dmod_def)

lemma bind_at: "R s (ending (m s)) \<Longrightarrow> (\<And>a t. m s = Done a t \<Longrightarrow> R t (ending (k a t)))
    \<Longrightarrow> R s (ending (dbind m k s))"
  by (cases "m s") (auto simp: dbind_def intro: trans)

lemma keeps_at: "keeps R m \<Longrightarrow> R s (ending (m s))"
  by (simp add: keeps_def)

lemma keeps_dbind: "keeps R m \<Longrightarrow> (\<And>a. keeps R (k a)) \<Longrightarrow> keeps R (dbind m k)"
  unfolding keeps_def by (auto intro: bind_at)

lemma wait_key_at: "R s (ending (wait_key p s))"
proof (induction "length (ds_input s)" arbitrary: s rule: less_induct)
  case less
  show ?case
  proof (cases "ds_input s")
    case Nil
    then show ?thesis using getch [of s] by (simp add: wait_key.simps [of p s] dash_getch_def)
  next
    case (Cons e es)
    then obtain t where t: "dash_getch s = Done (ev_key e) t" "ds_input t = es" by (simp add: dash_getch_def)
    then have "R s (Done () t)" using getch [of s] by simp
    moreover have "R t (ending (wait_key p t))" using less t(2) Cons by simp
    ultimately show ?thesis by (subst wait_key.simps) (auto simp: t intro: trans)
  qed
qed

lemma keeps_wait_key: "keeps R (wait_key p)"
  by (simp add: keeps_def wait_key_at)

lemma select_loop_at: "R s (ending (select_loop g frame move accept cancel i s))"
proof (induction "length (ds_input s)" arbitrary: i s rule: less_induct)
  case less
  let ?s = "show_frame g (Some i) (frame i) s"
  have shown: "R s (Done () ?s)" by (simp add: steady)
  show ?case
  proof (cases "ds_input s")
    case Nil
    then show ?thesis
      using trans [OF shown getch] by (subst select_loop.simps) (simp add: dash_getch_def show_frame_def)
  next
    case (Cons e es)
    then obtain t where t: "dash_getch (show_frame g (Some i) (frame i) s) = Done (ev_key e) t" "ds_input t = es"
      by (simp add: dash_getch_def show_frame_def)
    then have "R s (Done () t)" using trans [OF shown getch] by simp
    moreover have "R t (ending (select_loop g frame move accept cancel j t))" for j
      using less t(2) Cons by simp
    ultimately show ?thesis by (subst select_loop.simps) (auto simp: t intro: trans)
  qed
qed

lemma keeps_select_loop: "keeps R (select_loop g frame move accept cancel i)"
  by (simp add: keeps_def select_loop_at)

end

text \<open>A popup is opened, used and closed; a choice that is cancelled leaves its popup open.\<close>

locale popup_brackets = reading +
  assumes bracket: "open_popup g s = (Some p, t) \<Longrightarrow> R t r \<Longrightarrow> R s (closing r)"
    and abandoned: "open_popup g s = (Some p, t) \<Longrightarrow> select_loop p frame move is_enter is_cancel i t = Done None u
      \<Longrightarrow> R s (Done () u)"
begin

lemma bracket_bind:
  assumes o: "open_popup g s = (Some p, t)" and t: "steady_step t t'" and m: "R t' (ending (m t'))"
    and k: "\<And>a u. m t' = Done a u \<Longrightarrow> R (close_popup u) (ending (k a u))"
  shows "R s (ending (dbind m k t'))"
proof -
  have "R t (ending (m t'))" using trans [OF steady [OF t] m] .
  note b = bracket [OF o this]
  show ?thesis
  proof (cases "m t'")
    case (Done a u)
    then have "R s (Done () (close_popup u))" using b by simp
    then show ?thesis using trans k [OF Done] by (simp add: dbind_def Done)
  qed (use b in \<open>simp_all add: dbind_def\<close>)
qed

lemma close_on_at:
  assumes "open_popup g s = (Some p, t)" and "steady_step t t'"
  shows "R s (ending (close_on keys t'))"
  unfolding close_on_def
  by (rule bracket_bind [OF assms]) (simp_all add: dmod_def steady wait_key_at)

text \<open>A popup that was opened in a state reached from the first one.\<close>

lemma opened_at:
  assumes "steady_step s s1" and "fst (open_popup g s1) = None \<Longrightarrow> R s1 (ending (a s1))"
    and "\<And>p t. open_popup g s1 = (Some p, t) \<Longrightarrow> R s1 (ending (b p t))"
  shows "R s (ending (case open_popup g s1 of (None, t) \<Rightarrow> a t | (Some p, t) \<Rightarrow> b p t))"
proof -
  obtain q t where q: "open_popup g s1 = (q, t)" by (cases "open_popup g s1")
  then have "R s1 (ending (case q of None \<Rightarrow> a t | Some p \<Rightarrow> b p t))"
    using assms(2,3) [unfolded q] open_popup_None [of g s1 t] by (cases q) auto
  then have "R s (ending (case q of None \<Rightarrow> a t | Some p \<Rightarrow> b p t))" by (rule trans [OF steady [OF assms(1)]])
  then show ?thesis by (simp add: q)
qed

lemma keeps_show_hotkeys: "keeps R show_hotkeys_popup"
  unfolding keeps_def show_hotkeys_popup_def Let_def
  by (intro allI opened_at) (auto simp: steady intro: close_on_at)

lemma keeps_feedback: "keeps R (show_action_feedback_popup title message)"
  unfolding keeps_def show_action_feedback_popup_def Let_def
  by (intro allI opened_at) (auto simp: steady intro: close_on_at)

lemma keeps_pause: "keeps R pause_screen"
  unfolding keeps_def pause_screen_def Let_def
  by (intro allI opened_at) (auto simp: steady intro: close_on_at)

lemma keeps_result: "keeps R (show_action_result_popup request result)"
  unfolding keeps_def show_action_result_popup_def Let_def
  by (cases request; cases result) (auto simp: refl steady intro!: opened_at intro: close_on_at)

lemma keeps_review: "keeps R (show_action_review_popup review)"
proof (cases review)
  case None
  then show ?thesis by (simp add: keeps_def show_action_review_popup_def refl)
next
  case (Some v)
  show ?thesis
    unfolding keeps_def show_action_review_popup_def Some option.case Let_def
    by (intro allI opened_at) (auto simp: steady wait_key_at intro!: bracket_bind [OF _ steady_steps(5)])
qed

lemma select_item_at: "R s (ending (select_item g frame items s))"
  unfolding select_item_def
proof (rule opened_at)
  fix p t assume o: "open_popup g s = (Some p, t)"
  let ?l = "select_loop p (\<lambda>_. frame p) (cycle_row (length items)) is_enter is_cancel 0 t"
  note b = bracket [OF o select_loop_at [where g = p and frame = "\<lambda>_. frame p" and move = "cycle_row (length items)"
        and accept = is_enter and cancel = is_cancel and i = 0 and s = t]]
  show "R s (ending (dbind (select_loop p (\<lambda>_. frame p) (cycle_row (length items)) is_enter is_cancel 0)
      (\<lambda>c s3. case c of None \<Rightarrow> Done None s3 | Some i \<Rightarrow> Done (Some (items ! i)) (close_popup s3)) t))"
  proof (cases ?l)
    case (Done c u)
    then show ?thesis using b abandoned [OF o] by (cases c) (auto simp: dbind_def)
  qed (use b in \<open>simp_all add: dbind_def\<close>)
qed (simp_all add: refl)

lemma keeps_select_process: "keeps R select_process_for_kill"
proof -
  have "keeps R (dbind (show_action_feedback_popup a b) (\<lambda>_. dret c))" for a b and c :: "ProcessInfo option"
    by (intro keeps_dbind keeps_feedback keeps_dret)
  then show ?thesis
    by (auto simp: keeps_def select_process_for_kill_def Let_def select_item_at split: prod.splits)
qed

lemma keeps_select_connection: "keeps R select_connection_for_drop"
proof -
  have "keeps R (dbind (show_action_feedback_popup a b) (\<lambda>_. dret c))" for a b and c :: "ConnectionInfo option"
    by (intro keeps_dbind keeps_feedback keeps_dret)
  then show ?thesis
    by (auto simp: keeps_def select_connection_for_drop_def Let_def select_item_at)
qed

lemma keeps_select_module: "keeps R select_module"
  unfolding keeps_def select_module_def Let_def
  by (intro allI opened_at) (auto simp: steady select_loop_at intro!: bracket_bind [OF _ steady_steps(6)])

lemma keeps_select_view: "keeps R select_support_view"
  unfolding keeps_def select_support_view_def Let_def
  by (intro allI opened_at) (auto simp: steady select_loop_at intro!: bracket_bind [OF _ steady_steps(6)])

lemma keeps_review_and_execute:
  assumes "\<And>c. keeps R (dash_execute rq c)"
  shows "keeps R (review_and_execute rq uid)"
proof -
  have "keeps R (dbind (show_action_review_popup v) (\<lambda>ok. dbind (dash_execute rq (if ok = 0 then 0 else 1))
      (\<lambda>result. show_action_result_popup (Some rq) (Some result))))" for v
    using assms by (intro keeps_dbind keeps_review keeps_result)
  then show ?thesis by (auto simp: keeps_def review_and_execute_def)
qed

lemma keeps_drop:
  assumes "\<And>t c. keeps R (dash_execute (trfx_action_request_set_connection_drop (Some t)) c)"
  shows "keeps R handle_connection_drop_action"
  unfolding handle_connection_drop_action_def using assms
  by (intro keeps_dbind keeps_select_connection) (auto split: option.splits intro: keeps_dret keeps_review_and_execute)

lemma keeps_kill:
  assumes "\<And>rq c. keeps R (dash_execute rq c)"
  shows "keeps R handle_process_kill_action"
proof -
  have "keeps R (\<lambda>s. case trfx_lookup_process_uid (dash_os s) p (Some []) 256 of
      (None, e) \<Rightarrow> show_action_feedback_popup a (f e) s | (Some uid, _) \<Rightarrow> review_and_execute rq uid s)" for p a f rq
    using keeps_feedback keeps_review_and_execute [OF assms, of rq]
    by (auto simp: keeps_def split: prod.splits option.splits)
  then show ?thesis
    unfolding handle_process_kill_action_def
    by (intro keeps_dbind keeps_select_process) (auto split: option.splits intro: keeps_dret)
qed

text \<open>Every key, where the handlers that move windows and execute actions are left to the caller.\<close>

lemma keeps_keys:
  assumes "keeps R (change_window_module 0)" and "keeps R resize_dashboard_windows" and "keeps R update_toggle_layout"
    and "ch \<in> {key CHR ''x'', key CHR ''X''} \<Longrightarrow> keeps R handle_process_kill_action"
    and "ch \<in> {key CHR ''z'', key CHR ''Z''} \<Longrightarrow> keeps R handle_connection_drop_action"
  shows "keeps R (handle_keypress ch)"
proof -
  have s: "keeps R (dmod (on_shared f))" "keeps R (dmod (on_runtime g))" "keeps R (dmod (on_views h))" for f g h
    by (simp_all add: keeps_dmod steady)
  have v: "keeps R (dmod (show_view i))" for i unfolding show_view_def by (rule s)
  have t: "keeps R (dbind (dmod (on_shared f)) (\<lambda>_. update_toggle_layout))" for f
    by (intro keeps_dbind assms(3) s)
  have l: "keeps R (dbind select_support_view (\<lambda>i. if 0 \<le> i then dmod (on_views g) else dret ()))" for g
    using s by (intro keeps_dbind keeps_select_view) (auto intro: keeps_dret)
  show ?thesis
    using assms by (simp add: handle_keypress_def s v t l keeps_pause keeps_show_hotkeys keeps_dret)
qed

end

text \<open>A relation that holds of every step of a popup, whatever it does to the popups.\<close>

locale popup_relation =
  fixes R :: "dash_state \<Rightarrow> unit dash_result \<Rightarrow> bool"
  assumes refl_popup: "R s (Done () s)"
    and trans_popup: "R s (Done () t) \<Longrightarrow> R t r \<Longrightarrow> R s r"
    and popup: "popup_step s t \<Longrightarrow> R s (Done () t)"
    and getch_popup: "R s (ending (dash_getch s))"

sublocale popup_relation \<subseteq> reading
  by unfold_locales (auto intro: refl_popup trans_popup getch_popup popup simp: steady_step_def)

sublocale popup_relation \<subseteq> popup_brackets
proof unfold_locales
  fix g s p t and r :: "unit dash_result" and u frame move i
  assume o: "open_popup g s = (Some p, t)"
  then have s: "R s (Done () t)" using open_popup_step popup by blast
  show "R s (closing r)" if "R t r"
    using trans [OF s that] trans [of s] popup [OF popup_steps(5)] by (cases r) auto
  show "R s (Done () u)" if "select_loop p frame move is_enter is_cancel i t = Done None u"
    using trans [OF s select_loop_at] that by (metis ending.simps(4))
qed

text \<open>The windows may change as well; only executions are left to the caller.\<close>

locale window_laws =
  fixes R :: "dash_state \<Rightarrow> unit dash_result \<Rightarrow> bool"
  assumes windows: "window_step s t \<Longrightarrow> R s (Done () t)"
    and exited: "R s (Exited s)"
    and keeps_join: "keeps R (dash_join e i)"

locale window_relation = popup_brackets + window_laws
begin

lemma keeps_window: "(\<And>s. window_step s (f s)) \<Longrightarrow> keeps R (dmod f)"
  by (simp add: keeps_dmod windows)

lemma window_bind: "window_step s t \<Longrightarrow> keeps R m \<Longrightarrow> keeps R (\<lambda>s. dmod f s) \<Longrightarrow> R s (ending (dbind m (\<lambda>_. dmod f) t))"
  by (rule trans [OF windows bind_at]) (simp_all add: keeps_def)

lemma keeps_join_by: "keeps R (\<lambda>s. dash_join (e s) (i s) s)"
  using keeps_join by (simp add: keeps_def)

lemma keeps_stop_slot: "keeps R (stop_slot i)"
proof -
  have "keeps R (dbind (dmod (set_slot i f)) (\<lambda>_. dbind (join_slot i) (\<lambda>_. dmod (set_slot i g))))" for f g
    unfolding join_slot_def
    by (intro keeps_dbind keeps_window keeps_join_by) (simp_all add: set_slot_def step_defs)
  then show ?thesis by (auto simp: keeps_def stop_slot_def refl)
qed

lemma keeps_change_module: "keeps R (change_window_module i)"
proof -
  have "window_step s (start_slot_thread i f (set_slot i g s))" for f g s
    by (simp add: start_slot_thread_def set_slot_def window_step_def input_step_def split: thread_start.splits)
  then show ?thesis
    unfolding change_window_module_def
    by (intro keeps_dbind keeps_stop_slot keeps_select_module) (auto intro: keeps_dret keeps_window)
qed

lemma keeps_destroy_support: "keeps R destroy_support_column"
proof -
  have "keeps R (dbind (dmod f) (\<lambda>_. dbind join_support (\<lambda>_. dmod g)))"
    if "\<And>s. window_step s (f s)" and "\<And>s. window_step s (g s)" for f g
    unfolding join_support_def by (intro keeps_dbind keeps_window keeps_join_by that)
  then have "keeps R (\<lambda>s. if b s then dbind (dmod f) (\<lambda>_. dbind join_support (\<lambda>_. dmod g)) s else Done () s)"
    if "\<And>s. window_step s (f s)" and "\<And>s. window_step s (g s)" for b f g
    using that by (simp add: keeps_def refl)
  then show ?thesis
    unfolding destroy_support_column_def by (intro keeps_dbind) (simp_all add: keeps_window step_defs)
qed

lemma keeps_sync: "keeps R (sync_support_window_geometry layout)"
proof -
  have "window_step s (s\<lparr>ds_support_window := w\<rparr>)" "window_step s (start_support_column_thread (s\<lparr>ds_support_window := w\<rparr>))"
    for s w by (simp_all add: window_step_def input_step_def start_support_column_thread_def split: thread_start.splits)
  then show ?thesis
    using keeps_destroy_support
    by (auto simp: keeps_def sync_support_window_geometry_def Let_def refl windows split: option.splits)
qed

lemma keeps_relayout:
  assumes p: "\<And>s. window_step s (prepare s)"
  shows "keeps R (relayout prepare)"
proof -
  have a: "window_step s (apply_dashboard_frame_update l (prepare s))" for l s
    using p [of s] by (simp add: window_step_def input_step_def apply_dashboard_frame_update_def)
  have d: "window_step s (draw_small_terminal_message h w s)" for h w s
    by (simp add: draw_small_terminal_message_def Let_def window_step_def input_step_def)
  have r: "keeps R (dmod request_dashboard_data_refresh)"
    by (rule keeps_window) (simp add: request_dashboard_data_refresh_def on_runtime_def on_shared_def window_step_def input_step_def)
  show ?thesis
    unfolding keeps_def relayout_def using window_bind [OF a keeps_sync r]
    by (auto simp: d windows split: prod.splits)
qed

lemma keeps_toggle: "keeps R update_toggle_layout"
  unfolding update_toggle_layout_def by (intro keeps_relayout) (simp add: steady_is_window_step)

lemma keeps_resize: "keeps R resize_dashboard_windows"
  unfolding resize_dashboard_windows_def by (intro keeps_relayout) (simp add: window_step_def input_step_def)

lemmas keeps_keypress = keeps_keys [OF keeps_change_module keeps_resize keeps_toggle]

end

text \<open>The same for a relation that ignores the popups.\<close>

locale kept_relation = popup_relation + window_laws

sublocale kept_relation \<subseteq> window_relation
  by unfold_locales

section \<open>Keys are only consumed\<close>

definition consumed :: "dash_state \<Rightarrow> 'a dash_result \<Rightarrow> bool" where
  "consumed s r \<longleftrightarrow> length (ds_input (result_state r)) \<le> length (ds_input s)"

interpretation consumes: kept_relation consumed
  by unfold_locales
    (auto simp: keeps_def consumed_def step_defs dash_getch_def dash_join_def on_shared_def split: list.splits)

lemma execute_consumed: "keeps consumed (dash_execute rq c)"
  by (auto simp: keeps_def dash_execute_def consumed_def on_shared_def split: prod.splits)

lemma keypress_consumed: "handle_keypress ch s = Done u t \<Longrightarrow> length (ds_input t) \<le> length (ds_input s)"
proof -
  have "keeps consumed (handle_keypress ch)"
    by (intro consumes.keeps_keypress consumes.keeps_kill consumes.keeps_drop execute_consumed)
  then have "consumed s (ending (handle_keypress ch s))" by (rule consumes.keeps_at)
  then show "handle_keypress ch s = Done u t \<Longrightarrow> length (ds_input t) \<le> length (ds_input s)"
    by (simp add: consumed_def)
qed

section \<open>The main loop\<close>

function dash_loop :: "unit dash" where
  "dash_loop s =
     (case dash_getch s of
        Done ch s1 \<Rightarrow>
          if ch = key CHR ''q'' \<or> ch = key CHR ''Q'' then Done () s1
          else (case handle_keypress ch s1 of Done _ s2 \<Rightarrow> dash_loop s2
                | Waiting s2 \<Rightarrow> Waiting s2 | Exited s2 \<Rightarrow> Exited s2 | Undefined s2 \<Rightarrow> Undefined s2)
      | Waiting s1 \<Rightarrow> Waiting s1 | Exited s1 \<Rightarrow> Exited s1 | Undefined s1 \<Rightarrow> Undefined s1)"
  by pat_completeness auto
termination
proof (relation "measure (\<lambda>s. length (ds_input s))")
  fix s ch s1 u s2
  assume "dash_getch s = Done ch s1" and "handle_keypress ch s1 = Done u s2"
  then have "length (ds_input s1) < length (ds_input s)" "length (ds_input s2) \<le> length (ds_input s1)"
    by (auto simp: dash_getch_def keypress_consumed split: list.splits)
  then show "(s2, s) \<in> measure (\<lambda>s. length (ds_input s))" by simp
qed simp

declare dash_loop.simps [simp del]

definition start_dashboard :: "unit dash" where
  "start_dashboard = dbind open_dashboard (\<lambda>_. dbind dash_loop (\<lambda>_. close_dashboard))"

section \<open>Opening and closing\<close>

lemma window_steps [simp]:
  "window_step s (set_slot i f t) \<longleftrightarrow> window_step s t"
  "window_step s (start_slot_thread i g t) \<longleftrightarrow> window_step s t"
  "window_step s (start_support_column_thread t) \<longleftrightarrow> window_step s t"
  "window_step s (draw_small_terminal_message h w t) \<longleftrightarrow> window_step s t"
  "window_step s (start_top_windows ws t) \<longleftrightarrow> window_step s t"
  "window_step s (on_runtime rf t) \<longleftrightarrow> window_step s t"
  "window_step s (t\<lparr>ds_slots := ss\<rparr>) \<longleftrightarrow> window_step s t"
  "window_step s (t\<lparr>ds_support_window := sw\<rparr>) \<longleftrightarrow> window_step s t"
  "window_step s (t\<lparr>ds_layout := l, ds_colors := c\<rparr>) \<longleftrightarrow> window_step s t"
  "window_step s s"
  by (simp_all add: window_step_def input_step_def set_slot_def start_slot_thread_def start_support_column_thread_def on_runtime_def
      on_shared_def draw_small_terminal_message_def start_top_windows_def Let_def split: thread_start.splits)

lemma create_row2_step [simp]: "window_step s (create_row2_windows h w y s)"
  unfolding create_row2_windows_def by (rule fold_invariant_weak [where P = "window_step s"]) simp_all

lemma start_slots_step:
  "window_step s u \<Longrightarrow> (\<exists>t. start_slots sel is u = Exited t \<and> window_step s t)
     \<or> (\<exists>t. start_slots sel is u = Done () t \<and> window_step s t)"
  by (induction "is" arbitrary: u) (auto simp: Let_def)

lemma load_step:
  "(\<exists>t. load_row2_modules_with_selection h w y sel s = Exited t \<and> window_step s t)
   \<or> (\<exists>t. load_row2_modules_with_selection h w y sel s = Done () t \<and> window_step s t)"
  using start_slots_step [OF create_row2_step]
  by (auto simp: load_row2_modules_with_selection_def)

lemma open_screen_step: "window_step s (open_screen s)"
  by (simp add: open_screen_def Let_def)

lemma open_support_step: "window_step s (open_support_column g h y s)"
  by (simp add: open_support_column_def Let_def)

context window_relation
begin

lemma open_dashboard_at: "R s (ending (open_dashboard s))"
proof -
  have load: "keeps R (load_row2_modules h w y)" for h w y
    unfolding keeps_def load_row2_modules_def
  proof
    show "R s (ending (load_row2_modules_with_selection h w y None s))" for s
      using load_step [of h w y None s] windows [of s] trans [OF windows exited] by auto
  qed
  have ready: "keeps R (dmod (on_runtime f \<circ> open_support_column g h y))" for f g h y
    by (rule keeps_window) (simp add: open_support_step)
  have "window_step s (start_top_windows ws (open_screen s\<lparr>ds_slots := ss\<rparr>))" for ws ss
    by (simp add: open_screen_step)
  then show ?thesis
    using window_bind [OF _ load ready] trans [OF windows [OF open_screen_step] exited] by (simp add: open_dashboard_def Let_def)
qed

lemma keeps_join_slots: "keeps R (join_slots ws)"
  by (induction ws) (auto intro!: keeps_dret keeps_dbind keeps_join)

lemma keeps_cleanup: "keeps R cleanup_row2_modules"
  unfolding keeps_def cleanup_row2_modules_def
  by (auto simp: refl Let_def window_step_def input_step_def split: option.splits intro!: window_bind keeps_join_slots keeps_window)

lemma keeps_join_tops: "keeps R (join_top_threads is)"
  by (induction "is") (auto intro!: keeps_dret keeps_dbind keeps_join_by keeps_window simp: step_defs)

lemma keeps_close_windows: "keeps R close_windows"
  unfolding close_windows_def
  by (intro keeps_dbind keeps_join_tops keeps_destroy_support keeps_cleanup keeps_window) (simp_all add: step_defs)

lemma close_dashboard_at: "R s (ending (close_dashboard s))"
  unfolding close_dashboard_def by (rule trans [OF steady [OF steady_steps(2)] keeps_at [OF keeps_close_windows]])

end

end
