(* ===== verification/DashKeys.thy ===== *)
theory DashKeys
  imports DashRun
begin

text \<open>
  Which keys a popup of the dashboard in \<open>src/trfx_dashboard.c\<close> reads: what has been read when it is done, and
  conversely what it does with given keys.
\<close>

section \<open>What was pressed\<close>

lemma wait_key_done:
  "wait_key p s = Done ch t \<Longrightarrow> p ch \<and> popup_step (s\<lparr>ds_input := ds_input t, ds_world := ds_world t, ds_keys := ds_keys t\<rparr>) t
     \<and> (\<exists>ks. ds_keys t = ds_keys s @ ks @ [ch] \<and> (\<forall>k\<in>set ks. \<not> p k))"
proof (induction "length (ds_input s)" arbitrary: s rule: less_induct)
  case less
  show ?case
  proof (cases "ds_input s")
    case Nil
    then show ?thesis using less.prems by (simp add: wait_key.simps [of p s] dash_getch_def)
  next
    case (Cons e es)
    let ?s = "s\<lparr>ds_input := es, ds_world := ev_world e, ds_shared := ev_others e (ds_shared s),
                ds_keys := ds_keys s @ [ev_key e]\<rparr>"
    have g: "dash_getch s = Done (ev_key e) ?s" by (simp add: dash_getch_def Cons)
    show ?thesis
    proof (cases "p (ev_key e)")
      case True
      then have "ch = ev_key e" "t = ?s" using less.prems by (auto simp: wait_key.simps [of p s] g)
      then show ?thesis using True by (simp add: step_defs)
    next
      case False
      then have "wait_key p ?s = Done ch t" using less.prems by (simp add: wait_key.simps [of p s] g)
      from less.hyps [OF _ this] obtain ks where "p ch" "ds_keys t = ds_keys s @ [ev_key e] @ ks @ [ch]" "\<forall>k\<in>set ks. \<not> p k"
        "popup_step (?s\<lparr>ds_input := ds_input t, ds_world := ds_world t, ds_keys := ds_keys t\<rparr>) t"
        by (auto simp: Cons)
      then show ?thesis using False by (auto simp: step_defs intro!: exI [of _ "ev_key e # ks"])
    qed
  qed
qed

lemma select_loop_done:
  assumes "P i" and "\<And>j d. P j \<Longrightarrow> P (move j d)" and "\<And>k. accept k \<or> cancel k \<Longrightarrow> k \<noteq> key_up \<and> k \<noteq> key_down"
  shows "select_loop g frame move accept cancel i s = Done c t \<Longrightarrow>
    popup_step (s\<lparr>ds_input := ds_input t, ds_world := ds_world t, ds_keys := ds_keys t\<rparr>) t \<and> ds_popups t = ds_popups s
     \<and> (\<exists>ks ch. ds_keys t = ds_keys s @ ks @ [ch] \<and> (\<forall>k\<in>set ks. \<not> accept k \<and> \<not> cancel k)
          \<and> (case c of Some j \<Rightarrow> accept ch \<and> P j | None \<Rightarrow> cancel ch))"
  using assms(1)
proof (induction "length (ds_input s)" arbitrary: s i rule: less_induct)
  case less
  show ?case
  proof (cases "ds_input s")
    case Nil
    then show ?thesis
      using less.prems by (simp add: select_loop.simps [of g frame move accept cancel i s] dash_getch_def show_frame_def)
  next
    case (Cons e es)
    let ?s = "s\<lparr>ds_frames := ds_frames s @ [(g, Some i, frame i)], ds_input := es, ds_world := ev_world e,
                ds_shared := ev_others e (ds_shared s), ds_keys := ds_keys s @ [ev_key e]\<rparr>"
    have g: "dash_getch (show_frame g (Some i) (frame i) s) = Done (ev_key e) ?s"
      by (simp add: dash_getch_def show_frame_def Cons)
    have go_on: ?thesis if l: "select_loop g frame move accept cancel j ?s = Done c t" and "P j"
      and k: "\<not> accept (ev_key e) \<and> \<not> cancel (ev_key e)" for j
    proof -
      from less.hyps [OF _ l \<open>P j\<close>] obtain ks ch where
        "popup_step (?s\<lparr>ds_input := ds_input t, ds_world := ds_world t, ds_keys := ds_keys t\<rparr>) t"
        "ds_popups t = ds_popups s" "ds_keys t = ds_keys s @ [ev_key e] @ ks @ [ch]"
        "\<forall>k\<in>set ks. \<not> accept k \<and> \<not> cancel k" "case c of Some j \<Rightarrow> accept ch \<and> P j | None \<Rightarrow> cancel ch"
        by (auto simp: Cons)
      then show ?thesis
        using k by (auto simp: step_defs intro!: exI [of _ "ev_key e # ks"] exI [of _ ch])
    qed
    have unf: "select_loop g frame move accept cancel i s =
      (if ev_key e = key_up then select_loop g frame move accept cancel (move i (-1)) ?s
       else if ev_key e = key_down then select_loop g frame move accept cancel (move i 1) ?s
       else if accept (ev_key e) then Done (Some i) ?s else if cancel (ev_key e) then Done None ?s
       else select_loop g frame move accept cancel i ?s)"
      by (subst select_loop.simps) (simp add: g)
    show ?thesis
    proof (cases "accept (ev_key e) \<or> cancel (ev_key e)")
      case True
      then have "c = (if accept (ev_key e) then Some i else None)" "t = ?s"
        using less.prems assms(3) [OF True] unfolding unf by (auto split: if_splits)
      then show ?thesis using True less.prems by (auto simp: step_defs)
    next
      case False
      then obtain j where "select_loop g frame move accept cancel j ?s = Done c t" "P j"
        using less.prems assms(2) unfolding unf by (auto split: if_splits)
      then show ?thesis using go_on False by blast
    qed
  qed
qed

lemma enter_cancel_keys: "is_enter k \<or> is_cancel k \<Longrightarrow> k \<noteq> key_up \<and> k \<noteq> key_down"
  by (auto simp: is_enter_def is_cancel_def key_def)

lemma cycle_row_less: "i < n \<Longrightarrow> cycle_row n i d < n"
  by (auto simp: cycle_row_def)

text \<open>The keys of a choice: none of them accepts or cancels but the last.\<close>

definition only_last :: "int list \<Rightarrow> int \<Rightarrow> bool" where
  "only_last ks ch \<longleftrightarrow> (is_enter ch \<or> is_cancel ch) \<and> (\<forall>k\<in>set ks. \<not> is_enter k \<and> \<not> is_cancel k)"

lemma select_item_done:
  assumes "select_item g frame items s = Done (Some x) t" and "items \<noteq> []"
  shows "x \<in> set items \<and> ds_log t = ds_log s \<and> ds_popups t = ds_popups s
    \<and> (\<exists>ks ch. ds_keys t = ds_keys s @ ks @ [ch] \<and> only_last ks ch \<and> is_enter ch)"
proof -
  obtain p s2 where o: "open_popup g s = (Some p, s2)"
    using assms(1) by (cases "open_popup g s") (auto simp: select_item_def split: option.splits)
  then have s2: "popup_step s s2" "ds_popups s2 = ds_popups s @ [p]"
    by (auto simp: open_popup_def step_defs split: option.splits)
  obtain i s3 where l: "select_loop p (\<lambda>_. frame p) (cycle_row (length items)) is_enter is_cancel 0 s2 = Done (Some i) s3"
    and t: "x = items ! i" "t = close_popup s3"
    using assms(1)
    by (auto simp: select_item_def o dbind_def split: option.splits dash_result.splits)
  have "popup_step (s2\<lparr>ds_input := ds_input s3, ds_world := ds_world s3, ds_keys := ds_keys s3\<rparr>) s3 \<and> ds_popups s3 = ds_popups s2
     \<and> (\<exists>ks ch. ds_keys s3 = ds_keys s2 @ ks @ [ch] \<and> (\<forall>k\<in>set ks. \<not> is_enter k \<and> \<not> is_cancel k)
          \<and> (case Some i of Some j \<Rightarrow> is_enter ch \<and> j < length items | None \<Rightarrow> is_cancel ch))"
    using assms(2) by (intro select_loop_done [OF _ _ _ l]) (auto simp: cycle_row_less enter_cancel_keys)
  then show ?thesis
    using s2 t by (auto simp: step_defs close_popup_def only_last_def)
qed

section \<open>A concrete run\<close>

text \<open>User 1000 with one process, of which only the process id is listed, on a screen of 100 columns and 30 rows.\<close>

definition demo_ps :: string where
  "demo_ps = ''PID'' @ [nl] @ ''42'' @ [nl]"

definition demo_world :: dash_world where
  "demo_world = \<lparr>dw_app = demo_app\<lparr>ap_act := demo_env\<lparr>ae_os := (ae_os demo_env)\<lparr>os_cmd := (\<lambda>_. Some demo_ps)\<rparr>\<rparr>\<rparr>,
     dw_screen = (30, 100), dw_newwin = (\<lambda>g. Some g), dw_start = (\<lambda>_. ThreadStarts),
     dw_colors = \<lparr>ct_has_colors = True, ct_start_color = True, ct_default_colors = True, ct_init_pair = (\<lambda>_ _ _. True)\<rparr>,
     dw_clock = (\<lambda>_. None), dw_join = (\<lambda>t. t)\<rparr>"

definition demo_input :: "int list \<Rightarrow> dash_event list" where
  "demo_input ks = map (\<lambda>k. \<lparr>ev_key = k, ev_world = demo_world, ev_others = (\<lambda>t. t)\<rparr>) ks"

definition demo_dash :: "int list \<Rightarrow> dash_state" where
  "demo_dash ks = \<lparr>ds_shared = demo_thread, ds_world = demo_world, ds_input = demo_input ks, ds_keys = [], ds_log = [],
     ds_frames = [], ds_popups = [], ds_stdscr = \<lparr>win_h = 30, win_w = 100, win_out = []\<rparr>, ds_tops = [],
     ds_top_threads = [], ds_slots = None, ds_support_window = None, ds_support_active = False, ds_support_stop = 0,
     ds_layout = \<lparr>secondary_visible = 0, primary_width_percent = 0, secondary_width_percent = 0, secondary_state_index = 0\<rparr>,
     ds_colors = 0\<rparr>"

section \<open>Choosing a row\<close>

definition arrow :: "int \<Rightarrow> int" where
  "arrow k = (if k = key_up then -1 else if k = key_down then 1 else 0)"

lemma cycle_row_int: "i < n \<Longrightarrow> int (cycle_row n i d) = (int i + (if d < 0 then -1 else 1)) mod int n"
proof -
  assume "i < n"
  then have "int (i + n - 1) = (int i - 1) + int n" by simp
  then have "int ((i + n - 1) mod n) = (int i - 1) mod int n" by (simp add: zmod_int)
  then show ?thesis by (simp add: cycle_row_def zmod_int add.commute)
qed

text \<open>The row on which the arrow keys end.\<close>

definition row_after :: "nat \<Rightarrow> nat \<Rightarrow> int list \<Rightarrow> nat" where
  "row_after n i ks = nat ((int i + sum_list (map arrow ks)) mod int n)"

lemma sum_arrows:
  "sum_list (map arrow ks) = int (length (filter (\<lambda>k. k = key_down) ks)) - int (length (filter (\<lambda>k. k = key_up) ks))"
  by (induction ks) (auto simp: arrow_def)

lemma row_after_less: "0 < n \<Longrightarrow> row_after n i ks < n"
  by (simp add: row_after_def nat_less_iff)

lemma row_after_Nil: "i < n \<Longrightarrow> row_after n i [] = i"
  by (simp add: row_after_def)

lemma row_after_Cons:
  assumes "i < n"
  shows "row_after n i (k # ks) =
    row_after n (if k = key_up then cycle_row n i (-1) else if k = key_down then cycle_row n i 1 else i) ks"
proof -
  have "int (if k = key_up then cycle_row n i (-1) else if k = key_down then cycle_row n i 1 else i) = (int i + arrow k) mod int n"
    using assms by (simp add: arrow_def cycle_row_int)
  then show ?thesis by (simp only: row_after_def mod_add_left_eq) (simp add: add.assoc)
qed

text \<open>A popup has read the events \<open>es\<close>: besides the keys, the system and the other threads, it may have changed
  what is drawn and which popups are open.\<close>

definition has_read :: "dash_event list \<Rightarrow> dash_state \<Rightarrow> dash_state \<Rightarrow> bool" where
  "has_read es s t \<longleftrightarrow> popup_step (s\<lparr>ds_input := drop (length es) (ds_input s),
     ds_world := (if es = [] then ds_world s else ev_world (last es)), ds_keys := ds_keys s @ map ev_key es\<rparr>) t"

lemma has_read_popup: "popup_step s s' \<Longrightarrow> has_read es s' t \<Longrightarrow> has_read es s t"
  by (auto simp: has_read_def step_defs)

lemma popup_has_read: "has_read es s t \<Longrightarrow> popup_step t t' \<Longrightarrow> has_read es s t'"
  by (auto simp: has_read_def step_defs)

lemma has_readD:
  "has_read es s t \<Longrightarrow> ds_input s = es @ rest \<Longrightarrow> ds_input t = rest \<and> ds_log t = ds_log s
     \<and> ds_keys t = ds_keys s @ map ev_key es \<and> (es \<noteq> [] \<longrightarrow> ds_world t = ev_world (last es))"
  by (auto simp: has_read_def step_defs)

lemma has_read_Nil: "has_read [] s t \<longleftrightarrow> popup_step s t"
  by (auto simp: has_read_def step_defs)

lemma has_read_getch:
  "ds_input s = e # es \<Longrightarrow> dash_getch s = Done (ev_key e) t \<Longrightarrow> has_read [e] s t"
  by (auto simp: dash_getch_def has_read_def step_defs)

lemma has_read_append: "has_read es s t \<Longrightarrow> has_read fs t u \<Longrightarrow> has_read (es @ fs) s u"
  by (auto simp: has_read_def step_defs add.commute)

lemma has_read_Cons: "has_read [e] s t \<Longrightarrow> has_read es t u \<Longrightarrow> has_read (e # es) s u"
  using has_read_append [of "[e]" s t es u] by simp

lemma wait_key_run:
  assumes "p ch" and "\<forall>k\<in>set ks. \<not> p k"
  shows "map ev_key es = ks @ [ch] \<Longrightarrow> ds_input s = es @ rest \<Longrightarrow>
    \<exists>t. wait_key p s = Done ch t \<and> has_read es s t \<and> ds_popups t = ds_popups s"
  using assms(2)
proof (induction ks arbitrary: es s)
  case Nil
  then obtain e where "es = [e]" "ev_key e = ch" by auto
  then show ?case
    using Nil assms(1)
    by (subst wait_key.simps) (auto simp: dash_getch_def has_read_def step_defs)
next
  case (Cons k ks)
  then obtain e es' where e: "es = e # es'" "ev_key e = k" "map ev_key es' = ks @ [ch]" by (cases es) auto
  obtain s' where g: "dash_getch s = Done k s'" "ds_input s' = es' @ rest" "ds_popups s' = ds_popups s"
    using Cons.prems e by (simp add: dash_getch_def)
  have "wait_key p s = wait_key p s'" using Cons.prems g by (subst wait_key.simps) simp
  moreover have "has_read [e] s s'" using has_read_getch [of s e "es' @ rest" s'] Cons.prems e g by simp
  ultimately show ?case
    using Cons.IH [OF e(3) g(2)] Cons.prems e(1) g(3) has_read_Cons by fastforce
qed

lemma select_loop_run:
  assumes "\<And>k. accept k \<or> cancel k \<Longrightarrow> k \<noteq> key_up \<and> k \<noteq> key_down" and "accept ch \<or> cancel ch"
    and "\<forall>k\<in>set ks. \<not> accept k \<and> \<not> cancel k"
  shows "i < n \<Longrightarrow> map ev_key es = ks @ [ch] \<Longrightarrow> ds_input s = es @ rest \<Longrightarrow>
    \<exists>t. select_loop p frame (cycle_row n) accept cancel i s = Done (if accept ch then Some (row_after n i ks) else None) t
      \<and> has_read es s t \<and> ds_popups t = ds_popups s
      \<and> last (ds_frames t) = (p, Some (row_after n i ks), frame (row_after n i ks))"
  using assms(3)
proof (induction ks arbitrary: i es s)
  case Nil
  then obtain e where e: "es = [e]" "ev_key e = ch" by auto
  then show ?case
    using Nil assms(1) [of ch] assms(2)
    by (subst select_loop.simps)
      (auto simp: dash_getch_def show_frame_def row_after_Nil has_read_def step_defs)
next
  case (Cons k ks)
  then obtain e es' where e: "es = e # es'" "ev_key e = k" "map ev_key es' = ks @ [ch]" by (cases es) auto
  let ?i = "if k = key_up then cycle_row n i (-1) else if k = key_down then cycle_row n i 1 else i"
  obtain s' where g: "dash_getch (show_frame p (Some i) (frame i) s) = Done k s'" "ds_input s' = es' @ rest"
    "ds_popups s' = ds_popups s"
    using Cons.prems e by (simp add: dash_getch_def show_frame_def)
  then have l: "select_loop p frame (cycle_row n) accept cancel i s = select_loop p frame (cycle_row n) accept cancel ?i s'"
    using Cons.prems by (subst select_loop.simps) simp
  have i: "?i < n" using Cons.prems by (auto simp: cycle_row_less)
  have "has_read [e] s s'"
    using g Cons.prems e by (auto simp: dash_getch_def show_frame_def has_read_def step_defs)
  then show ?case
    using Cons.IH [OF i e(3) g(2)] Cons.prems g(3) has_read_Cons [of e s s' es']
    unfolding l row_after_Cons [OF Cons.prems(1)] e(1) by fastforce
qed

lemma select_item_run:
  assumes "items \<noteq> []" and "dw_newwin (ds_world s) g = Some p" and "ds_input s = es @ rest"
    and "map ev_key es = ks @ [ch]" and "is_enter ch \<or> is_cancel ch" and "\<forall>k\<in>set ks. \<not> is_enter k \<and> \<not> is_cancel k"
  shows "\<exists>t. select_item g frame items s = Done (if is_enter ch then Some (items ! row_after (length items) 0 ks) else None) t
    \<and> has_read es s t \<and> ds_popups t = (if is_enter ch then ds_popups s else ds_popups s @ [p])
    \<and> last (ds_frames t) = (p, Some (row_after (length items) 0 ks), frame p)"
proof -
  let ?s = "s\<lparr>ds_popups := ds_popups s @ [p]\<rparr>"
  have "ds_input ?s = es @ rest" using assms(3) by simp
  from select_loop_run [OF enter_cancel_keys assms(5,6) _ assms(4) this, of 0 "length items" p "\<lambda>_. frame p"]
  obtain t where t: "select_loop p (\<lambda>_. frame p) (cycle_row (length items)) is_enter is_cancel 0 ?s
      = Done (if is_enter ch then Some (row_after (length items) 0 ks) else None) t"
    "has_read es ?s t"
    "ds_popups t = ds_popups s @ [p]" "last (ds_frames t) = (p, Some (row_after (length items) 0 ks), frame p)"
    using assms(1) by auto
  have o: "open_popup g s = (Some p, ?s)" using assms(2) by (simp add: open_popup_def create_bordered_window_def)
  have "has_read es s t" using has_read_popup [OF open_popup_step [OF o] t(2)] .
  moreover have "popup_step t (close_popup t)" by (simp add: close_popup_def step_defs)
  ultimately show ?thesis
    using t popup_has_read by (auto simp: select_item_def dbind_def o close_popup_def)
qed

text \<open>C39. The selection popups choose the row the user sees: after any number of arrow and other keys, Enter yields the
  row that lies as many rows down as the down key was pressed more often than the up key, going around at the ends;
  this is the row that the last drawing showed in reverse. The popup is deleted, and the other keys stay unread.\<close>

theorem selection_follows_arrows:
  assumes "items \<noteq> []" and "dw_newwin (ds_world s) g = Some p" and "ds_input s = es @ rest"
    and "map ev_key es = ks @ [ch]" and "is_enter ch" and "\<forall>k\<in>set ks. \<not> is_enter k \<and> \<not> is_cancel k"
  shows "\<exists>t. let row = nat ((int (length (filter (\<lambda>k. k = key_down) ks)) - int (length (filter (\<lambda>k. k = key_up) ks)))
                           mod int (length items))
             in select_item g frame items s = Done (Some (items ! row)) t
              \<and> last (ds_frames t) = (p, Some row, frame p) \<and> ds_popups t = ds_popups s \<and> ds_input t = rest"
proof -
  show ?thesis
    using select_item_run [OF assms(1-4) disjI1 [OF assms(5)] assms(6), of frame] assms(3,5)
    by (auto simp: row_after_def sum_arrows has_read_def step_defs Let_def)
qed

lemma selection_follows_arrows_witness:
  "\<exists>t. select_item (place 8 60 0 0) blank [10, 20, 30 :: int] (demo_dash [259, 258, 259, 10]) = Done (Some 30) t \<and> ds_input t = []"
proof -
  have "dw_newwin (ds_world (demo_dash [259, 258, 259, 10])) (place 8 60 0 0) = Some (place 8 60 0 0)"
    by (simp add: demo_dash_def demo_world_def)
  moreover have "ds_input (demo_dash [259, 258, 259, 10]) = demo_input [259, 258, 259, 10] @ []" by (simp add: demo_dash_def)
  moreover have "map ev_key (demo_input [259, 258, 259, 10]) = [259, 258, 259] @ [10]" by (simp add: demo_input_def)
  moreover have "is_enter 10" by (simp add: is_enter_def)
  moreover have "\<forall>k\<in>set [259, 258, 259]. \<not> is_enter k \<and> \<not> is_cancel k" by (simp add: is_enter_def is_cancel_def key_def)
  ultimately show ?thesis
    using selection_follows_arrows [of "[10, 20, 30]" "demo_dash [259, 258, 259, 10]" "place 8 60 0 0" "place 8 60 0 0"
        "demo_input [259, 258, 259, 10]" "[]" "[259, 258, 259]" 10 blank]
    by (auto simp: Let_def)
qed

end
