(* ===== verification/DashSignals.thy ===== *)
theory DashSignals
  imports DashKeys
begin

text \<open>
  What a run of the dashboard in \<open>src/trfx_dashboard.c\<close> does to other processes: the keys that kill the chosen process,
  and that nothing else sends a signal.
\<close>

section \<open>Choosing and confirming\<close>

lemma select_process_done:
  assumes "select_process_for_kill s = Done (Some x) t"
  shows "ds_log t = ds_log s \<and> (\<exists>ks ch. ds_keys t = ds_keys s @ ks @ [ch] \<and> only_last ks ch \<and> is_enter ch)"
proof -
  obtain cnt ps where g: "get_top_processes (dash_os s) (Some []) (int max_processes) (th_sort (ds_shared s)) = (cnt, ps)"
    by fastforce
  show ?thesis
  proof (cases "cnt \<le> 0")
    case True
    then show ?thesis
      using assms by (auto simp: select_process_for_kill_def g dbind_def dret_def split: dash_result.splits)
  next
    case False
    then have "take 8 (the ps) \<noteq> []"
      using g by (auto simp: get_top_processes_def Let_def max_processes_def min_def split: if_splits)
    then show ?thesis
      using assms False select_item_done
      by (fastforce simp: select_process_for_kill_def g Let_def)
  qed
qed

lemma review_done:
  assumes "show_action_review_popup review s = Done ok t"
  shows "ds_log t = ds_log s \<and> (ok \<noteq> 0 \<longrightarrow> (\<exists>ks ch. ds_keys t = ds_keys s @ ks @ [ch] \<and> only_last ks ch \<and> is_enter ch))"
proof (cases review)
  case None
  then show ?thesis using assms by (simp add: show_action_review_popup_def)
next
  case (Some v)
  let ?s1 = "on_runtime (trfx_runtime_set_paused 1) s"
  obtain q s2 where o: "open_popup (action_popup_place 8 72 50 ?s1) ?s1 = (q, s2)" by fastforce
  have s2: "popup_step ?s1 s2" by (rule open_popup_step [OF o])
  then have same: "ds_log s2 = ds_log s" "ds_keys s2 = ds_keys s"
    by (auto simp: step_defs on_runtime_def on_shared_def)
  show ?thesis
  proof (cases q)
    case None
    then have "ok = 0" "t = resume_dashboard_after_popup s2"
      using assms by (simp_all add: show_action_review_popup_def Some Let_def o)
    then show ?thesis using same by (simp add: resume_dashboard_after_popup_def on_runtime_def on_shared_def)
  next
    case (Some p)
    obtain ch s3 where w: "wait_key (\<lambda>ch. is_enter ch \<or> is_cancel ch) (show_frame p None (review_frame v p) s2) = Done ch s3"
      and t: "ok = (if is_enter ch then 1 else 0)" "t = resume_dashboard_after_popup (close_popup s3)"
      using assms unfolding show_action_review_popup_def \<open>review = Some v\<close> Let_def option.case o Some prod.case dbind_def
      by (auto split: dash_result.splits)
    from wait_key_done [OF w] obtain ks where "is_enter ch \<or> is_cancel ch" "ds_log s3 = ds_log s2"
      "ds_keys s3 = ds_keys s2 @ ks @ [ch]" "\<forall>k\<in>set ks. \<not> (is_enter k \<or> is_cancel k)"
      by (auto simp: step_defs show_frame_def)
    then show ?thesis
      using t same by (auto simp: resume_dashboard_after_popup_def close_popup_def on_runtime_def on_shared_def only_last_def)
  qed
qed

lemma select_connection_done:
  assumes "select_connection_for_drop s = Done (Some x) t"
  shows "ds_log t = ds_log s \<and> (\<exists>ks ch. ds_keys t = ds_keys s @ ks @ [ch] \<and> only_last ks ch \<and> is_enter ch)"
proof (cases "get_connection_info (dash_os s) max_connections = []")
  case True
  then show ?thesis
    using assms by (auto simp: select_connection_for_drop_def dbind_def dret_def split: dash_result.splits)
next
  case False
  then show ?thesis
    using assms select_item_done by (fastforce simp: select_connection_for_drop_def Let_def)
qed

section \<open>Signals and commands\<close>

text \<open>The keys before an execution: the key of the action, a choice and a confirmation.\<close>

fun action_keys :: "action_effect \<Rightarrow> int set" where
  "action_keys (EffKill v sig) = {key CHR ''x'', key CHR ''X''}"
| "action_keys (EffRun argv) = {key CHR ''z'', key CHR ''Z''}"

definition asked :: "int list \<Rightarrow> action_effect \<Rightarrow> bool" where
  "asked keys eff \<longleftrightarrow> (\<exists>before ch ks1 k1 ks2 k2. keys = before @ [ch] @ ks1 @ [k1] @ ks2 @ [k2]
     \<and> ch \<in> action_keys eff \<and> is_enter k1 \<and> is_enter k2 \<and> (\<forall>k\<in>set (ks1 @ ks2). \<not> is_enter k \<and> \<not> is_cancel k))"

lemma askedI:
  assumes "ch \<in> action_keys eff" and "only_last ks1 k1" "is_enter k1" and "only_last ks2 k2" "is_enter k2"
  shows "asked (before @ [ch] @ ks1 @ [k1] @ ks2 @ [k2]) eff"
proof -
  have "\<forall>k\<in>set (ks1 @ ks2). \<not> is_enter k \<and> \<not> is_cancel k" using assms(2,4) by (auto simp: only_last_def)
  then show ?thesis unfolding asked_def using assms(1,3,5) by blast
qed

definition action_allowed :: "execution \<Rightarrow> bool" where
  "action_allowed x \<longleftrightarrow> (\<forall>eff\<in>set (ex_effects x). ex_effects x = [eff] \<and> asked (ex_keys x) eff
     \<and> effect_allowed (ap_act (ex_app x)) (ap_euid (ex_app x)) (ex_request x) eff)"

text \<open>The keys that were read and those that are still to come.\<close>

definition all_keys :: "dash_state \<Rightarrow> int list" where
  "all_keys s = ds_keys s @ map ev_key (ds_input s)"

definition log_grows :: "dash_state \<Rightarrow> 'a dash_result \<Rightarrow> bool" where
  "log_grows s r \<longleftrightarrow> all_keys (result_state r) = all_keys s
     \<and> (\<exists>xs. ds_log (result_state r) = ds_log s @ xs
          \<and> list_all (\<lambda>x. action_allowed x \<and> (\<exists>rest. all_keys s = ex_keys x @ rest)) xs)"

interpretation growing: kept_relation log_grows
proof
  show "log_grows s (Done () s)" for s by (simp add: log_grows_def)
  show "log_grows s r" if "log_grows s (Done () t)" and "log_grows t r" for s t and r :: "unit dash_result"
    using that by (fastforce simp: log_grows_def)
  show w: "log_grows s (Done () t)" if "window_step s t" for s t
    using that by (simp add: log_grows_def all_keys_def window_step_def input_step_def)
  show "log_grows s (Done () t)" if "popup_step s t" for s t
    using that by (simp add: log_grows_def all_keys_def step_defs)
  show "log_grows s (ending (dash_getch s))" for s
    by (simp add: log_grows_def all_keys_def dash_getch_def split: list.split)
  show "log_grows s (Exited s)" for s by (simp add: log_grows_def)
  show "keeps log_grows (dash_join e i)" for e i
    by (simp add: keeps_def dash_join_def log_grows_def all_keys_def on_shared_def)
qed

lemma execute_grows:
  assumes "\<And>eff. c \<noteq> 0 \<Longrightarrow> effect_allowed (ap_act (dash_env s)) (ap_euid (dash_env s)) rq eff \<Longrightarrow> asked (ds_keys s) eff"
  shows "log_grows s (ending (dash_execute rq c s))"
proof -
  obtain res e effs au where x: "trfx_execute_action_request (ap_act (dash_env s)) (Some rq) c (ap_euid (dash_env s)) (Some []) 256
      (th_audit (ds_shared s)) = (res, e, effs, au)" by (metis prod_cases4)
  have "action_allowed \<lparr>ex_keys = ds_keys s, ex_app = dash_env s, ex_request = rq, ex_confirmed = c, ex_effects = effs\<rparr>"
    using effects_authorised [OF x] assms unfolding action_allowed_def by auto
  then show ?thesis by (auto simp: dash_execute_def x log_grows_def all_keys_def on_shared_def)
qed

lemma review_grows:
  assumes "ds_keys t = before @ [ch] @ ks1 @ [k1]" and "only_last ks1 k1" "is_enter k1"
    and "\<And>env euid eff. effect_allowed env euid rq eff \<Longrightarrow> ch \<in> action_keys eff"
  shows "log_grows t (ending (review_and_execute rq uid t))"
  unfolding review_and_execute_def
proof (rule growing.bind_at)
  show "log_grows t (ending (show_action_review_popup v t))" for v
    using growing.keeps_review by (simp add: keeps_def)
  fix ok u
  assume rv: "show_action_review_popup (Some (trfx_prepare_action_review (Some rq) (ap_euid (dash_env t)) uid 1)) t = Done ok u"
  show "log_grows u (ending (dbind (dash_execute rq (if ok = 0 then 0 else 1))
      (\<lambda>result. show_action_result_popup (Some rq) (Some result)) u))"
  proof (rule growing.bind_at)
    show "log_grows u (ending (dash_execute rq (if ok = 0 then 0 else 1) u))"
    proof (rule execute_grows)
      fix eff
      assume "(if ok = 0 then 0 else 1) \<noteq> (0 :: int)" and "effect_allowed (ap_act (dash_env u)) (ap_euid (dash_env u)) rq eff"
      then obtain ks2 k2 where k2: "ds_keys u = ds_keys t @ ks2 @ [k2]" "only_last ks2 k2" "is_enter k2"
        "ch \<in> action_keys eff"
        using review_done [OF rv] assms(4) by (auto split: if_splits)
      then have "ds_keys u = before @ [ch] @ ks1 @ [k1] @ ks2 @ [k2]" using assms(1) by simp
      then show "asked (ds_keys u) eff" by (simp only: askedI [OF k2(4) assms(2,3) k2(2,3)])
    qed
  qed (use growing.keeps_result in \<open>simp add: keeps_def\<close>)
qed

lemma drop_keys: "effect_allowed env euid (trfx_action_request_set_connection_drop c) eff
    \<Longrightarrow> action_keys eff = {key CHR ''z'', key CHR ''Z''}"
  by (cases eff) (auto simp: trfx_action_request_set_connection_drop_def Let_def split: option.splits)

lemma kill_keys: "effect_allowed env euid (trfx_action_request_set_process_kill pid name) eff
    \<Longrightarrow> action_keys eff = {key CHR ''x'', key CHR ''X''}"
  by (cases eff) (auto simp: trfx_action_request_set_process_kill_def Let_def)

lemma drop_grows:
  assumes "ds_keys s = before @ [ch]" and "ch \<in> {key CHR ''z'', key CHR ''Z''}"
  shows "log_grows s (ending (handle_connection_drop_action s))"
  unfolding handle_connection_drop_action_def
proof (rule growing.bind_at)
  show "log_grows s (ending (select_connection_for_drop s))"
    using growing.keeps_select_connection by (simp add: keeps_def)
  fix target t
  assume sel: "select_connection_for_drop s = Done target t"
  show "log_grows t (ending ((case target of None \<Rightarrow> dret ()
      | Some t \<Rightarrow> review_and_execute (trfx_action_request_set_connection_drop (Some t)) 0) t))"
  proof (cases target)
    case None
    then show ?thesis by (simp add: dret_def growing.refl)
  next
    case (Some x)
    from select_connection_done [OF sel [unfolded Some]] obtain ks1 k1 where
      "ds_keys t = before @ [ch] @ ks1 @ [k1]" "only_last ks1 k1" "is_enter k1" using assms(1) by auto
    from review_grows [OF this] drop_keys assms(2) show ?thesis by (auto simp: Some)
  qed
qed

lemma kill_grows:
  assumes "ds_keys s = before @ [ch]" and "ch \<in> {key CHR ''x'', key CHR ''X''}"
  shows "log_grows s (ending (handle_process_kill_action s))"
  unfolding handle_process_kill_action_def
proof (rule growing.bind_at)
  show "log_grows s (ending (select_process_for_kill s))"
    using growing.keeps_select_process by (simp add: keeps_def)
  fix target t
  assume sel: "select_process_for_kill s = Done target t"
  show "log_grows t (ending ((case target of None \<Rightarrow> dret ()
      | Some x \<Rightarrow> \<lambda>s. case trfx_lookup_process_uid (dash_os s) (Some (pi_pid x)) (Some []) 256 of
          (None, e) \<Rightarrow> show_action_feedback_popup (Some ''Kill Process'') (Some (or_else (the e) ''process not found'')) s
        | (Some uid, _) \<Rightarrow> review_and_execute
            (trfx_action_request_set_process_kill (Some (pi_pid x)) (Some (pi_command x))) uid s) t))"
  proof (cases target)
    case None
    then show ?thesis by (simp add: dret_def growing.refl)
  next
    case (Some x)
    from select_process_done [OF sel [unfolded Some]] obtain ks1 k1 where
      "ds_keys t = before @ [ch] @ ks1 @ [k1]" "only_last ks1 k1" "is_enter k1" using assms(1) by auto
    note review_grows [OF this, of "trfx_action_request_set_process_kill (Some (pi_pid x)) (Some (pi_command x))"]
    then have "log_grows t (ending (review_and_execute
        (trfx_action_request_set_process_kill (Some (pi_pid x)) (Some (pi_command x))) uid t))" for uid
      using kill_keys assms(2) by blast
    moreover have "log_grows t (ending (show_action_feedback_popup a b t))" for a b
      using growing.keeps_feedback by (simp add: keeps_def)
    ultimately show ?thesis by (auto simp: Some split: prod.splits option.splits)
  qed
qed

lemma keypress_grows:
  assumes "ds_keys s = before @ [ch]"
  shows "log_grows s (ending (handle_keypress ch s))"
proof -
  consider (kill) "ch \<in> {key CHR ''x'', key CHR ''X''}" | (drop) "ch \<in> {key CHR ''z'', key CHR ''Z''}"
    | (other) "ch \<notin> {key CHR ''x'', key CHR ''X''}" "ch \<notin> {key CHR ''z'', key CHR ''Z''}" by blast
  then show ?thesis
  proof cases
    case kill
    then have "handle_keypress ch = handle_process_kill_action" by (auto simp: handle_keypress_def key_def)
    then show ?thesis using kill_grows [OF assms kill] by simp
  next
    case drop
    then have "handle_keypress ch = handle_connection_drop_action" by (auto simp: handle_keypress_def key_def)
    then show ?thesis using drop_grows [OF assms drop] by simp
  next
    case other
    then have "keeps log_grows (handle_keypress ch)" by (intro growing.keeps_keypress) simp_all
    then show ?thesis by (rule growing.keeps_at)
  qed
qed

lemma dash_loop_grows: "log_grows s (ending (dash_loop s))"
proof (induction s rule: dash_loop.induct)
  case (1 s)
  show ?case
  proof (cases "ds_input s")
    case Nil
    then show ?thesis using growing.getch [of s] by (subst dash_loop.simps) (simp add: dash_getch_def)
  next
    case (Cons e es)
    let ?s1 = "s\<lparr>ds_input := es, ds_world := ev_world e, ds_shared := ev_others e (ds_shared s),
                 ds_keys := ds_keys s @ [ev_key e]\<rparr>"
    have g: "dash_getch s = Done (ev_key e) ?s1" by (simp add: dash_getch_def Cons)
    have s1: "log_grows s (Done () ?s1)" using growing.getch [of s] by (simp add: g)
    show ?thesis
    proof (cases "ev_key e = key CHR ''q'' \<or> ev_key e = key CHR ''Q''")
      case True
      then show ?thesis using s1 by (subst dash_loop.simps) (simp add: g)
    next
      case False
      have k: "log_grows ?s1 (ending (handle_keypress (ev_key e) ?s1))" by (rule keypress_grows) simp
      have "log_grows t (ending (dash_loop t))" if "handle_keypress (ev_key e) ?s1 = Done u t" for u t
        using "1.IH" [OF g False that] .
      then have "log_grows ?s1 (ending (dash_loop s))"
        using False k by (subst dash_loop.simps) (auto simp: g split: dash_result.splits intro: growing.trans)
      then show ?thesis by (rule growing.trans [OF s1])
    qed
  qed
qed

lemma start_dashboard_grows: "log_grows s (ending (start_dashboard s))"
  unfolding start_dashboard_def
proof (rule growing.bind_at)
  show "log_grows s (ending (open_dashboard s))" by (rule growing.open_dashboard_at)
  show "log_grows t (ending (dbind dash_loop (\<lambda>_. close_dashboard) t))" for t
    by (intro growing.bind_at dash_loop_grows growing.close_dashboard_at)
qed

text \<open>C2. A run of the dashboard, with any keys and whatever the other threads and the system do, acts on the outside
  only when the user asked for it: the last keys before a signal are \<open>x\<close> or \<open>X\<close>, an Enter that chose a process and an
  Enter that confirmed, with no key between them that cancels or accepts; before a command they are \<open>z\<close> or \<open>Z\<close>, an
  Enter that chose a connection and one that confirmed. Then there is exactly one effect, and it is allowed at that
  moment: one \<open>SIGTERM\<close> to the process of the request, which exists with a readable owner, by root or that owner; or
  one call of \<open>ss\<close> with the two ends of the connection of the request, by root.\<close>

theorem dashboard_acts_safely:
  assumes "ds_log s = []" and "ds_keys s = []" and "x \<in> set (ds_log (result_state (start_dashboard s)))"
    and "eff \<in> set (ex_effects x)"
  shows "ex_effects x = [eff] \<and> effect_allowed (ap_act (ex_app x)) (ap_euid (ex_app x)) (ex_request x) eff
    \<and> (\<exists>before ch ks1 k1 ks2 k2 rest. map ev_key (ds_input s) = before @ [ch] @ ks1 @ [k1] @ ks2 @ [k2] @ rest
         \<and> ex_keys x = before @ [ch] @ ks1 @ [k1] @ ks2 @ [k2]
         \<and> ch \<in> (case eff of EffKill v sig \<Rightarrow> {key CHR ''x'', key CHR ''X''} | EffRun argv \<Rightarrow> {key CHR ''z'', key CHR ''Z''})
         \<and> is_enter k1 \<and> is_enter k2 \<and> (\<forall>k\<in>set (ks1 @ ks2). \<not> is_enter k \<and> \<not> is_cancel k))"
proof -
  obtain xs where "ds_log (result_state (start_dashboard s)) = xs"
    "list_all (\<lambda>x. action_allowed x \<and> (\<exists>rest. all_keys s = ex_keys x @ rest)) xs"
    using start_dashboard_grows [of s] assms(1) by (auto simp: log_grows_def)
  then obtain rest where x: "action_allowed x" "all_keys s = ex_keys x @ rest"
    using assms(3) by (auto simp: list_all_iff)
  then obtain before ch ks1 k1 ks2 k2 where k: "ex_keys x = before @ [ch] @ ks1 @ [k1] @ ks2 @ [k2]" "ch \<in> action_keys eff"
    "is_enter k1" "is_enter k2" "\<forall>k\<in>set (ks1 @ ks2). \<not> is_enter k \<and> \<not> is_cancel k"
    using assms(4) by (auto simp: action_allowed_def asked_def)
  moreover have "map ev_key (ds_input s) = before @ [ch] @ ks1 @ [k1] @ ks2 @ [k2] @ rest"
    using x(2) k(1) assms(2) by (simp add: all_keys_def)
  moreover have "action_keys eff
      = (case eff of EffKill v sig \<Rightarrow> {key CHR ''x'', key CHR ''X''} | EffRun argv \<Rightarrow> {key CHR ''z'', key CHR ''Z''})"
    by (cases eff) simp_all
  ultimately show ?thesis using x(1) assms(4) unfolding action_allowed_def by blast
qed

section \<open>Killing the chosen process\<close>

lemma opened:
  assumes "\<And>g. dw_newwin (ds_world s) g = Some g"
  obtains t where "open_popup g s = (Some g, t)" "popup_step s t" "ds_popups t = ds_popups s @ [g]" "ds_input t = ds_input s"
  using assms by (simp add: open_popup_def create_bordered_window_def step_defs)

lemma review_run:
  assumes "\<And>g. dw_newwin (ds_world s) g = Some g" and "ds_input s = es @ rest"
    and "map ev_key es = ks @ [ch]" and "is_enter ch \<or> is_cancel ch" and "\<forall>k\<in>set ks. \<not> is_enter k \<and> \<not> is_cancel k"
  shows "\<exists>t. show_action_review_popup (Some v) s = Done (if is_enter ch then 1 else 0) t \<and> has_read es s t \<and> ds_popups t = ds_popups s"
proof -
  let ?s1 = "on_runtime (trfx_runtime_set_paused 1) s"
  have s1: "popup_step s ?s1" "ds_popups ?s1 = ds_popups s" "ds_input ?s1 = ds_input s" "ds_world ?s1 = ds_world s"
    by (simp_all add: step_defs on_runtime_def on_shared_def)
  let ?g = "action_popup_place 8 72 50 ?s1"
  obtain s2 where o: "open_popup ?g ?s1 = (Some ?g, s2)" "popup_step ?s1 s2" "ds_popups s2 = ds_popups s @ [?g]"
    "ds_input s2 = es @ rest"
    using opened [of ?s1 ?g] assms(1,2) s1 by metis
  let ?s3 = "show_frame ?g None (review_frame v ?g) s2"
  have "ds_input ?s3 = es @ rest" using o by (simp add: show_frame_def)
  from wait_key_run [where p = "\<lambda>ch. is_enter ch \<or> is_cancel ch", OF assms(4) _ assms(3) this] assms(5)
  obtain t where t: "wait_key (\<lambda>ch. is_enter ch \<or> is_cancel ch) ?s3 = Done ch t" "has_read es ?s3 t" "ds_popups t = ds_popups ?s3"
    by auto
  have "has_read es s t"
    by (rule has_read_popup [OF s1(1) has_read_popup [OF o(2) has_read_popup [OF popup_steps(6) t(2)]]])
  then show ?thesis
    using t o popup_has_read
    by (auto simp: show_action_review_popup_def Let_def dbind_def resume_dashboard_after_popup_def close_popup_def show_frame_def
        on_runtime_def on_shared_def has_read_def step_defs)
qed

abbreviation closing_keys :: "int set" where
  "closing_keys \<equiv> {key_esc, key_newline, key_enter, key CHR ''q'', key CHR ''Q''}"

lemma result_run:
  assumes "\<And>g. dw_newwin (ds_world s) g = Some g" and "ds_input s = es @ rest"
    and "map ev_key es = ks @ [ch]" and "ch \<in> closing_keys" and "\<forall>k\<in>set ks. k \<notin> closing_keys"
  shows "\<exists>t. show_action_result_popup (Some rq) (Some rs) s = Done () t \<and> has_read es s t \<and> ds_popups t = ds_popups s"
proof -
  let ?s1 = "on_runtime (trfx_runtime_set_paused 1) s"
  have s1: "popup_step s ?s1" "ds_popups ?s1 = ds_popups s" "ds_input ?s1 = ds_input s" "ds_world ?s1 = ds_world s"
    by (simp_all add: step_defs on_runtime_def on_shared_def)
  let ?g = "action_popup_place 8 84 60 ?s1"
  obtain s2 where o: "open_popup ?g ?s1 = (Some ?g, s2)" "popup_step ?s1 s2" "ds_popups s2 = ds_popups s @ [?g]"
    "ds_input s2 = es @ rest"
    using opened [of ?s1 ?g] assms(1,2) s1 by metis
  let ?s3 = "show_frame ?g None (action_result_frame
    (format_popup_time (dw_clock (ds_world s)) (ae_now (ap_act (dash_env s))) 32) rq rs ?g) s2"
  have "ds_input ?s3 = es @ rest" using o by (simp add: show_frame_def)
  from wait_key_run [where p = "\<lambda>ch. ch \<in> closing_keys", OF assms(4,5,3) this]
  obtain t where t: "wait_key (\<lambda>ch. ch \<in> closing_keys) ?s3 = Done ch t" "has_read es ?s3 t" "ds_popups t = ds_popups ?s3"
    by blast
  have "has_read es s t"
    by (rule has_read_popup [OF s1(1) has_read_popup [OF o(2) has_read_popup [OF popup_steps(6) t(2)]]])
  moreover have "show_action_result_popup (Some rq) (Some rs) s = close_on closing_keys ?s3"
    using o(1) by (simp add: show_action_result_popup_def Let_def dash_env_def s1(4))
  ultimately show ?thesis
    using t o
    by (auto simp: close_on_def dbind_def dmod_def resume_dashboard_after_popup_def close_popup_def show_frame_def
        on_runtime_def on_shared_def has_read_def step_defs)
qed

lemma unconfirmed_nothing:
  "trfx_execute_action_request env (Some rq) 0 euid err n au = (res, err', effs, au') \<Longrightarrow> effs = []"
  by (auto simp: trfx_execute_action_request_def execute_request_def finalize_action_result_def Let_def split: prod.splits if_splits)

text \<open>The execution by the dashboard: what is logged.\<close>

lemma dash_execute_run:
  "\<exists>res t x. dash_execute rq c s = Done res t \<and> popup_step (s\<lparr>ds_log := ds_log s @ [x]\<rparr>) t \<and> ds_popups t = ds_popups s
     \<and> (\<exists>e au. trfx_execute_action_request (ap_act (dash_env s)) (Some rq) c (ap_euid (dash_env s)) (Some []) 256
            (th_audit (ds_shared s)) = (res, e, ex_effects x, au))"
proof -
  obtain res e effs au where x: "trfx_execute_action_request (ap_act (dash_env s)) (Some rq) c (ap_euid (dash_env s)) (Some []) 256
      (th_audit (ds_shared s)) = (res, e, effs, au)" by (metis prod_cases4)
  let ?x = "\<lparr>ex_keys = ds_keys s, ex_app = dash_env s, ex_request = rq, ex_confirmed = c, ex_effects = effs\<rparr>"
  show ?thesis
    by (rule exI [of _ res], rule exI [of _ "on_shared (\<lambda>t. t\<lparr>th_audit := au\<rparr>) (s\<lparr>ds_log := ds_log s @ [?x]\<rparr>)"],
        rule exI [of _ ?x]) (simp add: dash_execute_def x on_shared_def step_defs)
qed

lemma review_and_execute_run:
  assumes "\<And>g. dw_newwin (ds_world s) g = Some g" and "\<And>g. dw_newwin (ev_world (last es2)) g = Some g"
    and "ds_input s = es2 @ es3 @ rest"
    and "map ev_key es2 = ks2 @ [k2]" and "is_enter k2 \<or> is_cancel k2" and "\<forall>k\<in>set ks2. \<not> is_enter k \<and> \<not> is_cancel k"
    and "map ev_key es3 = ks3 @ [k3]" and "k3 \<in> closing_keys" and "\<forall>k\<in>set ks3. k \<notin> closing_keys"
  shows "\<exists>t x. review_and_execute rq uid s = Done () t \<and> ds_log t = ds_log s @ [x] \<and> ds_popups t = ds_popups s
    \<and> ds_input t = rest
    \<and> (\<exists>env res e au au'. env = dw_app (ev_world (last es2)) \<and>
         trfx_execute_action_request (ap_act env) (Some rq) (if is_enter k2 then 1 else 0) (ap_euid env) (Some []) 256 au
           = (res, e, ex_effects x, au'))"
proof -
  have "es2 \<noteq> []" using assms(4) by auto
  obtain t1 where t1: "show_action_review_popup (Some v) s = Done (if is_enter k2 then 1 else 0) t1" "has_read es2 s t1"
    "ds_popups t1 = ds_popups s"
    if "v = trfx_prepare_action_review (Some rq) (ap_euid (dash_env s)) uid 1" for v
    using review_run [OF assms(1,3,4,5,6)] by blast
  note t1 = t1 [OF refl]
  from has_readD [OF t1(2) assms(3)] have i1: "ds_input t1 = es3 @ rest" "ds_log t1 = ds_log s" "ds_world t1 = ev_world (last es2)"
    using \<open>es2 \<noteq> []\<close> by simp_all
  obtain res t2 x where t2: "dash_execute rq (if is_enter k2 then 1 else 0) t1 = Done res t2"
      "popup_step (t1\<lparr>ds_log := ds_log t1 @ [x]\<rparr>) t2" "ds_popups t2 = ds_popups t1"
    and x: "\<exists>e au. trfx_execute_action_request (ap_act (dash_env t1)) (Some rq) (if is_enter k2 then 1 else 0) (ap_euid (dash_env t1))
            (Some []) 256 (th_audit (ds_shared t1)) = (res, e, ex_effects x, au)"
    using dash_execute_run [of rq "if is_enter k2 then 1 else 0" t1] by blast
  have i2: "ds_input t2 = es3 @ rest" "ds_log t2 = ds_log s @ [x]" "ds_world t2 = ev_world (last es2)"
    using t2(2) i1 by (auto simp: step_defs)
  have "dw_newwin (ds_world t2) g = Some g" for g using assms(2) i2 by simp
  from result_run [OF this i2(1) assms(7,8,9), of rq res]
  obtain t3 where t3: "show_action_result_popup (Some rq) (Some res) t2 = Done () t3" "has_read es3 t2 t3" "ds_popups t3 = ds_popups t2"
    by blast
  have "review_and_execute rq uid s = Done () t3"
    using t1(1) t2(1) t3(1) by (cases "is_enter k2") (simp_all add: review_and_execute_def dbind_def)
  moreover have "ds_log t3 = ds_log s @ [x]" "ds_input t3 = rest" "ds_popups t3 = ds_popups s"
    using has_readD [OF t3(2) i2(1)] i2 t3(3) t2(3) t1(3) by simp_all
  moreover have "\<exists>env res e au au'. env = dw_app (ev_world (last es2)) \<and>
       trfx_execute_action_request (ap_act env) (Some rq) (if is_enter k2 then 1 else 0) (ap_euid env) (Some []) 256 au
         = (res, e, ex_effects x, au')"
    using x unfolding dash_env_def i1(3) by blast
  ultimately show ?thesis by blast
qed

text \<open>Killing a process: the keys choose a row, confirm or cancel the request, and close the result.\<close>

lemma process_chosen:
  assumes "get_top_processes (dash_os s) (Some []) (int max_processes) (th_sort (ds_shared s)) = (cnt, Some ps)"
    and "0 < cnt" and "\<And>g. dw_newwin (ds_world s) g = Some g" and "ds_input s = es @ rest"
    and "map ev_key es = ks @ [ch]" and "is_enter ch \<or> is_cancel ch" and "\<forall>k\<in>set ks. \<not> is_enter k \<and> \<not> is_cancel k"
  shows "\<exists>t. select_process_for_kill s
      = Done (if is_enter ch then Some (take 8 ps ! row_after (min (length ps) 8) 0 ks) else None) t
    \<and> has_read es s t \<and> (if is_enter ch then ds_popups t = ds_popups s else \<exists>p. ds_popups t = ds_popups s @ [p])"
proof -
  let ?items = "take 8 ps"
  have items: "?items \<noteq> []" using assms(1,2) by (auto simp: get_top_processes_def Let_def min_def split: if_splits)
  have "\<exists>t. select_item g frame ?items s
      = Done (if is_enter ch then Some (?items ! row_after (min (length ps) 8) 0 ks) else None) t
    \<and> has_read es s t \<and> (if is_enter ch then ds_popups t = ds_popups s else \<exists>p. ds_popups t = ds_popups s @ [p])" for g frame
    using select_item_run [OF items assms(3-7), of g frame] by (auto simp: length_take min.commute)
  then show ?thesis using assms(1,2) by (simp add: select_process_for_kill_def Let_def)
qed

lemma kill_run:
  assumes "get_top_processes (dash_os s) (Some []) (int max_processes) (th_sort (ds_shared s)) = (cnt, Some ps)" and "0 < cnt"
    and "\<And>w g. w \<in> {ds_world s, w1, w2} \<Longrightarrow> dw_newwin w g = Some g"
    and "w1 = ev_world (last es1)" and "w2 = ev_world (last es2)"
    and "ds_input s = es1 @ es2 @ es3 @ rest"
    and "map ev_key es1 = ks1 @ [k1]" and "is_enter k1" and "\<forall>k\<in>set ks1. \<not> is_enter k \<and> \<not> is_cancel k"
    and "map ev_key es2 = ks2 @ [k2]" and "is_enter k2 \<or> is_cancel k2" and "\<forall>k\<in>set ks2. \<not> is_enter k \<and> \<not> is_cancel k"
    and "map ev_key es3 = ks3 @ [k3]" and "k3 \<in> closing_keys" and "\<forall>k\<in>set ks3. k \<notin> closing_keys"
    and "pid = pi_pid (take 8 ps ! row_after (min (length ps) 8) 0 ks1)" and "length pid < 16"
    and "fst (trfx_lookup_process_uid (app_os (dw_app w1)) (Some pid) None 0) = Some uid1"
    and "fst (trfx_lookup_process_uid (app_os (dw_app w2)) (Some pid) None 0) = Some uid2"
    and "ap_euid (dw_app w2) = 0 \<or> ap_euid (dw_app w2) = uid2" and "parse_pid_value (Some pid) = Some v"
  shows "\<exists>t x. handle_process_kill_action s = Done () t \<and> ds_log t = ds_log s @ [x]
    \<and> ex_effects x = (if is_enter k2 then [EffKill v sigterm] else []) \<and> ds_popups t = ds_popups s \<and> ds_input t = rest"
proof -
  have "es1 \<noteq> []" using assms(7) by auto
  let ?p = "take 8 ps ! row_after (min (length ps) 8) 0 ks1"
  let ?rq = "trfx_action_request_set_process_kill (Some pid) (Some (pi_command ?p))"
  have rq: "ar_kind ?rq = TRFX_ACTION_KIND_KILL_PROCESS" "at_pid (ar_target ?rq) = pid"
    using assms(17,21) by (auto simp: trfx_action_request_set_process_kill_def Let_def set_string_def fit_def parse_pid_value_def)
  obtain t1 where t1: "select_process_for_kill s = Done (Some ?p) t1" "has_read es1 s t1" "ds_popups t1 = ds_popups s"
    using process_chosen [OF assms(1,2) _ assms(6,7) _ assms(9)] assms(3,8) by auto
  from has_readD [OF t1(2) assms(6)] have i1: "ds_input t1 = es2 @ es3 @ rest" "ds_log t1 = ds_log s" "ds_world t1 = w1"
    using \<open>es1 \<noteq> []\<close> assms(4) by simp_all
  obtain t x res e au au' where t: "review_and_execute ?rq uid1 t1 = Done () t" "ds_log t = ds_log s @ [x]"
      "ds_popups t = ds_popups s" "ds_input t = rest"
    and x: "trfx_execute_action_request (ap_act (dw_app w2)) (Some ?rq) (if is_enter k2 then 1 else 0) (ap_euid (dw_app w2))
      (Some []) 256 au = (res, e, ex_effects x, au')"
    using review_and_execute_run [OF _ _ i1(1) assms(10-15), of ?rq uid1] assms(3,5) i1 t1(3) by auto
  have "ex_effects x = (if is_enter k2 then [EffKill v sigterm] else [])"
  proof (cases "is_enter k2")
    case True
    then show ?thesis
      using kill_executes [OF rq(1) _ _ x [unfolded if_P [OF True]], of v None 0 uid2] assms(19-21) rq(2) by (simp add: app_os_def)
  next
    case False
    then show ?thesis using unconfirmed_nothing [OF x [unfolded if_not_P [OF False]]] by simp
  qed
  moreover obtain e1 where "trfx_lookup_process_uid (dash_os t1) (Some pid) (Some []) 256 = (Some uid1, e1)"
    using assms(18) lookup_uid_file [of "dash_os t1" pid "Some []" 256] lookup_uid_file [of "dash_os t1" pid None 0]
    by (metis i1(3) dash_env_def dash_os_def prod.collapse)
  ultimately have "handle_process_kill_action s = Done () t"
    using t1(1) t(1) assms(16) by (simp add: handle_process_kill_action_def dbind_def)
  then show ?thesis using t \<open>ex_effects x = _\<close> by blast
qed

text \<open>Cancelling the choice of a process to kill does nothing but leave the popup behind: no action is executed, the
  keys after it are unread, and the window of the popup is never deleted.\<close>

lemma cancelled_kill_leaks:
  assumes "get_top_processes (dash_os s) (Some []) (int max_processes) (th_sort (ds_shared s)) = (cnt, Some ps)"
    and "0 < cnt" and "\<And>g. dw_newwin (ds_world s) g = Some g" and "ds_input s = es @ rest"
    and "map ev_key es = ks @ [ch]" and "is_cancel ch" and "\<forall>k\<in>set ks. \<not> is_enter k \<and> \<not> is_cancel k"
  shows "\<exists>t p. handle_process_kill_action s = Done () t \<and> ds_popups t = ds_popups s @ [p] \<and> ds_log t = ds_log s
    \<and> ds_input t = rest"
proof -
  have "\<not> is_enter ch" using assms(6) by (auto simp: is_enter_def is_cancel_def key_def)
  then obtain t p where t: "select_process_for_kill s = Done None t" "has_read es s t" "ds_popups t = ds_popups s @ [p]"
    using process_chosen [OF assms(1-5) disjI2 [OF assms(6)] assms(7)] by auto
  then show ?thesis
    using has_readD [OF t(2) assms(4)] by (auto simp: handle_process_kill_action_def dbind_def dret_def)
qed

text \<open>The key \<open>x\<close> in the main loop.\<close>

lemma kill_key:
  assumes "ds_input s = e # es" and "ev_key e \<in> {key CHR ''x'', key CHR ''X''}" and "dash_getch s = Done (ev_key e) s1"
    and "handle_process_kill_action s1 = Done () t"
  shows "dash_loop s = dash_loop t"
proof -
  have "handle_keypress (ev_key e) = handle_process_kill_action" "ev_key e \<noteq> key CHR ''q''" "ev_key e \<noteq> key CHR ''Q''"
    using assms(2) by (auto simp: handle_keypress_def key_def)
  then show ?thesis using assms(3,4) by (subst dash_loop.simps) simp
qed

text \<open>C3. What \<open>x\<close> does in the main loop, key by key: the arrow keys and Enter choose one of the first eight processes
  of the table, and when it still exists and belongs to the user, or the user is root, then Enter in the confirmation
  sends one \<open>SIGTERM\<close> to exactly that process, while Esc or \<open>q\<close> sends nothing. One execution is recorded, no popup
  stays, no key is lost, and the loop goes on.\<close>

theorem kill_signals_chosen_row:
  assumes "ds_input s = e # es1 @ es2 @ es3 @ rest" and "ev_key e \<in> {key CHR ''x'', key CHR ''X''}"
    and "w0 = ev_world e" and "w1 = ev_world (last es1)" and "w2 = ev_world (last es2)"
    and "\<And>w g. w \<in> {w0, w1, w2} \<Longrightarrow> dw_newwin w g = Some g"
    and "get_top_processes (app_os (dw_app w0)) (Some []) (int max_processes) (th_sort (ev_others e (ds_shared s))) = (cnt, Some ps)"
    and "0 < cnt"
    and "map ev_key es1 = ks1 @ [k1]" and "is_enter k1" and "\<forall>k\<in>set ks1. \<not> is_enter k \<and> \<not> is_cancel k"
    and "map ev_key es2 = ks2 @ [k2]" and "is_enter k2 \<or> is_cancel k2" and "\<forall>k\<in>set ks2. \<not> is_enter k \<and> \<not> is_cancel k"
    and "map ev_key es3 = ks3 @ [k3]" and "k3 \<in> closing_keys" and "\<forall>k\<in>set ks3. k \<notin> closing_keys"
    and "row = nat ((int (length (filter (\<lambda>k. k = key_down) ks1)) - int (length (filter (\<lambda>k. k = key_up) ks1)))
      mod int (min (length ps) 8))"
    and "pid = pi_pid (ps ! row)" and "length pid < 16" and "parse_pid_value (Some pid) = Some v"
    and "fst (trfx_lookup_process_uid (app_os (dw_app w1)) (Some pid) None 0) = Some uid1"
    and "fst (trfx_lookup_process_uid (app_os (dw_app w2)) (Some pid) None 0) = Some uid2"
    and "ap_euid (dw_app w2) = 0 \<or> ap_euid (dw_app w2) = uid2"
  shows "\<exists>t x. dash_loop s = dash_loop t \<and> ds_log t = ds_log s @ [x]
    \<and> ex_effects x = (if is_enter k2 then [EffKill v sigterm] else []) \<and> ds_popups t = ds_popups s \<and> ds_input t = rest"
proof -
  obtain s1 where s1: "dash_getch s = Done (ev_key e) s1" "ds_input s1 = es1 @ es2 @ es3 @ rest" "ds_world s1 = w0"
    "ds_shared s1 = ev_others e (ds_shared s)" "ds_log s1 = ds_log s" "ds_popups s1 = ds_popups s"
    using assms(1,3) by (simp add: dash_getch_def)
  have os: "dash_os s1 = app_os (dw_app w0)" using s1(3) by (simp add: dash_os_def dash_env_def)
  have row: "row = row_after (min (length ps) 8) 0 ks1" using assms(18) by (simp add: row_after_def sum_arrows)
  have "0 < min (length ps) 8" using assms(7,8) by (auto simp: get_top_processes_def Let_def min_def split: if_splits)
  then have "row < min (length ps) 8" unfolding row by (rule row_after_less)
  then have pid: "pid = pi_pid (take 8 ps ! row_after (min (length ps) 8) 0 ks1)" using assms(19) row by simp
  obtain t x where "handle_process_kill_action s1 = Done () t" "ds_log t = ds_log s1 @ [x]"
    "ex_effects x = (if is_enter k2 then [EffKill v sigterm] else [])" "ds_popups t = ds_popups s1" "ds_input t = rest"
    using kill_run [OF assms(7) [folded os s1(4)] assms(8) _ assms(4,5) s1(2) assms(9-17) pid assms(20,22-24,21)] assms(6) s1(3)
    by blast
  then show ?thesis using kill_key [OF assms(1,2) s1(1)] s1(5,6) by metis
qed

section \<open>A concrete run\<close>

lemma demo_rows: "os_cmd os ps_command = Some demo_ps \<Longrightarrow>
  get_top_processes os (Some []) (int max_processes) t = (1, Some [process_line (''42'' @ [nl])])"
proof -
  assume a: "os_cmd os ps_command = Some demo_ps"
  have "c_lines 512 demo_ps = [''PID'' @ [nl], ''42'' @ [nl]]"
    unfolding demo_ps_def append_Cons append_Nil
    using c_lines_line [of "''PID''" 512 "''42'' @ [nl]"] c_lines_line [of "''42''" 512 "[]"] by (simp add: char_simps)
  moreover have "sort_processes t [process_line (''42'' @ [nl])] = [process_line (''42'' @ [nl])]"
    by (cases t) (simp_all add: sort_processes_def c_qsort_def)
  ultimately show ?thesis
    by (simp add: get_top_processes_def trfx_collect_processes_def a max_processes_def)
qed

lemma demo_row_pid: "pi_pid (process_line (''42'' @ [nl])) = ''42''"
  by code_simp

lemma demo_owner: "fst (trfx_lookup_process_uid (app_os (dw_app demo_world)) (Some ''42'') e n) = Some 1000"
  unfolding lookup_uid_file using demo_lookup by (simp add: demo_world_def app_os_def demo_app_def demo_env_def fit_def)

lemma demo_world_simps:
  "dw_newwin demo_world g = Some g" "dw_start demo_world x = ThreadStarts" "ap_euid (dw_app demo_world) = 1000"
  "os_cmd (app_os (dw_app demo_world)) c = Some demo_ps"
  by (simp_all add: demo_world_def demo_app_def app_os_def)

lemma demo_input_simps:
  "map ev_key (demo_input ks) = ks"
  "ks \<noteq> [] \<Longrightarrow> ev_world (last (demo_input ks)) = demo_world"
  by (simp_all add: demo_input_def last_map comp_def)

lemma demo_kill:
  assumes "ds_input s = demo_input [258, 10, 10, 10] @ rest" and "ds_world s = demo_world"
  shows "\<exists>t x. handle_process_kill_action s = Done () t \<and> ds_log t = ds_log s @ [x] \<and> ex_effects x = [EffKill 42 sigterm]"
proof -
  have os: "os_cmd (dash_os s) ps_command = Some demo_ps" using assms(2) by (simp add: dash_os_def dash_env_def demo_world_simps)
  have input: "ds_input s = demo_input [258, 10] @ demo_input [10] @ demo_input [10] @ rest"
    using assms(1) by (simp add: demo_input_def)
  have k: "is_enter 10" "\<forall>k\<in>set [258]. \<not> is_enter k \<and> \<not> is_cancel k" "10 \<in> closing_keys"
    by (simp_all add: is_enter_def is_cancel_def key_def)
  show ?thesis
    using kill_run [OF demo_rows [OF os] _ _ refl refl input, of "[258]" 10 "[]" 10 "[]" 10 "''42''" 1000 1000 42] k assms(2)
    by (auto simp: demo_input_simps demo_world_simps demo_owner demo_pid demo_row_pid [simplified] row_after_def arrow_def)
qed

text \<open>Opening leaves the keys and the system alone.\<close>

lemma open_runs:
  assumes "\<And>x. dw_start (ds_world s) x = ThreadStarts"
  shows "\<exists>t. open_dashboard s = Done () t \<and> window_step s t"
proof -
  let ?s1 = "open_screen s"
  let ?s2 = "start_top_windows (calculate_row1_widths (snd (dash_screen ?s1))) (?s1\<lparr>ds_slots := Some (replicate primary_pane_slots zero_slot)\<rparr>)"
  have s2: "window_step s ?s2" by (simp add: open_screen_step)
  have w: "dw_start (ds_world t) x = ThreadStarts" if "window_step s t" for t x
    using that assms by (simp add: step_defs)
  have run: "\<exists>v. start_slots sel is u = Done () v \<and> window_step s v" if "window_step s u" for sel "is" u
    using that
    by (induction "is" arbitrary: u) (auto simp: Let_def w [where t = "set_slot i f u" for i f u])
  let ?load = "load_row2_modules (calculate_row2_height (dash_cfg ?s1) (fst (dash_screen ?s1)))
      (primary_width (first_geometry ?s1)) (calculate_row2_y (dash_cfg ?s1)) ?s2"
  have "window_step s (create_row2_windows h x y ?s2)" for h x y
    using create_row2_step [of ?s2 h x y] s2 by (simp add: step_defs)
  then obtain t where t: "?load = Done () t" "window_step s t"
    using run w [OF s2] unfolding load_row2_modules_def load_row2_modules_with_selection_def
    by (metis thread_start.distinct(1))
  moreover have "window_step s (open_support_column g h y t)" for g h y
    using t(2) open_support_step [of t g h y] by (simp add: step_defs)
  moreover have "dw_start (ds_world ?s1) SlotArray \<noteq> NoMemory" using w [OF open_screen_step] by simp
  ultimately show ?thesis
    by (simp add: open_dashboard_def Let_def dbind_def dmod_def)
qed

lemma dashboard_acts_safely_witness:
  "\<exists>x\<in>set (ds_log (result_state (start_dashboard (demo_dash [120, 258, 10, 10, 10, 113])))).
     ex_effects x = [EffKill 42 sigterm]"
proof -
  let ?s = "demo_dash [120, 258, 10, 10, 10, 113]"
  have keys: "ds_keys ?s = []" by (simp add: demo_dash_def)
  have s: "ds_log ?s = []" "ds_world ?s = demo_world" "ds_input ?s = demo_input [120] @ demo_input [258, 10, 10, 10] @ demo_input [113]"
    by (simp_all add: demo_dash_def demo_input_def)
  then obtain t0 where t0: "open_dashboard ?s = Done () t0" "window_step ?s t0"
    using open_runs [of ?s] by (auto simp: demo_world_simps)
  then have i0: "ds_input t0 = demo_input [120] @ demo_input [258, 10, 10, 10] @ demo_input [113]" "ds_log t0 = []"
    using s by (simp_all add: window_step_def input_step_def)
  then obtain t1 where t1: "dash_getch t0 = Done 120 t1" "ds_input t1 = demo_input [258, 10, 10, 10] @ demo_input [113]"
    "ds_world t1 = demo_world" "ds_log t1 = []"
    by (simp add: demo_input_def dash_getch_def)
  obtain t2 x where t2: "handle_process_kill_action t1 = Done () t2" "ds_log t2 = [x]" and x: "ex_effects x = [EffKill 42 sigterm]"
    using demo_kill [OF t1(2,3)] t1(4) by auto
  have "dash_loop t0 = dash_loop t2"
    using kill_key [of t0 _ _ t1 t2] i0(1) t1(1) t2(1) by (simp add: demo_input_def key_def)
  moreover have "log_grows t2 (ending (dbind dash_loop (\<lambda>_. close_dashboard) t2))"
    by (intro growing.bind_at dash_loop_grows growing.close_dashboard_at)
  ultimately obtain xs where "ds_log (result_state (start_dashboard ?s)) = [x] @ xs"
    using t0(1) t2(2) by (auto simp: start_dashboard_def dbind_def log_grows_def)
  then have member: "x \<in> set (ds_log (result_state (start_dashboard ?s)))" by simp
  have "EffKill 42 sigterm \<in> set (ex_effects x)" using x by simp
  from dashboard_acts_safely [OF s(1) keys member this] have "ex_effects x = [EffKill 42 sigterm]" by (rule conjunct1)
  with member show ?thesis by blast
qed

lemma kill_signals_chosen_row_witness:
  "\<exists>t x. dash_loop (demo_dash [120, 258, 10, 10, 10, 113]) = dash_loop t \<and> ds_log t = [x]
     \<and> ex_effects x = [EffKill 42 sigterm] \<and> ds_input t = demo_input [113]"
proof -
  let ?s = "demo_dash [120, 258, 10, 10, 10, 113]" and ?e = "\<lparr>ev_key = 120, ev_world = demo_world, ev_others = (\<lambda>t. t)\<rparr>"
  have input: "ds_input ?s = ?e # demo_input [258, 10] @ demo_input [10] @ demo_input [10] @ demo_input [113]"
    by (simp add: demo_dash_def demo_input_def)
  have k: "ev_key ?e \<in> {key CHR ''x'', key CHR ''X''}" "is_enter 10" "\<forall>k\<in>set [258]. \<not> is_enter k \<and> \<not> is_cancel k" "10 \<in> closing_keys"
    by (simp_all add: is_enter_def is_cancel_def key_def)
  have log: "ds_log ?s = []" by (simp add: demo_dash_def)
  show ?thesis
    using kill_signals_chosen_row [OF input k(1) refl refl refl _ demo_rows, of "[258]" 10 "[]" 10 "[]" 10 0 "''42''" 42 1000 1000]
      k(2-4) log
    by (auto simp: demo_input_simps demo_world_simps demo_owner demo_pid demo_row_pid [simplified])
qed

lemma cancelled_kill_leaks_witness:
  "\<exists>t p. handle_process_kill_action (demo_dash [258, 27]) = Done () t \<and> ds_popups t = [p] \<and> ds_log t = []"
proof -
  let ?s = "demo_dash [258, 27]"
  have "os_cmd (dash_os ?s) ps_command = Some demo_ps" by (simp add: demo_dash_def dash_os_def dash_env_def demo_world_simps)
  note rows = demo_rows [OF this, of "th_sort (ds_shared ?s)"]
  have "ds_input ?s = demo_input [258, 27] @ []" "map ev_key (demo_input [258, 27]) = [258] @ [27]"
    by (simp_all add: demo_dash_def demo_input_def)
  moreover have "dw_newwin (ds_world ?s) g = Some g" for g by (simp add: demo_dash_def demo_world_simps)
  moreover have "is_cancel 27" "\<forall>k\<in>set [258]. \<not> is_enter k \<and> \<not> is_cancel k" by (simp_all add: is_enter_def is_cancel_def key_def)
  moreover have "ds_popups ?s = []" "ds_log ?s = []" by (simp_all add: demo_dash_def)
  ultimately show ?thesis using cancelled_kill_leaks [OF rows, of "demo_input [258, 27]" "[]" "[258]" 27] by auto
qed

end
