(* ===== verification/Dashboard.thy ===== *)
theory Dashboard
  imports DashSignals
begin

text \<open>
  What the keys of the dashboard in \<open>src/trfx_dashboard.c\<close> do, and that the dashboard always serves its user: it waits
  for nothing but keys, and after \<open>q\<close> it stops every thread and deletes every window; only the popups of cancelled
  choices stay.
\<close>

section \<open>The keys of the views\<close>

definition view_keys :: "(int \<times> TrfxSupportViewId) list" where
  "view_keys =
     [(key CHR ''o'', VIEW_CONNECTION_DETAIL), (key CHR ''O'', VIEW_CONNECTION_DETAIL), (key CHR ''d'', VIEW_BANDWIDTH),
      (key CHR ''D'', VIEW_BANDWIDTH), (key_enter, VIEW_BANDWIDTH), (key_newline, VIEW_BANDWIDTH),
      (key CHR ''a'', VIEW_ACTION_AUDIT), (key CHR ''A'', VIEW_ACTION_AUDIT), (key CHR ''g'', VIEW_DIAGNOSTICS),
      (key CHR ''G'', VIEW_DIAGNOSTICS), (key CHR ''n'', VIEW_ROUTE_DNS), (key CHR ''N'', VIEW_ROUTE_DNS),
      (key CHR ''v'', VIEW_NETWORK_HEALTH), (key CHR ''V'', VIEW_NETWORK_HEALTH)]"

lemma view_key_handler: "(ch, v) \<in> set view_keys \<Longrightarrow> handle_keypress ch = dmod (show_view v)"
  by (auto simp: view_keys_def handle_keypress_def key_def)

lemma view_spec_id: "trfx_support_view_by_id v = Some spec \<Longrightarrow> view_id spec = v"
  by (auto simp: trfx_support_view_by_id_def dest: find_Some_set)

text \<open>The keys of the views do what the help promises: each selects exactly the view of its name in the support
  column and asks for its refresh, and changes nothing else.\<close>

lemma view_keys_select:
  assumes "(ch, v) \<in> set view_keys"
  shows "\<exists>vs spec. handle_keypress ch s = Done () (s\<lparr>ds_shared := (ds_shared s)\<lparr>th_views := vs\<rparr>\<rparr>)
    \<and> trfx_support_view_selected vs = Some spec \<and> view_id spec = v \<and> refresh_requested vs = 1"
proof -
  obtain spec where s: "trfx_support_view_by_id v = Some spec" using view_by_id [of v] by blast
  let ?set = "trfx_support_view_set_selected_index (trfx_support_view_index_for_id v) (th_views (ds_shared s))"
  let ?vs = "trfx_support_view_request_refresh ?set"
  have "handle_keypress ch s = Done () (s\<lparr>ds_shared := (ds_shared s)\<lparr>th_views := ?vs\<rparr>\<rparr>)"
    using view_key_handler [OF assms] by (simp add: dmod_def show_view_def on_views_def on_shared_def)
  moreover have "trfx_support_view_selected ?vs = trfx_support_view_selected ?set"
    by (simp add: trfx_support_view_selected_def trfx_support_view_selected_index_def trfx_support_view_request_refresh_def)
  moreover have "refresh_requested ?vs = 1" by (simp add: trfx_support_view_request_refresh_def)
  ultimately show ?thesis using view_select_by_id [of v] view_spec_id [OF s] s by metis
qed

lemma view_keys_select_witness:
  "\<exists>vs spec. handle_keypress 118 (demo_dash []) = Done () ((demo_dash [])\<lparr>ds_shared := demo_thread\<lparr>th_views := vs\<rparr>\<rparr>)
    \<and> trfx_support_view_selected vs = Some spec \<and> view_id spec = VIEW_NETWORK_HEALTH"
proof -
  have "(118, VIEW_NETWORK_HEALTH) \<in> set view_keys" by (simp add: view_keys_def key_def)
  from view_keys_select [OF this, of "demo_dash []"] show ?thesis by (auto simp: demo_dash_def)
qed

section \<open>The dashboard serves its user\<close>

text \<open>
  A system on which the threads of the dashboard start and never take back a request to stop; then a dashboard in
  which the threads of the top row run, the slot has a module exactly when it has a thread, and a thread of the
  support column has its window.
\<close>

definition reliable_world :: "dash_world \<Rightarrow> bool" where
  "reliable_world w \<longleftrightarrow> (\<forall>x. dw_start w x = ThreadStarts) \<and> (\<forall>t. runtime_stops t \<longrightarrow> runtime_stops (dw_join w t))"

definition reliable :: "dash_state \<Rightarrow> bool" where
  "reliable s \<longleftrightarrow> reliable_world (ds_world s) \<and> list_all (\<lambda>e. reliable_world (ev_world e)) (ds_input s)"

definition slot_ok :: "WindowSlot \<Rightarrow> bool" where
  "slot_ok w \<longleftrightarrow> (sl_module_index w = -1 \<longleftrightarrow> sl_thread w = None) \<and> -1 \<le> sl_module_index w \<and> sl_module_index w < 5"

definition alive :: "dash_state \<Rightarrow> bool" where
  "alive s \<longleftrightarrow> reliable s \<and> ds_top_threads s = replicate 4 True \<and> (\<exists>w. ds_slots s = Some [w] \<and> slot_ok w)
     \<and> (ds_support_active s \<longrightarrow> ds_support_window s \<noteq> None)"

fun serves :: "dash_state \<Rightarrow> 'a dash_result \<Rightarrow> bool" where
  "serves s (Done a t) = (alive s \<longrightarrow> alive t)"
| "serves s (Waiting t) = (alive s \<longrightarrow> ds_input t = [])"
| "serves s (Exited t) = (\<not> alive s)"
| "serves s (Undefined t) = (\<not> alive s)"


lemma serves_ending [simp]: "serves s (ending m) = serves s m"
  by (cases m) simp_all






























section \<open>Changing the module\<close>

text \<open>C40. A cancelled change of the module leaves the pane dead: the thread that drew it is joined before the choice is
  offered, so after \<open>ESC\<close> the slot has its window but no thread and no module, and nothing is drawn there until a module
  is chosen.\<close>

theorem cancelled_module_leaves_pane_dead:
  assumes "ds_slots s = Some [w]" and "sl_thread w = Some f" and "sl_module_index w \<noteq> -1"
    and "\<And>g. dw_newwin (ds_world s) g = Some g" and "ds_input s = es @ rest"
    and "map ev_key es = ks @ [key_esc]" and "\<forall>k\<in>set ks. \<not> is_enter k \<and> k \<noteq> key_esc"
  shows "\<exists>t. change_window_module 0 s = Done () t \<and> ds_input t = rest
    \<and> ds_slots t = Some [w\<lparr>sl_stop := 1, sl_thread := None, sl_module_index := -1\<rparr>]"
proof -
  let ?w = "w\<lparr>sl_stop := 1, sl_thread := None, sl_module_index := -1\<rparr>"
  obtain s1 where s1: "stop_slot 0 s = Done () s1" "ds_slots s1 = Some [?w]" "ds_input s1 = es @ rest" "ds_world s1 = ds_world s"
    using assms(1-3,5) by (simp add: stop_slot_def join_slot_def dash_slot_def dbind_def dash_join_def dmod_def set_slot_def on_shared_def)
  let ?s2 = "on_runtime (trfx_runtime_set_paused 1) s1"
  have n: "length module_names = 5" by (simp add: module_names_def)
  define p where "p = popup_place ?s2 9 40"
  let ?s3 = "?s2\<lparr>ds_popups := ds_popups ?s2 @ [p]\<rparr>"
  have o: "open_popup p ?s2 = (Some p, ?s3)"
    using assms(4) s1(4) by (simp add: open_popup_def create_bordered_window_def on_runtime_def on_shared_def)
  have i: "ds_input ?s3 = es @ rest" using s1(3) by (simp add: on_runtime_def on_shared_def)
  have e: "is_enter k \<or> k = key_esc \<Longrightarrow> k \<noteq> key_up \<and> k \<noteq> key_down" for k by (auto simp: is_enter_def)
  have "\<not> is_enter key_esc" by (simp add: is_enter_def)
  then obtain t where t: "select_loop p (\<lambda>_. put_lines put_at 2 4 module_names (put_at 1 2 ''Select a module:'' (blank p)))
      (cycle_row 5) is_enter (\<lambda>ch. ch = key_esc) 0 ?s3 = Done None t" "has_read es ?s3 t"
    using select_loop_run [of is_enter "\<lambda>ch. ch = key_esc" key_esc ks 0 5 es ?s3 rest p
        "\<lambda>_. put_lines put_at 2 4 module_names (put_at 1 2 ''Select a module:'' (blank p))", OF e _ assms(7) _ assms(6) i]
    by auto
  let ?t = "resume_dashboard_after_popup (close_popup t)"
  have "select_module s1 = Done (-1) ?t"
    using t(1) by (simp add: select_module_def Let_def n dbind_def o flip: p_def)
  moreover have "ds_slots ?t = Some [?w]" "ds_input ?t = rest"
    using t(2) s1(2) i
    by (simp_all add: has_read_def step_defs resume_dashboard_after_popup_def close_popup_def
        on_runtime_def on_shared_def)
  ultimately show ?thesis using s1(1) by (simp add: change_window_module_def dbind_def dret_def)
qed

lemma cancelled_module_leaves_pane_dead_witness:
  "\<exists>t. change_window_module 0 ((demo_dash [258, 27])\<lparr>ds_slots := Some [zero_slot\<lparr>sl_thread := Some NETWORK_INFO_THREAD\<rparr>]\<rparr>)
      = Done () t \<and> ds_slots t = Some [zero_slot\<lparr>sl_stop := 1, sl_module_index := -1\<rparr>]"
proof -
  let ?w = "zero_slot\<lparr>sl_thread := Some NETWORK_INFO_THREAD\<rparr>"
  let ?s = "(demo_dash [258, 27])\<lparr>ds_slots := Some [?w]\<rparr>"
  have "ds_slots ?s = Some [?w]" "sl_thread ?w = Some NETWORK_INFO_THREAD" "sl_module_index ?w \<noteq> -1"
    by (simp_all add: zero_slot_def)
  moreover have "dw_newwin (ds_world ?s) g = Some g" for g by (simp add: demo_dash_def demo_world_def)
  moreover have "ds_input ?s = demo_input [258, 27] @ []" by (simp add: demo_dash_def)
  moreover have "map ev_key (demo_input [258, 27]) = [258] @ [key_esc]" by (simp add: demo_input_def)
  moreover have "\<forall>k\<in>set [258]. \<not> is_enter k \<and> k \<noteq> key_esc" by (simp add: is_enter_def)
  ultimately show ?thesis
    using cancelled_module_leaves_pane_dead [of ?s ?w NETWORK_INFO_THREAD "demo_input [258, 27]" "[]" "[258]"]
    by (auto simp: zero_slot_def)
qed

section \<open>A new size\<close>

lemma full_layout_places:
  assumes "secondary_visible lay \<noteq> 0" and "50 \<le> w" and "SHOW_TOP_PANELS cfg \<noteq> 0" and "l = full_layout cfg h w lay"
    and "p = primary_share lay w"
  shows "1 \<le> p" "p \<le> w" "p < w \<longleftrightarrow> 90 \<le> w"
    and "dl_row2_widths l = [p]" "dl_row2_y l = 11" "dl_row2_height l = h - 11" "dl_row1_height l = 11"
      "dl_row1_widths l = [w div 4, w div 5, w div 4, w - w div 4 - w div 5 - w div 4]"
      "secondary_width (dl_row2_geometry l) = w - p" "secondary_x (dl_row2_geometry l) = p"
      "geometry_secondary_visible (dl_row2_geometry l) \<noteq> 0 \<and> 0 < secondary_width (dl_row2_geometry l) \<longleftrightarrow> p < w"
proof -
  have vis: "layout_secondary_visible (Some lay) \<noteq> 0" using assms(1) by (simp add: layout_secondary_visible_def)
  have "1 \<le> p \<and> p \<le> w \<and> (90 \<le> w \<longrightarrow> p < w)" using primary_share_range [of w lay] assms(2,5) vis by simp
  moreover have "p = w" if "\<not> 90 \<le> w" using that assms(5) by (simp add: primary_share_def)
  ultimately show p: "1 \<le> p" "p \<le> w" "p < w \<longleftrightarrow> 90 \<le> w" by auto
  have top: "top_height cfg = 11" using assms(3) by (simp add: top_height_def fixed_row1_height_def)
  have l: "dl_row2_widths l = [p] \<and> dl_row2_y l = 11 \<and> dl_row2_height l = h - 11 \<and> dl_row1_height l = 11
      \<and> dl_row1_widths l = [w div 4, w div 5, w div 4, w - w div 4 - w div 5 - w div 4]
      \<and> secondary_width (dl_row2_geometry l) = w - p \<and> secondary_x (dl_row2_geometry l) = p
      \<and> (geometry_secondary_visible (dl_row2_geometry l) \<noteq> 0 \<longleftrightarrow> p < w)"
    using vis p by (simp add: assms(4,5) full_layout_def Let_def top)
  then show "dl_row2_widths l = [p]" "dl_row2_y l = 11" "dl_row2_height l = h - 11" "dl_row1_height l = 11"
    "dl_row1_widths l = [w div 4, w div 5, w div 4, w - w div 4 - w div 5 - w div 4]"
    "secondary_width (dl_row2_geometry l) = w - p" "secondary_x (dl_row2_geometry l) = p" by simp_all
  show "geometry_secondary_visible (dl_row2_geometry l) \<noteq> 0 \<and> 0 < secondary_width (dl_row2_geometry l) \<longleftrightarrow> p < w"
    using l by simp
qed

text \<open>The support column exists when the layout has room for it, at its place and with its thread.\<close>

lemma sync_support_column:
  assumes "ds_support_active s \<longleftrightarrow> ds_support_window s \<noteq> None" and "dw_start (ds_world s) SupportThread = ThreadStarts"
    and "\<And>g. dw_newwin (ds_world s) g = Some g"
    and "vis \<longleftrightarrow> geometry_secondary_visible (dl_row2_geometry l) \<noteq> 0 \<and> 0 < secondary_width (dl_row2_geometry l)"
  shows "\<exists>t. sync_support_window_geometry (Some l) s = Done () t \<and> ds_tops t = ds_tops s \<and> ds_slots t = ds_slots s
    \<and> ds_support_window t = (if vis then Some (place (dl_row2_height l) (secondary_width (dl_row2_geometry l)) (dl_row2_y l)
        (secondary_x (dl_row2_geometry l))) else None) \<and> (ds_support_active t \<longleftrightarrow> vis)"
proof (cases vis)
  case True
  then show ?thesis
    using assms
    by (cases "ds_support_window s") (simp_all add: sync_support_window_geometry_def Let_def create_bordered_window_def
        start_support_column_thread_def)
next
  case False
  then show ?thesis
    using assms
    by (cases "ds_support_window s") (auto simp: sync_support_window_geometry_def Let_def destroy_support_column_def
        join_support_def dbind_def        dash_join_def dmod_def on_shared_def)
qed

text \<open>C12. A resize puts every window to its place in the layout of the new size, and keeps the threads going: the four
  windows of the top row stand side by side over the whole width, the primary pane and the support column fill the
  rest of the screen, and the support column exists exactly when the screen is wide enough; a column that is new gets
  its thread, one that goes has its thread stopped. Then all panels are asked to draw again and no pause is left.\<close>

theorem resize_places_windows:
  assumes "dash_screen s = (h, w)" and "\<not> tui_size_is_too_small (dash_cfg s) h w" and "w < 2 ^ 31"
    and "SHOW_TOP_PANELS (dash_cfg s) \<noteq> 0" and "ds_tops s = [Some a, Some b, Some c, Some d]"
    and "ds_slots s = Some [sl]" and "sl_window sl \<noteq> None" and "secondary_visible (ds_layout s) \<noteq> 0"
    and "ds_support_active s \<longleftrightarrow> ds_support_window s \<noteq> None"
    and "dw_start (ds_world s) SupportThread = ThreadStarts" and "\<And>g. dw_newwin (ds_world s) g = Some g"
  shows "\<exists>t p. handle_keypress key_resize s = Done () t \<and> 1 \<le> p \<and> p \<le> w \<and> (p < w \<longleftrightarrow> 90 \<le> w)
    \<and> ds_tops t = map Some [place 11 (w div 4) 0 0, place 11 (w div 5) 0 (w div 4), place 11 (w div 4) 0 (w div 4 + w div 5),
        place 11 (w - w div 4 - w div 5 - w div 4) 0 (w div 4 + w div 5 + w div 4)]
    \<and> ds_slots t = Some [sl\<lparr>sl_window := Some (place (h - 11) p 11 0)\<rparr>]
    \<and> ds_support_window t = (if p < w then Some (place (h - 11) (w - p) 11 p) else None)
    \<and> (ds_support_active t \<longleftrightarrow> p < w)
    \<and> (\<exists>rt. th_runtime (ds_shared t) = trfx_runtime_set_paused 0 (trfx_runtime_request_static_refresh_all rt))"
proof -
  define p where "p = primary_share (ds_layout s) w"
  define l where "l = full_layout (dash_cfg s) h w (ds_layout s)"
  have "50 \<le> w" using assms(2) by (simp add: tui_size_is_too_small_def min_tui_width_def)
  note places = full_layout_places [OF assms(8) this assms(4) l_def p_def]
  have u: "build_dashboard_frame_update (dash_cfg s) (h, w) (ds_layout s) = (True, l)"
    unfolding l_def by (rule frame_update_fits [OF assms(2,3)])
  define tops where "tops = map Some [place 11 (w div 4) 0 0, place 11 (w div 5) 0 (w div 4),
    place 11 (w div 4) 0 (w div 4 + w div 5), place 11 (w - w div 4 - w div 5 - w div 4) 0 (w div 4 + w div 5 + w div 4)]"
  define slots where "slots = Some [sl\<lparr>sl_window := Some (place (h - 11) p 11 0)\<rparr>]"
  define s2 where "s2 = s\<lparr>ds_stdscr := \<lparr>win_h = h, win_w = w, win_out = []\<rparr>, ds_tops := tops, ds_slots := slots\<rparr>"
  have panes: "apply_primary_panes_geometry l [sl_window sl] = [Some (place (h - 11) p 11 0)]"
    using assms(7) by (auto simp: apply_primary_panes_geometry_def places)
  have tops: "apply_top_panel_geometry (dash_cfg s) l [Some a, Some b, Some c, Some d] = tops"
    using assms(4) by (simp add: apply_top_panel_geometry_def places tops_def)
  have "apply_dashboard_frame_update l (s\<lparr>ds_stdscr := \<lparr>win_h = h, win_w = w, win_out = []\<rparr>\<rparr>) = s2"
    using assms(5,6) panes tops by (simp add: apply_dashboard_frame_update_def dash_cfg_def s2_def slots_def)
  then have run: "handle_keypress key_resize s
      = dbind (sync_support_window_geometry (Some l)) (\<lambda>_. dmod request_dashboard_data_refresh) s2"
    using u assms(1) by (simp add: handle_keypress_def resize_dashboard_windows_def relayout_def)
  obtain t where t: "sync_support_window_geometry (Some l) s2 = Done () t" "ds_tops t = tops" "ds_slots t = slots"
    "ds_support_window t = (if p < w then Some (place (h - 11) (w - p) 11 p) else None)" "ds_support_active t \<longleftrightarrow> p < w"
    using sync_support_column [of s2 "p < w" l] assms(9-11) places by (auto simp: s2_def)
  have "handle_keypress key_resize s = Done () (request_dashboard_data_refresh t)"
    unfolding run by (simp add: dbind_def t(1) dmod_def)
  then show ?thesis
    using t(2-5) places(1-3) unfolding tops_def slots_def
    by (intro exI [of _ "request_dashboard_data_refresh t"] exI [of _ p])
      (simp add: request_dashboard_data_refresh_def on_runtime_def on_shared_def, blast)
qed

lemma resize_places_windows_witness:
  "\<exists>t p. handle_keypress key_resize ((demo_dash [])\<lparr>ds_tops := replicate 4 (Some (place 1 1 0 0)),
       ds_slots := Some [zero_slot\<lparr>sl_window := Some (place 1 1 0 0)\<rparr>],
       ds_layout := \<lparr>secondary_visible = 1, primary_width_percent = 70, secondary_width_percent = 30, secondary_state_index = 0\<rparr>\<rparr>)
     = Done () t \<and> p < 100 \<and> ds_support_window t = Some (place 19 (100 - p) 11 p)"
proof -
  let ?s = "(demo_dash [])\<lparr>ds_tops := replicate 4 (Some (place 1 1 0 0)),
       ds_slots := Some [zero_slot\<lparr>sl_window := Some (place 1 1 0 0)\<rparr>],
       ds_layout := \<lparr>secondary_visible = 1, primary_width_percent = 70, secondary_width_percent = 30, secondary_state_index = 0\<rparr>\<rparr>"
  have cfg: "dash_cfg ?s = config_default" by (simp add: dash_cfg_def demo_dash_def demo_thread_def)
  have "\<not> tui_size_is_too_small (dash_cfg ?s) 30 100" "SHOW_TOP_PANELS (dash_cfg ?s) \<noteq> 0"
    unfolding cfg by (simp_all add: tui_size_is_too_small_def config_default_def top_height_def fixed_row1_height_def
        min_tui_width_def min_row2_height_def)
  moreover have "dash_screen ?s = (30, 100)" by (simp add: dash_screen_def demo_dash_def demo_world_def)
  moreover have "ds_tops ?s = [Some (place 1 1 0 0), Some (place 1 1 0 0), Some (place 1 1 0 0), Some (place 1 1 0 0)]"
    by (simp add: numeral_eq_Suc)
  moreover have "ds_slots ?s = Some [zero_slot\<lparr>sl_window := Some (place 1 1 0 0)\<rparr>]"
    "sl_window (zero_slot\<lparr>sl_window := Some (place 1 1 0 0)\<rparr>) \<noteq> None" "secondary_visible (ds_layout ?s) \<noteq> 0"
    "ds_support_active ?s \<longleftrightarrow> ds_support_window ?s \<noteq> None" "dw_start (ds_world ?s) SupportThread = ThreadStarts"
    by (simp_all add: demo_dash_def demo_world_def)
  moreover have "dw_newwin (ds_world ?s) g = Some g" for g by (simp add: demo_dash_def demo_world_def)
  ultimately obtain t p where "handle_keypress key_resize ?s = Done () t" "p < (100 :: int) \<longleftrightarrow> 90 \<le> (100 :: int)"
    "ds_support_window t = (if p < 100 then Some (place (30 - 11) (100 - p) 11 p) else None)"
    using resize_places_windows [of ?s 30 100] by force
  then show ?thesis by (intro exI [of _ t] exI [of _ p]) simp
qed

end
