(* ===== verification/Program.thy ===== *)
theory Program
  imports Dashboard
begin

text \<open>
  The whole program: \<open>main\<close> of \<open>src/trafix.c\<close> with the dashboard that \<open>trfx_run_tui\<close> of \<open>src/trfx_app.c\<close> starts, from the
  static variables of all files to the exit code.
\<close>

section \<open>The start of the dashboard\<close>

text \<open>The shared state before the first thread runs; the window and the naps of \<open>thread_state\<close> belong to the threads.\<close>

definition shared_start :: "config \<Rightarrow> audit_log \<Rightarrow> thread_state" where
  "shared_start cfg au =
     \<lparr>th_runtime = runtime_state_init, th_cfg = cfg, th_sort = SORT_BY_MEM, th_views = support_view_state_init,
      th_bandwidth = bandwidth_state_start, th_connections = connection_focus_start, th_audit = au, th_mac = mac_start,
      th_samples = trfx_init_network_sample_buffer, th_stop = None, th_win = \<lparr>win_h = 0, win_w = 0, win_out = []\<rparr>, th_naps = []\<rparr>"

definition dash_start :: "dash_world \<Rightarrow> dash_event list \<Rightarrow> config \<Rightarrow> audit_log \<Rightarrow> dash_state" where
  "dash_start w es cfg au =
     \<lparr>ds_shared = shared_start cfg au, ds_world = w, ds_input = es, ds_keys = [], ds_log = [], ds_frames = [], ds_popups = [],
      ds_stdscr = \<lparr>win_h = fst (dw_screen w), win_w = snd (dw_screen w), win_out = []\<rparr>, ds_tops = [], ds_top_threads = [],
      ds_slots = None, ds_support_window = None, ds_support_active = False, ds_support_stop = 0,
      ds_layout = \<lparr>secondary_visible = 0, primary_width_percent = 0, secondary_width_percent = 0, secondary_state_index = 0\<rparr>,
      ds_colors = 0\<rparr>"

text \<open>A run with the keys and the system of the events \<open>es\<close>: the command, and the dashboard where there is one.\<close>

definition trafix_program ::
  "dash_world \<Rightarrow> dash_event list \<Rightarrow> string list \<Rightarrow> config \<Rightarrow> audit_log \<Rightarrow> app_run \<times> unit dash_result option" where
  "trafix_program w es argv cfg au =
     (let run = trafix_main (dw_app w) argv cfg au
      in (run, map_option (\<lambda>cfg'. start_dashboard (dash_start w es cfg' (rn_audit run))) (rn_dashboard run)))"

definition program_effects :: "app_run \<times> unit dash_result option \<Rightarrow> action_effect list" where
  "program_effects p =
     rn_effects (fst p)
     @ (case snd p of None \<Rightarrow> [] | Some r \<Rightarrow> concat (map ex_effects (ds_log (result_state r))))"

text \<open>The exit code, if the program ends: \<open>EXIT_FAILURE\<close> is 1, the code of \<open>TRFX_EXIT_ERROR\<close>.\<close>

definition program_exit :: "app_run \<times> unit dash_result option \<Rightarrow> TrfxExitCode option" where
  "program_exit p =
     (case snd p of None \<Rightarrow> Some (rn_exit (fst p)) | Some (Done _ _) \<Rightarrow> Some (rn_exit (fst p))
      | Some (Exited _) \<Rightarrow> Some TRFX_EXIT_ERROR | Some (Waiting _) \<Rightarrow> None | Some (Undefined _) \<Rightarrow> None)"

section \<open>What the program does to the outside\<close>

lemma dashboard_only_tui:
  assumes "rn_dashboard (trafix_main env argv cfg au) \<noteq> None"
  shows "co_mode (trfx_parse_cli argv) = TRFX_CLI_MODE_TUI \<and> rn_effects (trafix_main env argv cfg au) = []"
proof -
  have no: "rn_dashboard (trfx_run_interfaces_command env f au) = None" "rn_dashboard (trfx_run_connections_command env p au) = None"
    "rn_dashboard (trfx_run_listeners_command env f au) = None" "rn_dashboard (trfx_run_system_command env f au) = None"
    "rn_dashboard (trfx_run_diagnostics_command env p cfg au) = None" "rn_dashboard (plain_run x o' e au) = None"
    "rn_dashboard (trfx_run_kill_command env p au) = None" "rn_dashboard (trfx_run_drop_command env p au) = None"
    "rn_effects (trfx_run_tui env p cfg au) = []" for f p x o' e
    by (auto simp: trfx_run_interfaces_command_def trfx_run_connections_command_def trfx_run_listeners_command_def
        trfx_run_system_command_def trfx_run_diagnostics_command_def trfx_run_tui_def trfx_run_kill_command_def
        trfx_run_drop_command_def confirm_and_execute_def plain_run_def Let_def split: prod.splits option.splits)
  show ?thesis
    using assms by (cases "co_mode (trfx_parse_cli argv)") (auto simp: trafix_main_def Let_def no)
qed

lemma dash_start_simps: "ds_log (dash_start w es cfg au) = []" "all_keys (dash_start w es cfg au) = map ev_key es"
  by (simp_all add: dash_start_def all_keys_def)

lemma dashboard_effects:
  assumes "eff \<in> set (concat (map ex_effects (ds_log (result_state (start_dashboard (dash_start w es cfg au))))))"
  shows "\<exists>keys rest. map ev_key es = keys @ rest \<and> asked keys eff"
proof -
  obtain xs where "ds_log (result_state (start_dashboard (dash_start w es cfg au))) = xs"
    "list_all (\<lambda>x. action_allowed x \<and> (\<exists>rest. map ev_key es = ex_keys x @ rest)) xs"
    using start_dashboard_grows [of "dash_start w es cfg au"] by (auto simp: log_grows_def dash_start_simps)
  then obtain x rest where "eff \<in> set (ex_effects x)" "action_allowed x" "map ev_key es = ex_keys x @ rest"
    using assms by (auto simp: list_all_iff)
  then show ?thesis unfolding action_allowed_def by blast
qed

text \<open>C1. From the command line to the kernel: when a run of the program sends a signal or runs a command, the user has
  asked for exactly that. On the command line it was a \<open>kill\<close> command that names the process, or a \<open>drop\<close> command that
  names the two ends, confirmed by \<open>--yes\<close> or by \<open>y\<close> or \<open>Y\<close> typed at a terminal; the process existed and the user was
  root or its owner, or the user was root; nothing else was done, and for a signal the exit code is 0 exactly when the
  kernel accepted it. In the dashboard the keys of the action, of the choice and of the confirmation were pressed.
  No other command starts the dashboard or acts on the outside.\<close>

theorem program_acts_safely:
  assumes "eff \<in> set (program_effects p)" and "p = trafix_program w es argv cfg au"
    and "opt = trfx_parse_cli argv" and "env = dw_app w"
  shows "co_mode opt = TRFX_CLI_MODE_TUI \<and> rn_effects (fst p) = []
      \<and> (\<exists>before ch ks1 k1 ks2 k2 rest. map ev_key es = before @ [ch] @ ks1 @ [k1] @ ks2 @ [k2] @ rest
           \<and> ch \<in> (case eff of EffKill v sig \<Rightarrow> {key CHR ''x'', key CHR ''X''} | EffRun args \<Rightarrow> {key CHR ''z'', key CHR ''Z''})
           \<and> is_enter k1 \<and> is_enter k2 \<and> (\<forall>k\<in>set (ks1 @ ks2). \<not> is_enter k \<and> \<not> is_cancel k))
    \<or> program_effects p = [eff] \<and> (co_confirmed opt \<noteq> 0 \<or> ap_tty env \<and> ap_key env \<in> {121, 89})
      \<and> (case eff of
           EffKill v sig \<Rightarrow> co_mode opt = TRFX_CLI_MODE_KILL \<and> sig = sigterm
             \<and> parse_pid_value (Some (co_target_pid opt)) = Some v
             \<and> (\<exists>content uid. os_file (app_os env) (''/proc/'' @ co_target_pid opt @ ''/status'') = Some content
                  \<and> lookup_process_uid_file content = Some uid \<and> (ap_euid env = 0 \<or> ap_euid env = uid))
             \<and> (program_exit p = Some TRFX_EXIT_OK \<longleftrightarrow> ae_kill (ap_act env) v sigterm = 0)
         | EffRun args \<Rightarrow> co_mode opt = TRFX_CLI_MODE_DROP \<and> ap_euid env = 0
             \<and> (\<exists>rq. drop_request env opt = Some rq \<and> effect_allowed (ap_act env) 0 rq eff))"
proof (cases "rn_dashboard (trafix_main env argv cfg au)")
  case None
  then have p: "fst p = trafix_main env argv cfg au" "snd p = None" using assms(2,4) by (simp_all add: trafix_program_def Let_def)
  then have e: "program_effects p = rn_effects (trafix_main env argv cfg au)"
    "program_exit p = Some (rn_exit (trafix_main env argv cfg au))" by (simp_all add: program_effects_def program_exit_def)
  show ?thesis
    using command_acts [OF assms(1) [unfolded e] assms(3)] unfolding e option.inject by (intro disjI2) blast
next
  case (Some cfg')
  then have tui: "co_mode opt = TRFX_CLI_MODE_TUI" "rn_effects (trafix_main env argv cfg au) = []"
    using dashboard_only_tui [of env argv cfg au] assms(3) by simp_all
  have p: "fst p = trafix_main env argv cfg au"
    "snd p = Some (start_dashboard (dash_start w es cfg' (rn_audit (trafix_main env argv cfg au))))"
    using Some assms(2,4) by (simp_all add: trafix_program_def Let_def)
  have "eff \<in> set (concat (map ex_effects (ds_log (result_state
      (start_dashboard (dash_start w es cfg' (rn_audit (trafix_main env argv cfg au))))))))"
    using assms(1) unfolding program_effects_def p tui option.case append_Nil .
  from dashboard_effects [OF this] obtain keys rest where k: "map ev_key es = keys @ rest" "asked keys eff" by blast
  then obtain before ch ks1 k1 ks2 k2 where "map ev_key es = before @ [ch] @ ks1 @ [k1] @ ks2 @ [k2] @ rest"
    "ch \<in> action_keys eff" "is_enter k1" "is_enter k2" "\<forall>k\<in>set (ks1 @ ks2). \<not> is_enter k \<and> \<not> is_cancel k"
    by (auto simp: asked_def)
  moreover have "action_keys eff
      = (case eff of EffKill v sig \<Rightarrow> {key CHR ''x'', key CHR ''X''} | EffRun args \<Rightarrow> {key CHR ''z'', key CHR ''Z''})"
    by (cases eff) simp_all
  ultimately show ?thesis using tui p(1) by (intro disjI1) metis
qed

lemma program_acts_safely_witness:
  "program_exit (trafix_program (demo_world\<lparr>dw_app := demo_app\<rparr>) [] [''trafix'', ''kill'', ''42'', ''--yes''] config_default
     audit_start) = Some TRFX_EXIT_OK"
proof -
  let ?argv = "[''trafix'', ''kill'', ''42'', ''--yes'']" and ?w = "demo_world\<lparr>dw_app := demo_app\<rparr>"
  let ?run = "trafix_main demo_app ?argv config_default audit_start"
  have "rn_dashboard ?run = None"
    using dashboard_only_tui [of demo_app ?argv config_default audit_start] unfolding demo_main_effects by blast
  then have p: "trafix_program ?w [] ?argv config_default audit_start = (?run, None)" by (simp add: trafix_program_def Let_def)
  have "EffKill 42 15 \<in> set (program_effects (?run, None))" by (simp add: program_effects_def demo_main_effects)
  from program_acts_safely [OF this p [symmetric] refl refl] show ?thesis
    unfolding p by (auto simp: program_effects_def demo_main_effects demo_app_def demo_env_def)
qed

end
