(* ===== verification/PanelViews.thy ===== *)
theory PanelViews
  imports PanelText Diagnostics
begin

text \<open>
  The drawing functions of the dynamic panels of \<open>src/trfx_threads.c\<close>: the views of the support panel and the
  parts of the network panel. A drawing is a window and the next row. The pointers that the functions compare with
  \<open>NULL\<close> are addresses of locals in every call, so these tests do not appear; attributes and colours do not either.
\<close>

type_synonym drawing = "window \<times> int"

section \<open>Printing a row\<close>

text \<open>\<open>trfx_print_clipped(win, (*row)++, col, text)\<close>, alone and under the test for room, and \<open>mvwprintw\<close>.\<close>

definition put :: "int \<Rightarrow> string \<Rightarrow> drawing \<Rightarrow> drawing" where
  "put col t d = (trfx_print_clipped (fst d) (snd d) col (Some t), snd d + 1)"

definition put_room :: "int \<Rightarrow> int \<Rightarrow> string \<Rightarrow> drawing \<Rightarrow> drawing" where
  "put_room max_lines col t d = (if panel_has_room (snd d) max_lines then put col t d else d)"

definition put_raw :: "int \<Rightarrow> string \<Rightarrow> drawing \<Rightarrow> drawing" where
  "put_raw col t d = (mvwprintw (fst d) (snd d) col t, snd d + 1)"

definition put_empty_state :: "string \<Rightarrow> drawing \<Rightarrow> drawing" where
  "put_empty_state t d = (trfx_print_empty_state (fst d) (Some t), snd d)"

text \<open>An error text is printed when there is one.\<close>

definition put_error :: "string \<Rightarrow> drawing \<Rightarrow> drawing" where
  "put_error error = (if error \<noteq> [] then put 2 error else id)"

text \<open>A loop that prints one row per text while there is room.\<close>

definition put_rows :: "int \<Rightarrow> int \<Rightarrow> string list \<Rightarrow> drawing \<Rightarrow> drawing" where
  "put_rows max_lines col ts = fold (put_room max_lines col) ts"

section \<open>The views of the support panel\<close>

definition render_support_view_header :: "support_view_state \<Rightarrow> int \<Rightarrow> drawing \<Rightarrow> drawing" where
  "render_support_view_header vs max_lines =
     (case trfx_support_view_selected vs of None \<Rightarrow> id
      | Some v \<Rightarrow> put_room max_lines 2 (fit 256 (''View: '' @ view_title v)))"

definition log_line_texts :: "TrfxDiagnosticsLogSnapshot \<Rightarrow> string list" where
  "log_line_texts logs =
     concat (map (\<lambda>i. case trfx_diagnostics_log_at (Some logs) i of None \<Rightarrow> []
                  | Some e \<Rightarrow> [fit 384 (''['' @ ll_source e @ ''] '' @ ll_text e)])
              [0..<trfx_diagnostics_log_count (Some logs)])"

definition render_support_log_lines :: "TrfxDiagnosticsLogSnapshot \<Rightarrow> int \<Rightarrow> drawing \<Rightarrow> drawing" where
  "render_support_log_lines logs max_lines =
     (if trfx_diagnostics_log_count (Some logs) = 0 then put_empty_state ''No readable log lines available''
      else put_rows max_lines 2 (log_line_texts logs))"

text \<open>The line of alerts: \<open>strncat\<close> into a buffer of 384 bytes.\<close>

definition alerts_line :: "TrfxAlertSummary \<Rightarrow> string" where
  "alerts_line alerts =
     (let start = fit 384 ''Alerts: ''
      in if trfx_diagnostics_alert_count (Some alerts) = 0 then cat_fit 384 start ''none''
         else foldl (\<lambda>b i. case trfx_diagnostics_alert_at (Some alerts) i of None \<Rightarrow> b
                       | Some a \<Rightarrow> cat_fit 384 (if 0 < i then cat_fit 384 b ''; '' else b) a)
                start [0..<trfx_diagnostics_alert_count (Some alerts)])"

definition present :: "bool \<Rightarrow> string" where
  "present b = (if b then ''present'' else ''missing'')"

definition ok_missing :: "bool \<Rightarrow> string" where
  "ok_missing b = (if b then ''ok'' else ''missing'')"

definition has_route :: "TrfxDiagnosticsSnapshot \<Rightarrow> bool" where
  "has_route s \<longleftrightarrow> rs_has_default (sn_route (dg_network s)) \<noteq> 0"

definition has_dns :: "TrfxDiagnosticsSnapshot \<Rightarrow> bool" where
  "has_dns s \<longleftrightarrow> 0 < length (ds_servers (sn_dns (dg_network s)))"

definition has_active :: "TrfxDiagnosticsSnapshot \<Rightarrow> bool" where
  "has_active s \<longleftrightarrow> sn_has_active_interface (dg_network s)"

definition render_support_overview_view ::
  "TrfxDiagnosticsSnapshot \<Rightarrow> TrfxAlertSummary \<Rightarrow> TrfxCollectorStatus \<Rightarrow> string \<Rightarrow> int \<Rightarrow> drawing \<Rightarrow> drawing" where
  "render_support_overview_view s alerts status error max_lines d =
     (let health_line = fit 256 (''Status: '' @ (if status = TRFX_COLLECTOR_OK then ''ok'' else ''partial'')
            @ '' | route '' @ ok_missing (has_route s) @ '' | DNS '' @ ok_missing (has_dns s)
            @ '' | active '' @ ok_missing (has_active s) @ '' | VPN '' @ ok_missing (sn_has_vpn_interface (dg_network s)));
          d1 = put_error error (put 2 (alerts_line alerts) (put 2 health_line d))
      in render_support_log_lines (dg_logs s) max_lines (put_room max_lines 2 ''Recent logs:'' d1))"

definition render_support_logs_view :: "TrfxDiagnosticsSnapshot \<Rightarrow> string \<Rightarrow> int \<Rightarrow> drawing \<Rightarrow> drawing" where
  "render_support_logs_view s error max_lines d =
     (let header = fit 256 (''Log source: '' @ (case lg_lines (dg_logs s) of [] \<Rightarrow> ''logs'' | l # _ \<Rightarrow> ll_source l))
      in render_support_log_lines (dg_logs s) max_lines (put_error error (put 2 header d)))"

definition alert_texts :: "TrfxAlertSummary \<Rightarrow> string list" where
  "alert_texts alerts =
     concat (map (\<lambda>i. case trfx_diagnostics_alert_at (Some alerts) i of None \<Rightarrow> [] | Some a \<Rightarrow> [a])
              [0..<trfx_diagnostics_alert_count (Some alerts)])"

definition render_support_diagnostics_view ::
  "TrfxDiagnosticsSnapshot \<Rightarrow> TrfxAlertSummary \<Rightarrow> string \<Rightarrow> int \<Rightarrow> drawing \<Rightarrow> drawing" where
  "render_support_diagnostics_view s alerts error max_lines d =
     (let d1 = put 2 (fit 256 (''Active interface: '' @ present (has_active s)))
                 (put 2 (fit 256 (''DNS: '' @ present (has_dns s)))
                   (put 2 (fit 256 (''Route: '' @ present (has_route s))) d));
          d2 = (if trfx_diagnostics_alert_count (Some alerts) = 0 then put 2 ''Alerts: none'' d1
                else put_rows max_lines 2 (alert_texts alerts) d1)
      in render_support_log_lines (dg_logs s) max_lines
           (put_room max_lines 2 ''Recent logs:'' (put_error error d2)))"

definition render_support_route_dns_view :: "TrfxDiagnosticsSnapshot \<Rightarrow> string \<Rightarrow> drawing \<Rightarrow> drawing" where
  "render_support_route_dns_view s error d =
     (let net = dg_network s; servers = ds_servers (sn_dns net);
          route_line = (if has_route s
            then fit 256 (''Route: default via '' @ rs_gateway (sn_route net) @ '' dev '' @ rs_interface (sn_route net)
                   @ '' metric '' @ rs_metric (sn_route net))
            else fit 256 ''Route: unavailable'');
          dns_line = (if 0 < length servers then fit 256 (dns_found 192 servers) else fit 256 ''DNS: unavailable'');
          active_line = (if has_active s
            then fit 256 (''Active: '' @ sn_active_interface net @ '' ('' @ sn_active_type net @ '') | IP: ''
                   @ sn_active_ip net @ '' | MAC: '' @ or_na (sn_active_mac net))
            else fit 256 ''Active: unavailable'');
          vpn_line = format_network_vpn_line net 256
      in put_error error (put 2 vpn_line (put 2 active_line (put 2 dns_line (put 2 route_line d)))))"

text \<open>A number that need not be finite: \<open>nan\<close> is what the C library prints otherwise.\<close>

definition real_text :: "string \<Rightarrow> nat \<Rightarrow> rat option \<Rightarrow> string" where
  "real_text nan k v = (case v of Some x \<Rightarrow> fmt_fixed k x | None \<Rightarrow> nan)"

definition render_support_network_health_view ::
  "string \<Rightarrow> TrfxDiagnosticsSnapshot \<Rightarrow> int \<Rightarrow> drawing \<Rightarrow> drawing" where
  "render_support_network_health_view nan s max_lines d =
     (let cpu_line = fit 256 (''CPU: avg '' @ real_text nan 1 (cpu_avg_usage (dg_cpu s)) @ ''% | temp ''
            @ fmt_fixed 1 (cpu_temperature (dg_cpu s)) @ ''C | cores '' @ show_int (cpu_num_cores (dg_cpu s)));
          m = dg_memory s;
          memory_line = fit 256 (''Memory: '' @ fmt_fixed 1 (mi_mem_percent m) @ ''% | RAM '' @ show_int (mi_used_ram m)
            @ ''/'' @ show_int (mi_total_ram m) @ '' | SWAP '' @ show_int (mi_used_swap m) @ ''/''
            @ show_int (mi_total_swap m));
          disk_line = fit 256 (''Disk: '' @ show_nat (length (dg_disks s)) @ '' mounts | ''
            @ fmt_fixed 1 (dg_disk_total_used_mb s) @ ''/'' @ fmt_fixed 1 (dg_disk_total_mb s) @ '' MB used'');
          ps = pr_processes (dg_processes s);
          process_line = fit 256 (''Process pressure: '' @ show_nat (length ps) @ '' collected | top ''
            @ (case ps of [] \<Rightarrow> ''unavailable'' | p # _ \<Rightarrow> pi_command p));
          network_line = (if has_route s \<and> has_dns s \<and> has_active s
            then fit 256 ''Network: route, DNS, and active interface present''
            else fit 256 (''Network: route '' @ ok_missing (has_route s) @ '' | DNS '' @ ok_missing (has_dns s)
                   @ '' | active '' @ ok_missing (has_active s)));
          d1 = put 2 process_line (put 2 disk_line (put 2 memory_line (put 2 cpu_line (put 2 network_line d))))
      in render_support_log_lines (dg_logs s) max_lines (put_room max_lines 2 ''Recent logs:'' d1))"

text \<open>\<open>trfx_clip_text\<close> into a label of \<open>n\<close> bytes.\<close>

definition clip_label :: "nat \<Rightarrow> string \<Rightarrow> string" where
  "clip_label n t = the (trfx_clip_text (Some t) (Some []) n (int n - 1))"

definition rate_text :: "rat \<Rightarrow> string" where
  "rate_text x = trfx_format_net_bytes x 32"

definition bandwidth_flow_line :: "nat \<Rightarrow> TrfxBandwidthFlow \<Rightarrow> string" where
  "bandwidth_flow_line i flow =
     fit 256 (show_nat (i + 1) @ ''. '' @ clip_label 32 (or_text (bf_label flow) ''flow'')
       @ '' | '' @ clip_label 48 (or_text (bf_local flow) ''-'')
       @ '' -> '' @ clip_label 48 (or_text (bf_remote flow) ''-'')
       @ '' | rx '' @ rate_text (bf_rx_bytes_per_sec flow) @ ''/s | tx '' @ rate_text (bf_tx_bytes_per_sec flow) @ ''/s'')"

definition render_support_bandwidth_view ::
  "TrfxNetworkSampleBuffer \<Rightarrow> TrfxBandwidthReport \<Rightarrow> TrfxBandwidthTrend \<Rightarrow> string \<Rightarrow> string \<Rightarrow> int \<Rightarrow> drawing \<Rightarrow> drawing"
  where
  "render_support_bandwidth_view samples report trend bandwidth_error trend_error max_lines d =
     (let d1 = put 2 (fit 256 (''Mode: '' @ trfx_bandwidth_mode_name (br_mode report) @ '' | Source: ''
                 @ or_text (br_source report) ''unknown'')) d;
          d2 = (if 0 < length (br_interface_rates report)
                then put 2 (fit 256 (''Totals: rx '' @ rate_text (sum_interface_rate (br_interface_rates report) True)
                       @ ''/s | tx '' @ rate_text (sum_interface_rate (br_interface_rates report) False) @ ''/s'')) d1
                else put 2 ''Totals: unavailable'' d1);
          d3 = (if length (br_flows report) = 0 then put 2 ''No measured bandwidth flows'' d2
                else put_rows max_lines 2
                  (map (\<lambda>i. bandwidth_flow_line i (br_flows report ! i)) [0..<nat (visible_flows report)]) d2);
          points = bt_points trend;
          d4 = (if 0 < length points
                then put 2 (fit 256 (''Trend: '' @ show_nat (length points) @ '' points | latest rx ''
                       @ rate_text (tp_rx_bytes_per_sec (last points)) @ ''/s | tx ''
                       @ rate_text (tp_tx_bytes_per_sec (last points)) @ ''/s'')) d3
                else put 2 ''Trend: unavailable'' d3);
          d5 = put_error trend_error (put_error bandwidth_error d4);
          n = trfx_network_sample_buffer_count (Some samples)
      in if 0 < n
         then (case trfx_network_sample_buffer_at (Some samples) (n - 1) of None \<Rightarrow> d5
               | Some latest \<Rightarrow>
                   put 2 (fit 256 (''Latest sample: connections '' @ show_nat (length (sn_connections (sm_snapshot latest)))
                     @ '' | owners '' @ show_nat (length (sn_socket_owners (sm_snapshot latest)))
                     @ '' | interfaces '' @ show_nat (length (isr_stats (sn_interfaces (sm_snapshot latest)))))) d5)
         else d5)"

definition render_support_connection_view ::
  "TrfxConnectionSummaryResult \<Rightarrow> TrfxBandwidthReport option \<Rightarrow> int \<Rightarrow> drawing \<Rightarrow> drawing" where
  "render_support_connection_view connections bandwidth_report focus_index d =
     (if csr_count connections \<le> 0 then put_empty_state ''No visible connections'' d
      else (let f0 = (if focus_index < 0 then 0 else focus_index);
                f = (if csr_count connections \<le> f0 then csr_count connections - 1 else f0);
                c = csr_rows connections ! nat f;
                flow = (case bandwidth_report of None \<Rightarrow> None
                        | Some r \<Rightarrow> List.find (flow_matches c) (br_flows r));
                owner_line = (if cs_has_owner c
                  then fit 256 (''Owner: UID '' @ or_text (cs_uid c) ''-'' @ '' | PID '' @ or_text (cs_pid c) ''-''
                         @ '' | '' @ or_text (cs_process c) ''-'')
                  else fit 256 ''Owner: unavailable for this connection'');
                activity_line = (case flow of
                    Some fw \<Rightarrow> fit 256 (''Activity: top flow | rx '' @ rate_text (bf_rx_bytes_per_sec fw) @ ''/s | tx ''
                                 @ rate_text (bf_tx_bytes_per_sec fw) @ ''/s'')
                  | None \<Rightarrow> fit 256 ''Activity: not among measured top flows'')
            in put 2 activity_line (put 2 owner_line
                 (put 2 (fit 256 (''Remote: '' @ tui_endpoint 64 (cs_remote_endpoint c)))
                   (put 2 (fit 256 (''Local: '' @ tui_endpoint 64 (cs_local_endpoint c)))
                     (put 2 (fit 256 (''Proto: '' @ or_text (cs_protocol c) ''-'' @ '' | State: ''
                                @ or_text (cs_state c) ''-''))
                       (put 2 (fit 256 (''Selection: '' @ show_int (f + 1) @ ''/'' @ show_int (csr_count connections))) d)))))))"

definition audit_texts :: "clock \<Rightarrow> audit_log \<Rightarrow> string list" where
  "audit_texts clock au =
     concat (map (\<lambda>i. case trfx_action_audit_at au i of None \<Rightarrow> []
                  | Some e \<Rightarrow> [fit 384 (format_support_time clock (aa_when e) 32 @ '' | ''
                        @ trfx_action_kind_name (ar_kind (aa_request e)) @ '' | ''
                        @ trfx_action_target_kind_name (at_kind (ar_target (aa_request e))) @ '' | '' @ aa_message e)])
              [0..<trfx_action_audit_count au])"

definition render_support_action_audit_view :: "clock \<Rightarrow> audit_log \<Rightarrow> int \<Rightarrow> drawing \<Rightarrow> drawing" where
  "render_support_action_audit_view clock au max_lines =
     (if trfx_action_audit_count au = 0 then put 2 ''No recorded actions yet.''
      else put_rows max_lines 2 (audit_texts clock au))"

section \<open>The parts of the connection and network panels\<close>

definition render_connection_group_summary ::
  "TrfxConnectionSummaryResult \<Rightarrow> int \<Rightarrow> int \<Rightarrow> drawing \<Rightarrow> drawing" where
  "render_connection_group_summary connections col max_lines =
     put_room max_lines col (connection_group_summary (csr_rows connections))"

definition render_network_summary :: "TrfxNetworkSnapshot \<Rightarrow> int \<Rightarrow> int \<Rightarrow> drawing \<Rightarrow> drawing" where
  "render_network_summary s col max_lines =
     put_rows max_lines col [format_network_route_line s 512, format_network_dns_line s 512,
       format_network_active_line s 512, format_network_public_ip_line s 512, format_network_vpn_line s 512]"

definition render_route_consistency_summary :: "TrfxNetworkSnapshot \<Rightarrow> int \<Rightarrow> int \<Rightarrow> drawing \<Rightarrow> drawing" where
  "render_route_consistency_summary s col max_lines =
     put_room max_lines col (trfx_format_route_consistency_summary s 256)"

definition render_network_health_summary :: "TrfxNetworkSnapshot \<Rightarrow> int \<Rightarrow> int \<Rightarrow> drawing \<Rightarrow> drawing" where
  "render_network_health_summary s col max_lines = put_room max_lines col (trfx_format_network_health_line s 256)"

definition render_overview_section_title :: "int \<Rightarrow> int \<Rightarrow> string \<Rightarrow> drawing \<Rightarrow> drawing" where
  "render_overview_section_title col max_lines title d =
     (if \<not> panel_has_room (snd d) max_lines then d else put col title d)"

definition render_bandwidth_talkers_summary ::
  "int \<Rightarrow> TrfxBandwidthReport \<Rightarrow> int \<Rightarrow> int \<Rightarrow> drawing \<Rightarrow> drawing" where
  "render_bandwidth_talkers_summary selected_index report col max_lines d =
     (if \<not> panel_has_room (snd d) max_lines then d
      else (let d1 = put_raw col (''Top talkers ('' @ trfx_bandwidth_mode_name (br_mode report) @ ''):'') d
            in if br_mode report = TRFX_BW_MODE_UNSUPPORTED \<or> br_flows report = []
               then put_room max_lines col (fit 256 (''Bandwidth: '' @ br_source report)) d1
               else put_rows max_lines col
                 (map (\<lambda>i. talker_line selected_index i (br_flows report ! i)) [0..<min (length (br_flows report)) 3]) d1))"

definition render_bandwidth_history_summary ::
  "clock \<Rightarrow> TrfxBandwidthTrend \<Rightarrow> int \<Rightarrow> int \<Rightarrow> drawing \<Rightarrow> drawing" where
  "render_bandwidth_history_summary clock trend col max_lines d =
     (if \<not> panel_has_room (snd d) max_lines then d
      else (let d1 = put_raw col ''Recent trend:'' d
            in if length (bt_points trend) \<le> 0
               then put_room max_lines col (fit 256 (''Trend: '' @ bt_source trend)) d1
               else put_rows max_lines col (map (history_line clock) (rev (bt_points trend))) d1))"

definition interface_table_header :: string where
  "interface_table_header = fit 256 (pad_right 12 ''Interface'' @ '' '' @ pad_right 8 ''State'' @ '' ''
     @ pad_right 8 ''Carrier'' @ '' '' @ pad_right 36 ''Address'' @ '' '' @ pad_left 10 ''Rx/s'' @ '' ''
     @ pad_left 10 ''Tx/s'')"

definition render_interface_status_table ::
  "TrfxNetworkSnapshot \<Rightarrow> TrfxBandwidthReport option \<Rightarrow> int \<Rightarrow> int \<Rightarrow> drawing \<Rightarrow> drawing" where
  "render_interface_status_table s report col max_lines d =
     (let d1 = render_overview_section_title col max_lines ''Interfaces'' d
      in if \<not> panel_has_room (snd d1) max_lines then d1
         else (let d2 = put col interface_table_header d1
               in if length (sr_items (sn_interface_statuses s)) \<le> 0
                  then put_empty_state ''No interface status data available'' d2
                  else put_rows max_lines col
                    (map (\<lambda>st. format_interface_status_row st (find_interface_rate report (Some (st_name st))) 256)
                      (sorted_interfaces s)) d2))"

definition render_bandwidth_totals_summary :: "TrfxBandwidthReport \<Rightarrow> int \<Rightarrow> int \<Rightarrow> drawing \<Rightarrow> drawing" where
  "render_bandwidth_totals_summary report col max_lines =
     (if length (br_interface_rates report) \<le> 0 then put_room max_lines col ''Traffic: unavailable''
      else put_room max_lines col (traffic_summary report))"

section \<open>What reaches the window\<close>

text \<open>\<open>drawn A win d\<close>: the drawing went on from the window below its top border, and every new text is strictly
  between the borders or belongs to \<open>A\<close>; a drawing function keeps that.\<close>

definition drawn :: "(int \<times> int \<times> string) set \<Rightarrow> window \<Rightarrow> drawing \<Rightarrow> bool" where
  "drawn A win d \<longleftrightarrow> win_h (fst d) = win_h win \<and> win_w (fst d) = win_w win \<and> 1 \<le> snd d
     \<and> (\<forall>p\<in>set (win_out (fst d)). p \<in> set (win_out win) \<or> text_inside win p \<or> p \<in> A)"

definition draws_inside :: "(int \<times> int \<times> string) set \<Rightarrow> window \<Rightarrow> (drawing \<Rightarrow> drawing) \<Rightarrow> bool" where
  "draws_inside A win f \<longleftrightarrow> (\<forall>d. drawn A win d \<longrightarrow> drawn A win (f d))"

lemma drawn_adds:
  assumes "drawn A win d" and "adds_inside (fst d) v" and "1 \<le> r"
  shows "drawn A win (v, r)"
  using assms text_inside_size [of "fst d" win] by (auto simp: drawn_def adds_inside_def)

lemma inside_id [inv_intros]: "draws_inside A win id"
  by (simp add: draws_inside_def)

lemma inside_put [inv_intros]: "draws_inside A win (put col t)"
  unfolding draws_inside_def
proof (intro allI impI)
  fix d assume d: "drawn A win d"
  then have "1 \<le> snd d" by (simp add: drawn_def)
  then show "drawn A win (put col t d)"
    unfolding put_def by (intro drawn_adds [OF d] print_clipped_inside) simp_all
qed

lemma inside_put_room [inv_intros]: "draws_inside A win (put_room m col t)"
  using inside_put [of A win col t] by (simp add: draws_inside_def put_room_def del: split_paired_All)

lemma inside_empty_state [inv_intros]: "draws_inside A win (put_empty_state t)"
  unfolding draws_inside_def
proof (intro allI impI)
  fix d assume d: "drawn A win d"
  then have "1 \<le> snd d" by (simp add: drawn_def)
  then show "drawn A win (put_empty_state t d)"
    unfolding put_empty_state_def by (intro drawn_adds [OF d] print_empty_state_inside)
qed

lemma inside_error [inv_intros]: "draws_inside A win (put_error e)"
  by (simp add: put_error_def inside_put inside_id)

text \<open>A text printed without clipping, where the row is above the bottom border.\<close>

lemma inside_raw:
  assumes "\<And>y. 1 \<le> y \<Longrightarrow> y < m \<Longrightarrow> text_inside win (y, col, t) \<or> (y, col, t) \<in> A"
  shows "draws_inside A win (\<lambda>d. if b \<and> panel_has_room (snd d) m then put_raw col t d else d)"
  using assms
  by (fastforce simp: draws_inside_def drawn_def put_raw_def panel_has_room_def)

lemma inside_comp: "draws_inside A win f \<Longrightarrow> draws_inside A win g \<Longrightarrow> draws_inside A win (\<lambda>d. f (g d))"
  by (simp add: draws_inside_def del: split_paired_All)

lemma inside_self [inv_intros]: "draws_inside A win (\<lambda>d. d)"
  by (simp add: draws_inside_def)

lemma inside_rows [inv_intros]: "draws_inside A win (put_rows m col ts)"
proof (induction ts)
  case (Cons t ts)
  then show ?case using inside_comp [OF Cons.IH inside_put_room [of A win m col t]] by (simp add: put_rows_def comp_def)
qed (simp add: put_rows_def inside_self)

lemma inside_if: "draws_inside A win f \<Longrightarrow> draws_inside A win g \<Longrightarrow> draws_inside A win (\<lambda>d. if b d then f d else g d)"
  by (simp add: draws_inside_def del: split_paired_All)

lemmas inside_intros = inv_intros inside_comp [OF inside_put] inside_comp [OF inside_put_room]
  inside_comp [OF inside_empty_state] inside_comp [OF inside_error] inside_comp [OF inside_rows] inside_if

lemma inside_log_lines [inv_intros]: "draws_inside A win (render_support_log_lines logs m)"
  by (simp add: render_support_log_lines_def inside_rows inside_empty_state)

lemma inside_header [inv_intros]: "draws_inside A win (render_support_view_header vs m)"
  by (auto simp: render_support_view_header_def intro!: inv_intros split: option.splits)

lemma inside_overview [inv_intros]: "draws_inside A win (render_support_overview_view s al st e m)"
  unfolding render_support_overview_view_def Let_def by (intro inside_intros inside_comp [OF inside_log_lines])

lemma inside_logs [inv_intros]: "draws_inside A win (render_support_logs_view s e m)"
  unfolding render_support_logs_view_def Let_def by (intro inside_intros inside_comp [OF inside_log_lines])

lemma inside_diagnostics [inv_intros]: "draws_inside A win (render_support_diagnostics_view s al e m)"
  unfolding render_support_diagnostics_view_def Let_def
  by (cases "trfx_diagnostics_alert_count (Some al) = 0"; simp only: if_True if_False;
      intro inside_intros inside_comp [OF inside_log_lines])

lemma inside_route_dns [inv_intros]: "draws_inside A win (render_support_route_dns_view s e)"
  unfolding render_support_route_dns_view_def Let_def by (intro inside_intros)

lemma inside_health [inv_intros]: "draws_inside A win (render_support_network_health_view nan s m)"
  unfolding render_support_network_health_view_def Let_def by (intro inside_intros inside_comp [OF inside_log_lines])

lemma inside_case_sample:
  "draws_inside A win f \<Longrightarrow> (\<And>x. draws_inside A win (g x)) \<Longrightarrow> draws_inside A win (\<lambda>d. case z of None \<Rightarrow> f d | Some x \<Rightarrow> g x d)"
  by (cases z) simp_all

lemma inside_bandwidth [inv_intros]: "draws_inside A win (render_support_bandwidth_view b r tr be te m)"
  unfolding render_support_bandwidth_view_def Let_def
  by (intro inside_intros inside_case_sample inside_if; intro inside_intros inside_if)

lemma inside_connection [inv_intros]: "draws_inside A win (render_support_connection_view c r f)"
  unfolding render_support_connection_view_def Let_def by (intro inside_intros)

lemma inside_audit [inv_intros]: "draws_inside A win (render_support_action_audit_view clock au m)"
  by (simp add: render_support_action_audit_view_def inside_rows inside_put)
section \<open>Rows\<close>

definition clipped :: "window \<Rightarrow> int \<Rightarrow> string \<Rightarrow> string" where
  "clipped win col t = take (min 1023 (nat (win_w win - col - 1))) t"

lemma upt_0_Suc: "[0..<Suc n] = 0 # map Suc [0..<n]"
  by (simp add: map_Suc_upt upt_conv_Cons del: upt_Suc)

text \<open>A loop of rows prints one text per row, down to the last row above the border.\<close>

lemma put_rows_exact:
  assumes "1 \<le> col" and "col < win_w win - 1" and "0 \<le> row" and "win_h win - 1 \<le> m"
  shows "win_out (fst (put_rows m col ts (win, row))) = win_out win @
    map (\<lambda>i. (row + int i, col, clipped win col (ts ! i))) [0..<min (length ts) (nat (win_h win - 1 - row))]"
  using assms
proof (induction ts arbitrary: win row)
  case Nil
  then show ?case by (simp add: put_rows_def)
next
  case (Cons t ts)
  have step: "put_rows m col (t # ts) (win, row) = put_rows m col ts (put_room m col t (win, row))"
    by (simp add: put_rows_def)
  show ?case
  proof (cases "row < win_h win - 1")
    case True
    let ?v = "mvwprintw win row col (clipped win col t)"
    have "put_room m col t (win, row) = (?v, row + 1)"
      using True Cons.prems
      by (simp add: put_room_def put_def panel_has_room_def trfx_print_clipped_def clip_text_Some clipped_def)
    moreover have "win_out ?v = win_out win @ [(row, col, clipped win col t)]" by (simp add: mvwprintw_def)
    moreover have "nat (win_h win - 1 - row) = Suc (nat (win_h win - 1 - (row + 1)))"
      using True by arith
    then have "[0..<min (length (t # ts)) (nat (win_h win - 1 - row))] =
        0 # map Suc [0..<min (length ts) (nat (win_h win - 1 - (row + 1)))]"
      by (simp add: upt_0_Suc del: upt_Suc)
    ultimately show ?thesis
      unfolding step using Cons.IH [of ?v "row + 1"] Cons.prems
      by (simp add: clipped_def ac_simps)
  next
    case False
    have "fst (put_room m col t (win, row)) = win"
      using False by (simp add: put_room_def put_def trfx_print_clipped_def)
    moreover have "row \<le> snd (put_room m col t (win, row))" by (simp add: put_room_def put_def)
    ultimately obtain r where "put_room m col t (win, row) = (win, r)" "row \<le> r"
      by (cases "put_room m col t (win, row)") simp
    then show ?thesis unfolding step using Cons.IH [of win r] Cons.prems False by simp
  qed
qed

lemma put_visible:
  assumes "1 \<le> col" and "col < win_w win - 1" and "0 \<le> row" and "row < win_h win - 1"
  shows "put col t (win, row) = (mvwprintw win row col (clipped win col t), row + 1)"
  using assms by (simp add: put_def trfx_print_clipped_def clip_text_Some clipped_def)

definition log_text :: "TrfxDiagnosticsLogLine \<Rightarrow> string" where
  "log_text e = fit 384 (''['' @ ll_source e @ ''] '' @ ll_text e)"

lemma log_line_texts_rev: "log_line_texts logs = map log_text (rev (lg_lines logs))"
proof -
  let ?n = "length (lg_lines logs)"
  have "log_line_texts logs = concat (map (\<lambda>i. [log_text (rev (lg_lines logs) ! i)]) [0..<?n])"
    unfolding log_line_texts_def
    by (intro arg_cong [where f = concat] map_cong)
      (auto simp: trfx_diagnostics_log_count_def trfx_diagnostics_log_at_def log_text_def rev_nth)
  also have "\<dots> = map log_text (map (\<lambda>i. rev (lg_lines logs) ! i) [0..<length (rev (lg_lines logs))])"
    by (simp add: concat_map_singleton)
  finally show ?thesis unfolding map_nth .
qed

text \<open>C23. The log view of the support panel shows its source and below it, one per row and newest first, the collected log
  lines that fit above the lower border, each clipped at the right border.\<close>

theorem support_logs_shown:
  assumes "lg_lines (dg_logs s) \<noteq> []" and "0 \<le> row" and "row < win_h win - 1" and "3 < win_w win"
    and "win_h win \<le> max_lines"
  shows "win_out (fst (render_support_logs_view s [] max_lines (win, row))) = win_out win
    @ (row, 2, clipped win 2 (fit 256 (''Log source: '' @ ll_source (hd (lg_lines (dg_logs s))))))
    # map (\<lambda>i. (row + 1 + int i, 2, clipped win 2 (map log_text (rev (lg_lines (dg_logs s))) ! i)))
        [0..<min (length (lg_lines (dg_logs s))) (nat (win_h win - row - 2))]"
proof -
  let ?h = "clipped win 2 (fit 256 (''Log source: '' @ ll_source (hd (lg_lines (dg_logs s)))))"
  let ?v = "mvwprintw win row 2 ?h"
  have "render_support_logs_view s [] max_lines (win, row) =
      put_rows max_lines 2 (map log_text (rev (lg_lines (dg_logs s)))) (?v, row + 1)"
    using assms put_visible [of 2 win row]
    by (cases "lg_lines (dg_logs s)")
      (simp_all add: render_support_logs_view_def put_error_def render_support_log_lines_def
        trfx_diagnostics_log_count_def log_line_texts_rev)
  moreover have "win_out (fst (put_rows max_lines 2 (map log_text (rev (lg_lines (dg_logs s)))) (?v, row + 1))) =
      win_out ?v @ map (\<lambda>i. (row + 1 + int i, 2, clipped ?v 2 (map log_text (rev (lg_lines (dg_logs s))) ! i)))
        [0..<min (length (map log_text (rev (lg_lines (dg_logs s))))) (nat (win_h ?v - 1 - (row + 1)))]"
    using assms by (intro put_rows_exact) simp_all
  moreover have "win_h ?v - 1 - (row + 1) = win_h win - row - 2" by simp
  moreover have "clipped ?v = clipped win" by (simp add: clipped_def fun_eq_iff)
  ultimately show ?thesis by (auto simp: mvwprintw_def)
qed
definition demo_logs :: TrfxDiagnosticsSnapshot where
  "demo_logs = trfx_init_diagnostics_snapshot
     \<lparr>dg_logs := \<lparr>lg_status = TRFX_COLLECTOR_OK, lg_error = [],
        lg_lines = [\<lparr>ll_source = ''a'', ll_text = ''one''\<rparr>, \<lparr>ll_source = ''a'', ll_text = ''two''\<rparr>,
                    \<lparr>ll_source = ''a'', ll_text = ''three''\<rparr>]\<rparr>\<rparr>"

text \<open>In a window of seven rows the two newest lines fit below the header in row 3.\<close>

lemma support_logs_shown_witness:
  "win_out (fst (render_support_logs_view demo_logs [] 7 (\<lparr>win_h = 7, win_w = 12, win_out = []\<rparr>, 3))) =
     [(3, 2, ''Log sourc''), (4, 2, ''[a] three''), (5, 2, ''[a] two'')]"
proof -
  have two: "[0..<2] = [0, 1 :: nat]" by (simp add: upt_rec)
  show ?thesis
    by (subst support_logs_shown)
      (simp_all add: demo_logs_def clipped_def log_text_def two eval_nat_numeral)
qed

end
