(* ===== verification/PanelFrames.thy ===== *)
theory PanelFrames
  imports PanelViews
begin

text \<open>
  The threads of \<open>src/trfx_threads.c\<close>: for each panel the frame it draws, the decision of one round of its loop
  (paused, hidden, too small, or a frame) and the loop until a stop is requested. What a thread reads from the
  system after \<open>k\<close> naps is \<open>seen k\<close>. Each frame is drawn under the mutex of the library, so it is one step.
  Borders, colours and attributes are not kept: a window is its size and the texts printed into it.
\<close>

record panel_obs =
  po_diag :: diag_env
  po_now :: int
  po_clock :: clock
  po_nan :: string

type_synonym seen = "nat \<Rightarrow> panel_obs"

definition obs_now :: "seen \<Rightarrow> thread_state \<Rightarrow> panel_obs" where
  "obs_now seen s = seen (length (th_naps s))"

text \<open>\<open>trfx_clear_window_content\<close> on a window that exists; the box is drawn with its border, outside the content.\<close>

definition cleared :: "window \<Rightarrow> window" where
  "cleared win = the (trfx_clear_window_content (Some win))"

definition put_raws :: "int \<Rightarrow> string list \<Rightarrow> drawing \<Rightarrow> drawing" where
  "put_raws col ts = fold (put_raw col) ts"

section \<open>The panels of the top row\<close>

definition system_info_frame :: "SystemOverview \<Rightarrow> window \<Rightarrow> window" where
  "system_info_frame sysinfo win =
     fst (put_raws 2 (map (\<lambda>(label, t). pad_left 16 label @ '': '' @ t)
       [(''Hostname'', ov_hostname sysinfo), (''OS'', ov_os_version sysinfo), (''Kernel'', ov_kernel_version sysinfo),
        (''Uptime'', ov_uptime sysinfo), (''Load Avg'', ov_load_avg sysinfo),
        (''Logged-in Users'', ov_logged_in_users sysinfo)]) (cleared win, 1))"

text \<open>The bar of a core. A usage that is not a number has no bar.\<close>

definition cpu_bar_width :: nat where "cpu_bar_width = 16"

definition cpu_bar :: "rat option \<Rightarrow> string" where
  "cpu_bar usage =
     (let filled = (case usage of None \<Rightarrow> 0 | Some u \<Rightarrow> c_trunc (dbl (dbl (u / 100) * of_nat cpu_bar_width)))
      in map (\<lambda>j. if int j < filled then CHR ''='' else CHR '' '') [0..<cpu_bar_width])"

definition degree_sign :: string where "degree_sign = [CHR 0xC2, CHR 0xB0]"

definition cpu_core_row :: "string \<Rightarrow> CPUInfo \<Rightarrow> nat \<Rightarrow> string" where
  "cpu_core_row nan cpu i =
     ''C'' @ pad_right 2 (show_nat i) @ '' ['' @ cpu_bar (cpu_usage_per_core cpu ! i) @ ''] ''
     @ pad_left 5 (real_text nan 1 (cpu_usage_per_core cpu ! i)) @ ''%  ''
     @ pad_left 4 (fmt_fixed 0 (cpu_frequency_per_core cpu ! i)) @ '' MHz''"

definition raw_room :: "int \<Rightarrow> int \<Rightarrow> string \<Rightarrow> drawing \<Rightarrow> drawing" where
  "raw_room limit col t d = (if snd d < limit then put_raw col t d else d)"

definition cpu_info_frame :: "string \<Rightarrow> CPUInfo \<Rightarrow> window \<Rightarrow> window" where
  "cpu_info_frame nan cpu win =
     (let limit = win_h win - 1;
          d1 = raw_room limit 3 '' CPU Information '' (cleared win, 0);
          d2 = raw_room limit 3 (''Average: '' @ real_text nan 1 (cpu_avg_usage cpu) @ ''% Temperature: ''
                 @ fmt_fixed 1 (cpu_temperature cpu) @ '' '' @ degree_sign @ ''C'') d1
      in fst (fold (raw_room limit 3) (map (cpu_core_row nan cpu) [0..<nat (cpu_num_cores cpu)]) d2))"

text \<open>\<open>n / 1024.0f\<close>\<close>

definition kb_to_mb :: "int \<Rightarrow> rat" where
  "kb_to_mb n = flt (flt (of_int n) / 1024)"

definition memory_row :: "string \<Rightarrow> string \<Rightarrow> string \<Rightarrow> string \<Rightarrow> string" where
  "memory_row a b c d = pad_right 10 a @ '' '' @ pad_left 10 b @ '' '' @ pad_left 10 c @ '' '' @ pad_left 10 d"

definition memory_info_frame :: "MemoryInfo \<Rightarrow> window \<Rightarrow> window" where
  "memory_info_frame mem win =
     (let mb = (\<lambda>n. format_bytes (kb_to_mb n) 16)
      in fst (put_raw 2 (''RAM used: '' @ fmt_fixed 1 (mi_mem_percent mem) @ ''%'')
           (put_raws 3 [memory_row ''Type'' ''Total'' ''Used'' ''Free'',
               memory_row ''RAM'' (mb (mi_total_ram mem)) (mb (mi_used_ram mem)) (mb (mi_free_ram mem)),
               memory_row ''Swap'' (mb (mi_total_swap mem)) (mb (mi_used_swap mem)) ''-'']
             (put_raw 2 '' Memory Usage '' (cleared win, 0)))))"

text \<open>\<open>%.*s\<close> with an \<open>int\<close>: a negative precision is none.\<close>

definition precision :: "int \<Rightarrow> string \<Rightarrow> string" where
  "precision p t = (if p < 0 then t else take (nat p) t)"

definition disk_row_text :: "DiskInfo \<Rightarrow> string" where
  "disk_row_text d =
     fit 256 (column 10 (di_mount_point d) @ '' '' @ column 24 (di_filesystem d) @ '' ''
       @ pad_left 8 (format_bytes (di_total_mb d) 16) @ '' '' @ pad_left 8 (format_bytes (di_used_mb d) 16) @ ''  ''
       @ pad_left 5 (fmt_fixed 1 (di_usage_percent d)) @ ''%'')"

definition disk_total_text :: "rat \<Rightarrow> rat \<Rightarrow> string" where
  "disk_total_text total_used total_total =
     fit 256 (pad_right 10 ''Total'' @ '' '' @ pad_right 24 ''-'' @ '' '' @ pad_left 8 (format_bytes total_total 16) @ '' ''
       @ pad_left 8 (format_bytes total_used 16) @ ''  ''
       @ pad_left 5 (fmt_fixed 1 (dbl (dbl (total_used / total_total) * 100))) @ ''%'')"

definition disk_info_frame :: "DiskInfo list \<Rightarrow> rat \<Rightarrow> rat \<Rightarrow> window \<Rightarrow> window" where
  "disk_info_frame disks total_used total_total win =
     (let usable_width = win_w win - 5; h = win_h win;
          d1 = put_raws 2 [precision usable_width '' Disk Information '',
                 precision usable_width ''Mount      Filesystem                  Total    Used    Usage''] (cleared win, 0);
          d2 = fold (\<lambda>k d. if di_total_mb k \<le> 0 then d
                           else raw_room (h - 2) 2 (precision usable_width (disk_row_text k)) d) disks d1
      in fst (if snd d2 < h - 1 \<and> 0 < total_total
              then put_raw 2 (precision usable_width (disk_total_text total_used total_total)) d2 else d2))"

definition help_text :: "string list" where
  "help_text = [''[1-3] Switch Panel'', ''[s] Sort Processes'', ''[r] Refresh'', ''[c] Columns'', ''[p] Pause'',
     ''[q] Quit'', ''edit /etc/trafix/config.cfg to customize all settings.'']"

definition help_info_frame :: "window \<Rightarrow> window" where
  "help_info_frame win =
     fold (\<lambda>(row, col, t) v. mvwprintw v row col t)
       ([(1, 2, '' Hotkeys:''), (1, 22, help_text ! 0), (1, 47, help_text ! 1), (1, 72, help_text ! 2),
         (2, 22, help_text ! 3), (2, 47, help_text ! 4), (2, 72, help_text ! 5), (2, 147, help_text ! 6)])
       (cleared win)"

section \<open>The process panels\<close>

definition process_header :: string where
  "process_header = ''  PID    USER      PR  NI    VIRT    RES      SHR S   %%CPU %%MEM   TIME+     COMMAND               ''"

definition process_row :: "ProcessInfo \<Rightarrow> string" where
  "process_row p =
     fit 1024 (pad_left 7 (take 7 (pi_pid p)) @ '' '' @ column 10 (pi_user p) @ '' '' @ pad_left 2 (take 2 (pi_pr p)) @ '' ''
       @ pad_left 2 (take 2 (pi_ni p)) @ '' '' @ pad_left 8 (take 8 (pi_virt p)) @ '' '' @ pad_left 7 (take 7 (pi_res p)) @ '' ''
       @ pad_left 7 (take 7 (pi_shr p)) @ '' '' @ pad_left 1 (take 1 (pi_state p)) @ '' '' @ pad_left 5 (take 5 (pi_cpu p))
       @ '' '' @ pad_left 5 (take 5 (pi_mem p)) @ '' '' @ pad_left 10 (take 10 (pi_time p)) @ '' '' @ column 20 (pi_command p))"

definition process_compact_header :: string where
  "process_compact_header = ''  PID    USER        %CPU  %MEM   COMMAND''"

definition process_compact_row :: "ProcessInfo \<Rightarrow> string" where
  "process_compact_row p =
     fit 1024 (pad_left 7 (take 7 (pi_pid p)) @ '' '' @ column 10 (pi_user p) @ '' '' @ pad_left 5 (take 5 (pi_cpu p)) @ '' ''
       @ pad_left 5 (take 5 (pi_mem p)) @ '' '' @ column 20 (pi_command p))"

text \<open>Both process panels, with their header and row.\<close>

definition process_frame :: "string \<Rightarrow> (ProcessInfo \<Rightarrow> string) \<Rightarrow> TrfxProcessResult \<Rightarrow> window \<Rightarrow> window" where
  "process_frame header row_text ps win =
     (let d1 = put 1 header (put_raw 2 '' Processes '' (cleared win, 0));
          d2 = (if pr_status ps \<noteq> TRFX_PROCESS_COLLECTOR_OK
                then put_empty_state (or_text (pr_error ps) ''Process data unavailable'') d1
                else if pr_processes ps = [] then put_empty_state ''No process rows available'' d1 else d1)
      in fst (put_rows (win_h win - 2) 1 (map row_text (pr_processes ps)) d2))"

definition too_small_frame :: "window \<Rightarrow> window" where
  "too_small_frame win = mvwprintw (cleared win) 1 2 ''Window too small''"

section \<open>The connection and socket panels\<close>

definition connection_header :: "int \<Rightarrow> string" where
  "connection_header panel_width =
     (let inner = panel_inner_width panel_width; ew = connection_endpoint_width inner
      in fit 256 (pad_right 6 ''Proto'' @ '' '' @ pad_right ew ''Local'' @ '' '' @ pad_right ew ''Remote'' @ '' ''
           @ pad_right 13 ''State'' @ '' '' @ pad_right 7 ''UID'' @ '' '' @ pad_right (connection_user_width inner) ''User''
           @ '' '' @ pad_right 7 ''PID'' @ '' '' @ pad_right (connection_process_width inner) ''Process''))"

definition marked_connection_row :: "TrfxBandwidthReport \<Rightarrow> int \<Rightarrow> TrfxConnectionSummary \<Rightarrow> string" where
  "marked_connection_row report panel_width c =
     (let marker = (if connection_find_hot_flow (Some c) (Some report) \<noteq> None then CHR ''*''
                    else if cs_has_owner c then CHR '' '' else CHR ''!'')
      in fit 320 (marker # '' '' @ format_connection_summary_row c panel_width 256))"

definition connection_info_frame ::
  "TrfxCollectorStatus \<Rightarrow> TrfxNetworkSnapshot \<Rightarrow> string \<Rightarrow> TrfxConnectionSummaryResult \<Rightarrow> string \<Rightarrow> TrfxBandwidthReport
    \<Rightarrow> window \<Rightarrow> window" where
  "connection_info_frame snapshot_status snapshot snapshot_error connections connection_error report win =
     (let room = win_h win - 1; pw = win_w win;
          d1 = put 2 (format_connection_summary snapshot 256) (mvwprintw (cleared win) 0 2 '' Connections '', 1);
          d2 = put_rows room 2 [''Order: ESTABLISHED first, LISTEN/UNCONN next, other states last'',
                 ''Marked rows: * measured top flow | ! unowned''] (render_connection_group_summary connections 2 room d1);
          d3 = put 2 (connection_header pw) d2;
          d4 = (if snapshot_status \<noteq> TRFX_COLLECTOR_OK \<and> snapshot_error \<noteq> [] \<and> panel_has_room (snd d3) room
                then put_raw 2 (''Connection snapshot: '' @ snapshot_error) d3 else d3);
          d5 = (if csr_rows connections = []
                then put_empty_state (or_text connection_error ''No connection rows available'') d4 else d4)
      in fst (put_rows room 2 (map (marked_connection_row report pw) (csr_rows connections)) d5))"

definition socket_header :: "int \<Rightarrow> string" where
  "socket_header panel_width =
     (let inner = panel_inner_width panel_width; ew = socket_endpoint_width inner
      in fit 128 (pad_right 6 ''Proto'' @ '' '' @ pad_right 7 ''UID'' @ '' '' @ pad_right 7 ''PID'' @ '' ''
           @ pad_right (socket_process_width inner) ''Process'' @ '' '' @ pad_right ew ''Local'' @ '' ''
           @ pad_right ew ''Remote''))"

definition socket_owner_info_frame :: "TrfxCollectorStatus \<Rightarrow> TrfxNetworkSnapshot \<Rightarrow> string \<Rightarrow> window \<Rightarrow> window" where
  "socket_owner_info_frame snapshot_status snapshot snapshot_error win =
     (let room = win_h win - 1; pw = win_w win;
          owned = filter (\<lambda>c. panel_connection_has_owner (Some c)) (sn_connections snapshot);
          summary = fit 256 (''Owned sockets: '' @ show_nat (length (sn_socket_owners snapshot)) @ '' | Connections: ''
                      @ show_nat (length (sn_connections snapshot)));
          d1 = put 2 (socket_header pw) (put 2 summary (mvwprintw (cleared win) 0 2 '' Socket Inventory '', 1));
          d2 = (if snapshot_status \<noteq> TRFX_COLLECTOR_OK \<and> snapshot_error \<noteq> [] \<and> panel_has_room (snd d1) room
                then put_raw 2 (''Socket snapshot: '' @ snapshot_error) d1 else d1);
          d3 = (if owned = [] then put_empty_state ''No owned sockets visible'' d2 else d2)
      in fst (put_rows room 2 (map (\<lambda>c. format_socket_inventory_line c pw 256) owned) d3))"

section \<open>The support and network panels\<close>

definition support_view_body ::
  "panel_obs \<Rightarrow> thread_state \<Rightarrow> TrfxDiagnosticsSnapshot \<Rightarrow> TrfxAlertSummary \<Rightarrow> TrfxCollectorStatus \<Rightarrow> string
    \<Rightarrow> TrfxBandwidthReport \<Rightarrow> TrfxBandwidthTrend \<Rightarrow> string \<Rightarrow> string \<Rightarrow> TrfxConnectionSummaryResult \<Rightarrow> int \<Rightarrow> int
    \<Rightarrow> drawing \<Rightarrow> drawing" where
  "support_view_body obs s snapshot alerts status error report trend bandwidth_error trend_error connections focus m =
     (case trfx_support_view_id_at (trfx_support_view_selected_index (th_views s)) of
        VIEW_LOGS \<Rightarrow> render_support_logs_view snapshot error m
      | VIEW_DIAGNOSTICS \<Rightarrow> render_support_diagnostics_view snapshot alerts error m
      | VIEW_ROUTE_DNS \<Rightarrow> render_support_route_dns_view snapshot error
      | VIEW_NETWORK_HEALTH \<Rightarrow> render_support_network_health_view (po_nan obs) snapshot m
      | VIEW_BANDWIDTH \<Rightarrow> render_support_bandwidth_view (th_samples s) report trend bandwidth_error trend_error m
      | VIEW_CONNECTION_DETAIL \<Rightarrow> render_support_connection_view connections (Some report) focus
      | VIEW_ACTION_AUDIT \<Rightarrow> render_support_action_audit_view (po_clock obs) (th_audit s) m
      | VIEW_OVERVIEW \<Rightarrow> render_support_overview_view snapshot alerts status error m)"

text \<open>The title, the name of the view after an empty row, and another empty row.\<close>

definition skip_row :: "int \<Rightarrow> drawing \<Rightarrow> drawing" where
  "skip_row m d = (if panel_has_room (snd d) m then (fst d, snd d + 1) else d)"

definition support_panel_top :: "support_view_state \<Rightarrow> int \<Rightarrow> window \<Rightarrow> drawing" where
  "support_panel_top vs m win =
     (let d1 = put_raw 2 '' Support Panel '' (cleared win, 0);
          d2 = (if panel_has_room (snd d1) m then render_support_view_header vs m (fst d1, snd d1 + 1) else d1)
      in skip_row m d2)"

definition network_info_frame ::
  "clock \<Rightarrow> int \<Rightarrow> TrfxCollectorStatus \<Rightarrow> TrfxNetworkSnapshot \<Rightarrow> string \<Rightarrow> TrfxBandwidthReport \<Rightarrow> string
    \<Rightarrow> TrfxBandwidthTrend \<Rightarrow> string \<Rightarrow> window \<Rightarrow> window" where
  "network_info_frame clock selected snapshot_status s snapshot_error report bandwidth_error trend trend_error win =
     (let m = win_h win - 1;
          d1 = put_raw 2 '' Network Overview '' (cleared win, 0);
          d2 = skip_row m (render_network_summary s 4 m (render_overview_section_title 4 m ''Path'' d1));
          d3 = skip_row m (render_network_health_summary s 4 m (render_route_consistency_summary s 4 m
                 (render_overview_section_title 4 m ''Health'' d2)));
          d4 = skip_row m (render_interface_status_table s (Some report) 4 m d3);
          d5 = skip_row m (render_bandwidth_totals_summary report 4 m (render_overview_section_title 4 m ''Traffic'' d4));
          d6 = skip_row m (render_bandwidth_talkers_summary selected report 4 m d5);
          d7 = render_bandwidth_history_summary clock trend 4 m d6;
          d8 = (if snapshot_status \<noteq> TRFX_COLLECTOR_OK \<and> snapshot_error \<noteq> [] \<and> panel_has_room (snd d7) m
                then put_raw 4 (''Network snapshot: '' @ snapshot_error) d7 else d7);
          d9 = (if bandwidth_error \<noteq> [] \<and> panel_has_room (snd d8) m
                then put_raw 4 (''Bandwidth: '' @ bandwidth_error) d8 else d8)
      in fst (if trend_error \<noteq> [] \<and> length (bt_points trend) \<le> 0 \<and> panel_has_room (snd d9) m
              then put_raw 4 (''Trend: '' @ trend_error) d9 else d9))"

section \<open>One round of each thread\<close>

definition draw :: "(window \<Rightarrow> window) \<Rightarrow> thread_state \<Rightarrow> thread_state" where
  "draw f s = s\<lparr>th_win := f (th_win s)\<rparr>"

text \<open>The four static panels are hidden with the top row; each waits for a refresh of its module.\<close>

definition static_round :: "others \<Rightarrow> int \<Rightarrow> (thread_state \<Rightarrow> thread_state) \<Rightarrow> thread_state \<Rightarrow> thread_state" where
  "static_round others m frame s =
     (if trfx_runtime_is_paused (th_runtime s) \<noteq> 0
      then snd (trfx_thread_sleep_ms others (TUI_PAUSE_INTERVAL_MS (th_cfg s)) s)
      else if SHOW_TOP_PANELS (th_cfg s) = 0
      then snd (trfx_thread_sleep_ms others (TUI_REFRESH_INTERVAL_MS (th_cfg s)) s)
      else snd (trfx_wait_for_static_refresh others m (TUI_REFRESH_INTERVAL_MS (th_cfg (frame s))) (frame s)))"

definition system_info_round :: "others \<Rightarrow> seen \<Rightarrow> thread_state \<Rightarrow> thread_state" where
  "system_info_round others seen = static_round others 0
     (\<lambda>s. draw (system_info_frame (get_system_overview (de_sys (po_diag (obs_now seen s))))) s)"

definition cpu_info_round :: "others \<Rightarrow> seen \<Rightarrow> thread_state \<Rightarrow> thread_state" where
  "cpu_info_round others seen = static_round others 1
     (\<lambda>s. let obs = obs_now seen s; env = po_diag obs
          in draw (cpu_info_frame (po_nan obs)
               (get_cpu_info (ne_os (de_net env)) (de_stat_junk env) (de_stat1 env) (de_stat2 env))) s)"

definition memory_info_round :: "others \<Rightarrow> seen \<Rightarrow> thread_state \<Rightarrow> thread_state" where
  "memory_info_round others seen = static_round others 2
     (\<lambda>s. draw (memory_info_frame (get_memory_info (ne_os (de_net (po_diag (obs_now seen s)))))) s)"

definition disk_info_round :: "others \<Rightarrow> seen \<Rightarrow> thread_state \<Rightarrow> thread_state" where
  "disk_info_round others seen = static_round others 3
     (\<lambda>s. case get_disk_info (de_sys (po_diag (obs_now seen s))) max_disks (0, 0) of
            (disks, used, tot) \<Rightarrow> draw (disk_info_frame disks used tot) s)"

text \<open>The dynamic panels: the pause, then the frame with its wait.\<close>

definition dynamic_round :: "others \<Rightarrow> (thread_state \<Rightarrow> thread_state) \<Rightarrow> thread_state \<Rightarrow> thread_state" where
  "dynamic_round others frame s =
     (if trfx_runtime_is_paused (th_runtime s) \<noteq> 0
      then snd (trfx_dynamic_thread_sleep_ms others (TUI_PAUSE_INTERVAL_MS (th_cfg s)) s) else frame s)"

definition refresh_sleep :: "others \<Rightarrow> thread_state \<Rightarrow> thread_state" where
  "refresh_sleep others s = snd (trfx_dynamic_thread_sleep_ms others (TUI_REFRESH_INTERVAL_MS (th_cfg s)) s)"

definition refresh_view_wait :: "others \<Rightarrow> thread_state \<Rightarrow> thread_state" where
  "refresh_view_wait others s = view_wait_loop others (TUI_REFRESH_INTERVAL_MS (th_cfg s)) 0 s"

definition small_sleep :: "others \<Rightarrow> thread_state \<Rightarrow> thread_state" where
  "small_sleep others s = snd (trfx_dynamic_thread_sleep_ms others (TUI_SMALL_PANEL_REFRESH_MS (th_cfg s)) s)"

definition process_info_round :: "others \<Rightarrow> seen \<Rightarrow> thread_state \<Rightarrow> thread_state" where
  "process_info_round others seen = dynamic_round others
     (\<lambda>s. if win_h (th_win s) < 5 then small_sleep others (draw too_small_frame s)
          else refresh_view_wait others (draw (process_frame process_header process_row
                 (trfx_collect_processes (ne_os (de_net (po_diag (obs_now seen s)))) (th_sort s))) s))"

definition process_compact_info_round :: "others \<Rightarrow> seen \<Rightarrow> thread_state \<Rightarrow> thread_state" where
  "process_compact_info_round others seen = dynamic_round others
     (\<lambda>s. if win_h (th_win s) < 5 then small_sleep others (draw too_small_frame s)
          else refresh_sleep others (draw (process_frame process_compact_header process_compact_row
                 (trfx_collect_processes (ne_os (de_net (po_diag (obs_now seen s)))) (th_sort s))) s))"

text \<open>The network snapshot of a frame, with its error text and the static hardware address.\<close>

definition frame_snapshot ::
  "panel_obs \<Rightarrow> thread_state \<Rightarrow> TrfxCollectorStatus \<times> TrfxNetworkSnapshot \<times> string \<times> thread_state" where
  "frame_snapshot obs s =
     (case trfx_collect_network_snapshot (de_net (po_diag obs)) (de_junk (po_diag obs))
             (Some trfx_init_network_snapshot) (Some []) 128 (th_mac s) of
        (status, snapshot, error, mac) \<Rightarrow> (status, the snapshot, the error, s\<lparr>th_mac := mac\<rparr>))"

definition connection_info_round :: "others \<Rightarrow> seen \<Rightarrow> thread_state \<Rightarrow> thread_state" where
  "connection_info_round others seen = dynamic_round others
     (\<lambda>s. case frame_snapshot (obs_now seen s) s of (status, snapshot, error, s1) \<Rightarrow>
        (case trfx_collect_connection_summary (Some (sn_connections snapshot)) (int (length (sn_connections snapshot)))
                (Some trfx_init_connection_summary_result) (Some []) 128 of
           (_, connections, connection_error) \<Rightarrow>
             (let s2 = s1\<lparr>th_connections := trfx_connection_state_update connections (th_connections s1)\<rparr>;
                  report = (case trfx_bandwidth_state_copy (th_bandwidth s2) of None \<Rightarrow> trfx_init_bandwidth_report
                            | Some (_, r, _) \<Rightarrow> r)
              in refresh_sleep others
                   (draw (connection_info_frame status snapshot error (the connections) (the connection_error) report) s2))))"

definition socket_owner_info_round :: "others \<Rightarrow> seen \<Rightarrow> thread_state \<Rightarrow> thread_state" where
  "socket_owner_info_round others seen = dynamic_round others
     (\<lambda>s. case frame_snapshot (obs_now seen s) s of (status, snapshot, error, s1) \<Rightarrow>
        refresh_sleep others (draw (socket_owner_info_frame status snapshot error) s1))"

definition support_info_round :: "others \<Rightarrow> seen \<Rightarrow> thread_state \<Rightarrow> thread_state" where
  "support_info_round others seen = dynamic_round others
     (\<lambda>s. let obs = obs_now seen s in
        case trfx_collect_diagnostics_snapshot (po_diag obs) (Some trfx_init_diagnostics_snapshot) (Some []) 256 (th_mac s) of
          (status, snapshot, error, mac) \<Rightarrow>
            (let snap = the snapshot;
                 alerts = the (trfx_collect_diagnostics_alerts (th_cfg s) snapshot (Some trfx_init_alert_summary));
                 s1 = s\<lparr>th_mac := mac,
                        th_samples := trfx_network_sample_buffer_push (Some (dg_network snap)) (po_now obs) (th_samples s)\<rparr>
             in case trfx_collect_bandwidth_report (Some (th_samples s1)) (Some trfx_init_bandwidth_report) (Some []) 128 of
                  (_, own_report, bandwidth_error) \<Rightarrow>
                    (case trfx_collect_bandwidth_trend (Some (th_samples s1)) (Some trfx_init_bandwidth_trend) (Some []) 128 of
                       (_, trend, trend_error) \<Rightarrow>
                         (let (connections, focus) =
                                (case trfx_connection_state_copy (th_connections s1) of
                                   None \<Rightarrow> (trfx_init_connection_summary_result, 0) | Some p \<Rightarrow> p);
                              report = (case trfx_bandwidth_state_copy (th_bandwidth s1) of
                                          None \<Rightarrow> the own_report | Some (_, r, _) \<Rightarrow> r);
                              m = win_h (th_win s1)
                          in refresh_view_wait others
                               (draw (\<lambda>win. fst (support_view_body obs s1 snap alerts status (the error) report (the trend)
                                   (the bandwidth_error) (the trend_error) connections focus m
                                   (support_panel_top (th_views s1) m win))) s1)))))"

definition network_info_round :: "others \<Rightarrow> seen \<Rightarrow> thread_state \<Rightarrow> thread_state" where
  "network_info_round others seen = dynamic_round others
     (\<lambda>s. let obs = obs_now seen s in
        case frame_snapshot obs s of (status, snapshot, error, s0) \<Rightarrow>
          (let s1 = s0\<lparr>th_samples := trfx_network_sample_buffer_push (Some snapshot) (po_now obs) (th_samples s0)\<rparr>
           in case trfx_collect_bandwidth_report (Some (th_samples s1)) (Some trfx_init_bandwidth_report) (Some []) 128 of
                (_, report, bandwidth_error) \<Rightarrow>
                  (case trfx_collect_bandwidth_trend (Some (th_samples s1)) (Some trfx_init_bandwidth_trend) (Some []) 128 of
                     (_, trend, trend_error) \<Rightarrow>
                       (let s2 = draw (network_info_frame (po_clock obs) (bs_focus (th_bandwidth s1)) status snapshot error
                                   (the report) (the bandwidth_error) (the trend) (the trend_error)) s1
                        in refresh_sleep others
                             (s2\<lparr>th_bandwidth := bandwidth_state_update (Some (th_samples s2), report)
                                                   (th_bandwidth s2)\<rparr>)))))"

definition help_info_round :: "others \<Rightarrow> thread_state \<Rightarrow> thread_state" where
  "help_info_round others s =
     (if trfx_runtime_is_paused (th_runtime s) \<noteq> 0
      then snd (trfx_thread_sleep_ms others (TUI_PAUSE_INTERVAL_MS (th_cfg s)) s)
      else snd (trfx_thread_sleep_ms others (TUI_REFRESH_INTERVAL_MS (th_cfg s)) (draw help_info_frame s)))"

section \<open>The threads\<close>

text \<open>The loop of a thread: rounds until a stop. It need not end, so it is a partial function.\<close>

partial_function (option) panel_loop ::
  "(thread_state \<Rightarrow> bool) \<Rightarrow> (thread_state \<Rightarrow> thread_state) \<Rightarrow> thread_state \<Rightarrow> thread_state option" where
  "panel_loop stop body s = (if stop s then Some s else panel_loop stop body (body s))"

definition panel_thread ::
  "(thread_state \<Rightarrow> bool) \<Rightarrow> others \<Rightarrow> (thread_state \<Rightarrow> thread_state) \<Rightarrow> (thread_state \<Rightarrow> thread_state) \<Rightarrow> thread_state
    \<Rightarrow> thread_state option" where
  "panel_thread stop others start body s =
     (case wait_until_ready others s of None \<Rightarrow> None | Some s1 \<Rightarrow> panel_loop stop body (start s1))"

definition system_info_thread :: "others \<Rightarrow> seen \<Rightarrow> thread_state \<Rightarrow> thread_state option" where
  "system_info_thread others seen = panel_thread runtime_stops others id (system_info_round others seen)"

definition cpu_info_thread :: "others \<Rightarrow> seen \<Rightarrow> thread_state \<Rightarrow> thread_state option" where
  "cpu_info_thread others seen = panel_thread runtime_stops others id (cpu_info_round others seen)"

definition memory_info_thread :: "others \<Rightarrow> seen \<Rightarrow> thread_state \<Rightarrow> thread_state option" where
  "memory_info_thread others seen = panel_thread runtime_stops others id (memory_info_round others seen)"

definition disk_info_thread :: "others \<Rightarrow> seen \<Rightarrow> thread_state \<Rightarrow> thread_state option" where
  "disk_info_thread others seen = panel_thread runtime_stops others id (disk_info_round others seen)"

definition start_connections :: "thread_state \<Rightarrow> thread_state" where
  "start_connections s = s\<lparr>th_connections := trfx_connection_state_init (th_connections s)\<rparr>"

definition start_bandwidth :: "thread_state \<Rightarrow> thread_state" where
  "start_bandwidth s = s\<lparr>th_bandwidth := trfx_bandwidth_state_init (th_bandwidth s)\<rparr>"

definition start_samples :: "thread_state \<Rightarrow> thread_state" where
  "start_samples s = s\<lparr>th_samples := trfx_init_network_sample_buffer\<rparr>"

definition process_info_thread :: "others \<Rightarrow> seen \<Rightarrow> thread_state \<Rightarrow> thread_state option" where
  "process_info_thread others seen =
     panel_thread trfx_thread_should_stop others start_connections (process_info_round others seen)"

definition process_compact_info_thread :: "others \<Rightarrow> seen \<Rightarrow> thread_state \<Rightarrow> thread_state option" where
  "process_compact_info_thread others seen =
     panel_thread trfx_thread_should_stop others id (process_compact_info_round others seen)"

definition connection_info_thread :: "others \<Rightarrow> seen \<Rightarrow> thread_state \<Rightarrow> thread_state option" where
  "connection_info_thread others seen =
     panel_thread trfx_thread_should_stop others id (connection_info_round others seen)"

definition socket_owner_info_thread :: "others \<Rightarrow> seen \<Rightarrow> thread_state \<Rightarrow> thread_state option" where
  "socket_owner_info_thread others seen =
     panel_thread trfx_thread_should_stop others id (socket_owner_info_round others seen)"

definition support_info_thread :: "others \<Rightarrow> seen \<Rightarrow> thread_state \<Rightarrow> thread_state option" where
  "support_info_thread others seen =
     panel_thread trfx_thread_should_stop others (start_samples \<circ> start_connections \<circ> start_bandwidth)
       (support_info_round others seen)"

definition network_info_thread :: "others \<Rightarrow> seen \<Rightarrow> thread_state \<Rightarrow> thread_state option" where
  "network_info_thread others seen =
     panel_thread trfx_thread_should_stop others (start_samples \<circ> start_bandwidth) (network_info_round others seen)"

definition help_info_thread :: "others \<Rightarrow> thread_state \<Rightarrow> thread_state option" where
  "help_info_thread others = panel_thread runtime_stops others id (help_info_round others)"
section \<open>Every thread ends after a stop\<close>

definition thread_ok :: "thread_state \<Rightarrow> bool" where
  "thread_ok s \<longleftrightarrow> runtime_ok (th_runtime s) \<and> 0 < TUI_REFRESH_INTERVAL_MS (th_cfg s)
     \<and> 0 < TUI_PAUSE_INTERVAL_MS (th_cfg s) \<and> 0 < TUI_SMALL_PANEL_REFRESH_MS (th_cfg s)"

text \<open>The other threads keep the state in shape, and from nap \<open>K\<close> on the stop is set.\<close>

definition stopping :: "others \<Rightarrow> nat \<Rightarrow> bool" where
  "stopping others K \<longleftrightarrow> (\<forall>k t. thread_ok t \<longrightarrow> thread_ok (others k t))
     \<and> (\<forall>k t. K \<le> k \<longrightarrow> runtime_stops (others k t))"

definition live :: "nat \<Rightarrow> thread_state \<Rightarrow> bool" where
  "live K s \<longleftrightarrow> thread_ok s \<and> (K < length (th_naps s) \<longrightarrow> runtime_stops s)"

text \<open>The part of the state that the frames leave alone.\<close>

definition same_core :: "thread_state \<Rightarrow> thread_state \<Rightarrow> bool" where
  "same_core s t \<longleftrightarrow> th_runtime t = th_runtime s \<and> th_cfg t = th_cfg s \<and> th_naps t = th_naps s
     \<and> th_views t = th_views s \<and> th_stop t = th_stop s"

lemma same_core_live: "same_core s t \<Longrightarrow> live K t = live K s"
  by (simp add: same_core_def live_def thread_ok_def runtime_stops_def)

lemma same_core_stop: "same_core s t \<Longrightarrow> trfx_thread_should_stop t = trfx_thread_should_stop s"
  by (simp add: same_core_def trfx_thread_should_stop_def runtime_stops_def)

lemma same_core_draw [simp]: "same_core s (draw f t) = same_core s t"
  by (simp add: same_core_def draw_def)

lemma usleep_live:
  assumes "stopping others K" and "live K s"
  shows "live K (usleep others d s)"
proof -
  let ?t = "others (length (th_naps s)) s"
  have "thread_ok ?t" using assms by (simp add: stopping_def live_def)
  moreover have "K < Suc (length (th_naps s)) \<longrightarrow> runtime_stops ?t"
    using assms(1) by (simp add: stopping_def less_Suc_eq_le)
  ultimately show ?thesis by (simp add: live_def usleep_def thread_ok_def runtime_stops_def)
qed

lemma take_refresh_ok: "runtime_ok (th_runtime s) \<Longrightarrow> runtime_ok (th_runtime (snd (take_refresh m s)))"
  using runtime_step_ok [of "th_runtime s" "OpConsumeRefresh m"]
  by (simp add: take_refresh_def case_prod_beta)

lemma take_refresh_stop: "trfx_runtime_should_stop (th_runtime (snd (take_refresh m s)))
    = trfx_runtime_should_stop (th_runtime s)"
  by (simp add: take_refresh_def trfx_runtime_consume_static_refresh_def trfx_runtime_should_stop_def split: prod.splits)

lemma take_refresh_cfg: "th_cfg (snd (take_refresh m s)) = th_cfg s"
  by (simp add: take_refresh_def split: prod.splits)

lemma take_refresh_live: "live K s \<Longrightarrow> live K (snd (take_refresh m s))"
  by (simp add: live_def thread_ok_def take_refresh_ok take_refresh_cfg runtime_stops_def take_refresh_stop)

lemma take_view_core: "same_core s ((snd (take_view_request s))\<lparr>th_views := th_views s\<rparr>)"
  by (simp add: same_core_def take_view_request_def split: prod.splits)

lemma take_view_live: "live K s \<Longrightarrow> live K (snd (take_view_request s))"
  using same_core_live [OF take_view_core [of s], of K]
  by (simp add: live_def thread_ok_def runtime_stops_def)

lemma take_refresh_clears:
  "runtime_ok (th_runtime s) \<Longrightarrow> fst (take_refresh m (snd (take_refresh m s))) = 0"
  by (auto simp: take_refresh_def trfx_runtime_consume_static_refresh_def runtime_ok_def split: prod.splits)

lemma take_view_clears: "fst (take_view_request (snd (take_view_request s))) = 0"
  by (simp add: take_view_request_def trfx_support_view_consume_refresh_request_def)

text \<open>A round makes progress when it naps, or takes the request that was pending.\<close>

definition progresses :: "(thread_state \<Rightarrow> bool) \<Rightarrow> thread_state \<Rightarrow> thread_state \<Rightarrow> bool" where
  "progresses pending s t \<longleftrightarrow> length (th_naps s) < length (th_naps t)
     \<or> length (th_naps s) = length (th_naps t) \<and> pending s \<and> \<not> pending t"

definition good_round ::
  "nat \<Rightarrow> (thread_state \<Rightarrow> bool) \<Rightarrow> (thread_state \<Rightarrow> bool) \<Rightarrow> (thread_state \<Rightarrow> thread_state) \<Rightarrow> bool" where
  "good_round K stop pending body \<longleftrightarrow>
     (\<forall>s. live K s \<and> \<not> stop s \<longrightarrow> live K (body s) \<and> progresses pending s (body s))"

lemma panel_loop_ends:
  assumes good: "good_round K stop pending body" and stops: "\<And>s. runtime_stops s \<Longrightarrow> stop s" and "live K s"
  shows "panel_loop stop body s \<noteq> None"
  using assms(3)
proof (induction "2 * (Suc K - length (th_naps s)) + (if pending s then 1 else 0)" arbitrary: s rule: less_induct)
  case less
  show ?case
  proof (cases "stop s")
    case True
    then show ?thesis by (subst panel_loop.simps) simp
  next
    case False
    then have step: "live K (body s)" "progresses pending s (body s)" using good less.prems by (auto simp: good_round_def)
    moreover have "\<not> K < length (th_naps s)" using False stops less.prems by (auto simp: live_def)
    ultimately have "2 * (Suc K - length (th_naps (body s))) + (if pending (body s) then 1 else 0)
        < 2 * (Suc K - length (th_naps s)) + (if pending s then 1 else (0 :: nat))"
      by (auto simp: progresses_def)
    then have "panel_loop stop body (body s) \<noteq> None" using less.hyps step(1) by blast
    then show ?thesis using False by (subst panel_loop.simps) simp
  qed
qed

lemma ready_nap_live: "stopping others K \<Longrightarrow> live K s \<Longrightarrow> live K ((ready_nap others ^^ n) s)"
  by (induction n) (simp_all add: ready_nap_def usleep_live)

lemma ready_naps_length: "length (th_naps ((ready_nap others ^^ n) s)) = length (th_naps s) + n"
  by (induction n) (simp_all add: ready_nap_def)

lemma wait_until_ready_live:
  assumes "stopping others K" and "live K s"
  shows "\<exists>t. wait_until_ready others s = Some t \<and> live K t"
proof -
  have "runtime_stops ((ready_nap others ^^ Suc K) s)"
    using ready_nap_live [OF assms, of "Suc K"] ready_naps_length [where n = "Suc K" and others = others and s = s]
    by (simp add: live_def del: funpow.simps)
  then have ex: "\<exists>n. may_start ((ready_nap others ^^ n) s)" unfolding may_start_def by blast
  let ?n = "LEAST n. may_start ((ready_nap others ^^ n) s)"
  have "may_start ((ready_nap others ^^ ?n) s)" by (rule LeastI_ex [OF ex])
  moreover have "\<forall>i<?n. \<not> may_start ((ready_nap others ^^ i) s)" using not_less_Least by blast
  ultimately have "wait_until_ready others s = Some ((ready_nap others ^^ ?n) s)" by (simp add: wait_returns)
  then show ?thesis using ready_nap_live [OF assms] by blast
qed

lemma panel_thread_ends:
  assumes "stopping others K" and "live K s" and "good_round K stop pending body"
    and "\<And>s. runtime_stops s \<Longrightarrow> stop s" and "\<And>s. same_core s (start s)"
  shows "panel_thread stop others start body s \<noteq> None"
proof -
  obtain t where t: "wait_until_ready others s = Some t" "live K t"
    using wait_until_ready_live [OF assms(1,2)] by blast
  then have "live K (start t)" using same_core_live [OF assms(5)] by simp
  then have "panel_loop stop body (start t) \<noteq> None" using panel_loop_ends [OF assms(3)] assms(4) by blast
  then show ?thesis using t by (simp add: panel_thread_def)
qed

subsection \<open>The rounds\<close>

lemma sleep_live:
  assumes "stopping others K" and "live K s"
  shows "live K (snd (trfx_thread_sleep_ms others ms s))"
proof -
  have "live K (sleep_loop others ms 0 s)"
    by (rule plain_sleep.loop_invariant [where P = "live K"]) (use assms usleep_live in auto)
  then show ?thesis by (simp add: trfx_thread_sleep_ms_def Let_def)
qed

lemma dynamic_sleep_live:
  assumes "stopping others K" and "live K s"
  shows "live K (snd (trfx_dynamic_thread_sleep_ms others ms s))"
proof -
  have "live K (dynamic_sleep_loop others ms 0 s)"
    by (rule dynamic_sleep.loop_invariant [where P = "live K"]) (use assms usleep_live in auto)
  then show ?thesis by (simp add: trfx_dynamic_thread_sleep_ms_def Let_def)
qed

lemma refresh_wait_live:
  assumes "stopping others K" and "live K s"
  shows "live K (snd (trfx_wait_for_static_refresh others m ms s))"
proof -
  have "live K (snd (refresh_loop others m ms 0 s))"
    by (rule refresh_wait.loop_invariant [where P = "live K"]) (use assms usleep_live take_refresh_live in auto)
  then show ?thesis by (simp add: trfx_wait_for_static_refresh_def take_refresh_live case_prod_beta)
qed

lemma view_wait_live:
  assumes "stopping others K" and "live K s"
  shows "live K (view_wait_loop others ms 0 s)"
  by (rule view_wait.loop_invariant [where P = "live K"]) (use assms usleep_live take_view_live in auto)

lemma sleep_progress:
  "\<not> runtime_stops s \<Longrightarrow> 0 < ms \<Longrightarrow> length (th_naps s) < length (th_naps (snd (trfx_thread_sleep_ms others ms s)))"
  using plain_sleep.loop_progress [of s 0 ms others] by (simp add: trfx_thread_sleep_ms_def Let_def)

lemma dynamic_sleep_progress:
  "\<not> trfx_thread_should_stop s \<Longrightarrow> 0 < ms
    \<Longrightarrow> length (th_naps s) < length (th_naps (snd (trfx_dynamic_thread_sleep_ms others ms s)))"
  using dynamic_sleep.loop_progress [of s 0 ms others] by (simp add: trfx_dynamic_thread_sleep_ms_def Let_def)

lemma refresh_wait_progress:
  assumes "\<not> runtime_stops s" and "0 < ms" and "runtime_ok (th_runtime s)"
  shows "progresses (\<lambda>s. fst (take_refresh m s) \<noteq> 0) s (snd (trfx_wait_for_static_refresh others m ms s))"
proof (cases "fst (take_refresh m s) = 0")
  case True
  then have "length (th_naps s) < length (th_naps (snd (refresh_loop others m ms 0 s)))"
    using refresh_wait.loop_progress [of s 0 ms m others] assms by simp
  then show ?thesis by (simp add: progresses_def trfx_wait_for_static_refresh_def case_prod_beta)
next
  case False
  then have "refresh_loop others m ms 0 s = (True, snd (take_refresh m s))"
    using assms by (subst refresh_loop.simps) simp
  then show ?thesis
    using False take_refresh_clears [OF assms(3)] by (simp add: progresses_def trfx_wait_for_static_refresh_def)
qed

lemma view_wait_progress:
  assumes "\<not> trfx_thread_should_stop s" and "0 < ms"
  shows "progresses (\<lambda>s. fst (take_view_request s) \<noteq> 0) s (view_wait_loop others ms 0 s)"
proof (cases "fst (take_view_request s) = 0")
  case True
  then show ?thesis using view_wait.loop_progress [of s 0 ms others] assms by (simp add: progresses_def)
next
  case False
  then have "view_wait_loop others ms 0 s = snd (take_view_request s)"
    using assms by (subst view_wait_loop.simps) simp
  then show ?thesis using False take_view_clears by (simp add: progresses_def)
qed

lemma live_bounds: "live K s \<Longrightarrow> 0 < TUI_REFRESH_INTERVAL_MS (th_cfg s) \<and> 0 < TUI_PAUSE_INTERVAL_MS (th_cfg s)
    \<and> 0 < TUI_SMALL_PANEL_REFRESH_MS (th_cfg s) \<and> runtime_ok (th_runtime s)"
  by (simp add: live_def thread_ok_def)

lemma static_round_good:
  assumes "stopping others K" and "\<And>s. same_core s (frame s)"
  shows "good_round K runtime_stops (\<lambda>s. fst (take_refresh m s) \<noteq> 0) (static_round others m frame)"
  unfolding good_round_def
proof (intro allI impI)
  fix s
  assume s: "live K s \<and> \<not> runtime_stops s"
  have core: "th_naps (frame s) = th_naps s" "th_runtime (frame s) = th_runtime s" "th_cfg (frame s) = th_cfg s"
    using assms(2) [of s] by (simp_all add: same_core_def)
  have f: "live K (frame s)" "\<not> runtime_stops (frame s)"
    using s same_core_live [OF assms(2)] core by (simp_all add: runtime_stops_def)
  have "fst (take_refresh m (frame s)) = fst (take_refresh m s)"
    by (simp add: take_refresh_def core split: prod.splits)
  then have "progresses (\<lambda>s. fst (take_refresh m s) \<noteq> 0) s
      (snd (trfx_wait_for_static_refresh others m (TUI_REFRESH_INTERVAL_MS (th_cfg (frame s))) (frame s)))"
    using refresh_wait_progress [OF f(2), of "TUI_REFRESH_INTERVAL_MS (th_cfg (frame s))" m others] live_bounds [OF f(1)]
    by (simp add: progresses_def core)
  then show "live K (static_round others m frame s)
      \<and> progresses (\<lambda>s. fst (take_refresh m s) \<noteq> 0) s (static_round others m frame s)"
    using s f assms(1) live_bounds [of K s]
    by (auto simp: static_round_def sleep_live refresh_wait_live progresses_def sleep_progress)
qed
text \<open>The frame of a dynamic panel ends with one of the three waits.\<close>

definition ends_waiting :: "others \<Rightarrow> (thread_state \<Rightarrow> thread_state) \<Rightarrow> bool" where
  "ends_waiting others frame \<longleftrightarrow> (\<forall>s. \<exists>t.
     (frame s = refresh_sleep others t \<or> frame s = small_sleep others t \<or> frame s = refresh_view_wait others t)
     \<and> same_core s t)"

lemma dynamic_round_good:
  assumes "stopping others K" and "ends_waiting others frame"
  shows "good_round K trfx_thread_should_stop (\<lambda>s. fst (take_view_request s) \<noteq> 0) (dynamic_round others frame)"
  unfolding good_round_def
proof (intro allI impI)
  fix s
  let ?pending = "\<lambda>s. fst (take_view_request s) \<noteq> 0"
  assume s: "live K s \<and> \<not> trfx_thread_should_stop s"
  obtain t where core: "same_core s t"
    and t: "frame s = refresh_sleep others t \<or> frame s = small_sleep others t \<or> frame s = refresh_view_wait others t"
    using assms(2) by (auto simp: ends_waiting_def)
  have l: "live K t" "\<not> trfx_thread_should_stop t" using s same_core_live [OF core] same_core_stop [OF core] by simp_all
  have n: "th_naps t = th_naps s" "?pending t = ?pending s"
    using core by (simp_all add: same_core_def take_view_request_def split: prod.splits)
  note pos = live_bounds [OF l(1)]
  have "live K (frame s)"
    using t l assms(1)
    by (auto simp: refresh_sleep_def small_sleep_def refresh_view_wait_def dynamic_sleep_live view_wait_live)
  moreover have "progresses ?pending t (refresh_sleep others t)" "progresses ?pending t (small_sleep others t)"
    using l pos by (simp_all add: refresh_sleep_def small_sleep_def progresses_def dynamic_sleep_progress)
  then have "progresses ?pending t (frame s)"
    using t l pos view_wait_progress [OF l(2), of "TUI_REFRESH_INTERVAL_MS (th_cfg t)" others]
    by (elim disjE) (simp_all add: refresh_view_wait_def)
  then have "progresses ?pending s (frame s)" using n by (simp add: progresses_def)
  ultimately show "live K (dynamic_round others frame s) \<and> progresses ?pending s (dynamic_round others frame s)"
    using s assms(1) live_bounds [of K s]
    by (auto simp: dynamic_round_def dynamic_sleep_live progresses_def dynamic_sleep_progress)
qed

lemma help_round_good:
  assumes "stopping others K"
  shows "good_round K runtime_stops (\<lambda>_. False) (help_info_round others)"
  unfolding good_round_def
proof (intro allI impI)
  fix s
  assume s: "live K s \<and> \<not> runtime_stops s"
  have core: "same_core s (draw help_info_frame s)" by (simp add: same_core_def draw_def)
  have d: "live K (draw help_info_frame s)" "\<not> runtime_stops (draw help_info_frame s)"
    "length (th_naps (draw help_info_frame s)) = length (th_naps s)"
    using s same_core_live [OF core] by (simp_all add: runtime_stops_def draw_def)
  have "length (th_naps s)
      < length (th_naps (snd (trfx_thread_sleep_ms others (TUI_REFRESH_INTERVAL_MS (th_cfg s)) (draw help_info_frame s))))"
    using sleep_progress [OF d(2), of "TUI_REFRESH_INTERVAL_MS (th_cfg s)" others] live_bounds [of K s] s d(3) by simp
  then show "live K (help_info_round others s) \<and> progresses (\<lambda>_. False) s (help_info_round others s)"
    using s d assms live_bounds [of K s] by (auto simp: help_info_round_def sleep_live progresses_def sleep_progress)
qed

lemma same_core_updates [simp]:
  "same_core s (t\<lparr>th_connections := c\<rparr>) = same_core s t" "same_core s (t\<lparr>th_bandwidth := b\<rparr>) = same_core s t"
  "same_core s (t\<lparr>th_samples := bs\<rparr>) = same_core s t"
  by (simp_all add: same_core_def)

lemma same_core_refl [simp]: "same_core s s"
  by (simp add: same_core_def)

lemma frame_snapshot_core: "frame_snapshot obs s = (st, sn, e, t) \<Longrightarrow> same_core s t"
  by (auto simp: frame_snapshot_def same_core_def split: prod.splits)

lemma process_waits:
  "ends_waiting others (\<lambda>s. if win_h (th_win s) < 5 then small_sleep others (draw too_small_frame s)
     else refresh_view_wait others (draw (f s) s))"
  "ends_waiting others (\<lambda>s. if win_h (th_win s) < 5 then small_sleep others (draw too_small_frame s)
     else refresh_sleep others (draw (f s) s))"
  unfolding ends_waiting_def by (metis same_core_draw same_core_refl)+

lemma waits_after:
  assumes "\<And>s. \<exists>t. frame s = refresh_sleep others t \<and> same_core s t"
  shows "ends_waiting others frame"
  using assms unfolding ends_waiting_def by blast

lemma process_info_good:
  "stopping others K \<Longrightarrow> good_round K trfx_thread_should_stop (\<lambda>s. fst (take_view_request s) \<noteq> 0)
     (process_info_round others seen)"
  unfolding process_info_round_def by (intro dynamic_round_good process_waits)

lemma process_compact_good:
  "stopping others K \<Longrightarrow> good_round K trfx_thread_should_stop (\<lambda>s. fst (take_view_request s) \<noteq> 0)
     (process_compact_info_round others seen)"
  unfolding process_compact_info_round_def by (intro dynamic_round_good process_waits)

lemma connection_good:
  assumes "stopping others K"
  shows "good_round K trfx_thread_should_stop (\<lambda>s. fst (take_view_request s) \<noteq> 0) (connection_info_round others seen)"
  unfolding connection_info_round_def
proof (rule dynamic_round_good [OF assms waits_after], goal_cases)
  case (1 s)
  obtain st sn e t where f: "frame_snapshot (obs_now seen s) s = (st, sn, e, t)" by (metis prod_cases4)
  obtain n c ce where c: "trfx_collect_connection_summary (Some (sn_connections sn)) (int (length (sn_connections sn)))
      (Some trfx_init_connection_summary_result) (Some []) 128 = (n, c, ce)" by (metis prod_cases3)
  show ?case
    unfolding f c prod.case Let_def
    by (intro exI conjI) (rule refl, simp add: frame_snapshot_core [OF f])
qed

lemma socket_owner_good:
  assumes "stopping others K"
  shows "good_round K trfx_thread_should_stop (\<lambda>s. fst (take_view_request s) \<noteq> 0) (socket_owner_info_round others seen)"
  unfolding socket_owner_info_round_def
proof (rule dynamic_round_good [OF assms waits_after], goal_cases)
  case (1 s)
  obtain st sn e t where f: "frame_snapshot (obs_now seen s) s = (st, sn, e, t)" by (metis prod_cases4)
  show ?case
    unfolding f prod.case
    by (intro exI conjI) (rule refl, simp add: frame_snapshot_core [OF f])
qed

lemma support_good:
  assumes "stopping others K"
  shows "good_round K trfx_thread_should_stop (\<lambda>s. fst (take_view_request s) \<noteq> 0) (support_info_round others seen)"
  unfolding support_info_round_def
proof (rule dynamic_round_good [OF assms], unfold ends_waiting_def, rule allI, goal_cases)
  case (1 s)
  show ?case
    unfolding Let_def case_prod_beta
    by (intro exI conjI disjI2) (rule refl, simp add: same_core_def draw_def)
qed

lemma network_good:
  assumes "stopping others K"
  shows "good_round K trfx_thread_should_stop (\<lambda>s. fst (take_view_request s) \<noteq> 0) (network_info_round others seen)"
  unfolding network_info_round_def
proof (rule dynamic_round_good [OF assms waits_after], goal_cases)
  case (1 s)
  obtain st sn e t where f: "frame_snapshot (obs_now seen s) s = (st, sn, e, t)" by (metis prod_cases4)
  show ?case
    unfolding Let_def f prod.case case_prod_beta
    by (intro exI conjI) (rule refl, simp add: frame_snapshot_core [OF f])
qed

lemma threads_end:
  assumes "thread_ok s" and "stopping others K"
  shows "system_info_thread others seen s \<noteq> None" and "cpu_info_thread others seen s \<noteq> None"
    and "memory_info_thread others seen s \<noteq> None" and "disk_info_thread others seen s \<noteq> None"
    and "process_info_thread others seen s \<noteq> None" and "process_compact_info_thread others seen s \<noteq> None"
    and "connection_info_thread others seen s \<noteq> None" and "socket_owner_info_thread others seen s \<noteq> None"
    and "support_info_thread others seen s \<noteq> None" and "network_info_thread others seen s \<noteq> None"
    and "help_info_thread others s \<noteq> None"
proof -
  define N where "N = max K (length (th_naps s))"
  have stopping: "stopping others N" using assms(2) by (simp add: stopping_def N_def)
  have live: "live N s" using assms(1) by (simp add: live_def N_def)
  note ends = panel_thread_ends [OF stopping live]
  note static = static_round_good [OF stopping]
  have starts: "same_core t (id t)" "same_core t (start_connections t)"
    "same_core t ((start_samples \<circ> start_bandwidth) t)"
    "same_core t ((start_samples \<circ> start_connections \<circ> start_bandwidth) t)" for t
    by (simp_all add: same_core_def start_connections_def start_samples_def start_bandwidth_def)
  show "system_info_thread others seen s \<noteq> None"
    unfolding system_info_thread_def system_info_round_def by (rule ends [OF static]) (simp_all add: starts)
  show "cpu_info_thread others seen s \<noteq> None"
    unfolding cpu_info_thread_def cpu_info_round_def by (rule ends [OF static]) (simp_all add: starts Let_def)
  show "memory_info_thread others seen s \<noteq> None"
    unfolding memory_info_thread_def memory_info_round_def by (rule ends [OF static]) (simp_all add: starts)
  show "disk_info_thread others seen s \<noteq> None"
    unfolding disk_info_thread_def disk_info_round_def
    by (rule ends [OF static]) (simp_all add: starts case_prod_beta)
  show "process_info_thread others seen s \<noteq> None"
    unfolding process_info_thread_def
    by (rule ends [OF process_info_good [OF stopping]]) (simp_all only: starts trfx_thread_should_stop_def simp_thms)
  show "process_compact_info_thread others seen s \<noteq> None"
    unfolding process_compact_info_thread_def
    by (rule ends [OF process_compact_good [OF stopping]]) (simp_all only: starts trfx_thread_should_stop_def simp_thms)
  show "connection_info_thread others seen s \<noteq> None"
    unfolding connection_info_thread_def
    by (rule ends [OF connection_good [OF stopping]]) (simp_all only: starts trfx_thread_should_stop_def simp_thms)
  show "socket_owner_info_thread others seen s \<noteq> None"
    unfolding socket_owner_info_thread_def
    by (rule ends [OF socket_owner_good [OF stopping]]) (simp_all only: starts trfx_thread_should_stop_def simp_thms)
  show "support_info_thread others seen s \<noteq> None"
    unfolding support_info_thread_def
    by (rule ends [OF support_good [OF stopping]]) (simp_all only: starts trfx_thread_should_stop_def simp_thms)
  show "network_info_thread others seen s \<noteq> None"
    unfolding network_info_thread_def
    by (rule ends [OF network_good [OF stopping]]) (simp_all only: starts trfx_thread_should_stop_def simp_thms)
  show "help_info_thread others s \<noteq> None"
    unfolding help_info_thread_def by (rule ends [OF help_round_good [OF stopping]]) (simp_all add: starts)
qed

text \<open>C19. Every panel thread returns after a stop: when the other threads keep the shared state in shape (positive
  intervals, flags 0 or 1) and the stop is set from some nap of the thread on, each of the eleven threads ends, whatever
  it reads from the system, whether it is paused, hidden or waiting for the dashboard, and whatever requests arrive.\<close>

theorem panel_threads_end:
  assumes "thread_ok s" and "stopping others K"
  shows "system_info_thread others seen s \<noteq> None \<and> cpu_info_thread others seen s \<noteq> None
    \<and> memory_info_thread others seen s \<noteq> None \<and> disk_info_thread others seen s \<noteq> None
    \<and> process_info_thread others seen s \<noteq> None \<and> process_compact_info_thread others seen s \<noteq> None
    \<and> connection_info_thread others seen s \<noteq> None \<and> socket_owner_info_thread others seen s \<noteq> None
    \<and> support_info_thread others seen s \<noteq> None \<and> network_info_thread others seen s \<noteq> None
    \<and> help_info_thread others s \<noteq> None"
  by (intro conjI threads_end [OF assms])

text \<open>The dashboard asks for a stop as soon as the thread sleeps.\<close>

definition demo_stopping :: others where
  "demo_stopping k s = s\<lparr>th_runtime := trfx_runtime_request_stop (th_runtime s)\<rparr>"

definition demo_obs :: panel_obs where
  "demo_obs = \<lparr>po_diag = demo_diag, po_now = 0, po_clock = (\<lambda>_. None), po_nan = ''-nan''\<rparr>"

lemma demo_stopping_stops: "stopping demo_stopping 0"
proof -
  have "runtime_ok (trfx_runtime_request_stop r)" if "runtime_ok r" for r
    using runtime_step_ok [OF that, of OpRequestStop] by simp
  then show ?thesis
    by (auto simp: stopping_def demo_stopping_def thread_ok_def runtime_stops_def trfx_runtime_should_stop_def
        trfx_runtime_request_stop_def)
qed

lemma demo_thread_ok: "thread_ok demo_thread"
  using runtime_init_ok by (simp add: thread_ok_def demo_thread_def config_default_def)

lemma panel_threads_end_witness:
  "system_info_thread demo_stopping (\<lambda>_. demo_obs) demo_thread \<noteq> None
 \<and> network_info_thread demo_stopping (\<lambda>_. demo_obs) demo_thread \<noteq> None"
  using panel_threads_end [OF demo_thread_ok demo_stopping_stops] by blast

section \<open>Frames stay inside their windows\<close>

text \<open>The texts that a frame prints without clipping: an error of the snapshot, and in the network panel those of the
  bandwidth report and of its trend, each with its column.\<close>

definition snapshot_notice :: "int \<Rightarrow> string \<Rightarrow> TrfxCollectorStatus \<Rightarrow> string \<Rightarrow> (int \<times> string) list" where
  "snapshot_notice col label status error =
     (if status \<noteq> TRFX_COLLECTOR_OK \<and> error \<noteq> [] then [(col, label @ error)] else [])"

definition notice :: "int \<Rightarrow> string \<Rightarrow> string \<Rightarrow> (int \<times> string) list" where
  "notice col label error = (if error \<noteq> [] then [(col, label @ error)] else [])"

text \<open>\<open>frame_within title unclipped win v\<close>: the title fits between the corners of the top border, and every text of \<open>v\<close>
  was in the window before, lies strictly between the four borders, is that title on the top border, or is
  one of the unclipped texts at its column, on a row between the top and the bottom border.\<close>

definition frame_within :: "string \<Rightarrow> (int \<times> string) list \<Rightarrow> window \<Rightarrow> window \<Rightarrow> bool" where
  "frame_within title unclipped win v \<longleftrightarrow> 2 + int (length title) \<le> win_w win - 1
     \<and> (\<forall>p\<in>set (win_out v). p \<in> set (win_out win) \<or> text_inside win p \<or> p = (0, 2, title)
          \<or> 1 \<le> fst p \<and> fst p < win_h win - 1 \<and> snd p \<in> set unclipped)"

definition frame_texts :: "string \<Rightarrow> (int \<times> string) list \<Rightarrow> window \<Rightarrow> (int \<times> int \<times> string) set" where
  "frame_texts title unclipped win =
     {p. p = (0, 2, title) \<or> 1 \<le> fst p \<and> fst p < win_h win - 1 \<and> snd p \<in> set unclipped}"

lemma frame_withinI:
  "drawn (frame_texts title unclipped win) win d \<Longrightarrow> 2 + int (length title) \<le> win_w win - 1
   \<Longrightarrow> frame_within title unclipped win (fst d)"
  by (simp add: frame_within_def frame_texts_def drawn_def)

lemma cleared_inside: "adds_inside win (cleared win)"
  using clear_window_inside [of win "cleared win"]
  by (auto simp: cleared_def trfx_clear_window_content_def)

lemma titled_drawn:
  assumes "1 \<le> r"
  shows "drawn (frame_texts title unclipped win) win (mvwprintw (cleared win) 0 2 title, r)"
  using cleared_inside [of win] assms by (auto simp: drawn_def adds_inside_def frame_texts_def)

lemma put_title_drawn: "drawn (frame_texts title unclipped win) win (put_raw 2 title (cleared win, 0))"
  unfolding put_raw_def by (simp add: titled_drawn)

lemma drawn_step: "draws_inside A win f \<Longrightarrow> drawn A win d \<Longrightarrow> drawn A win (f d)"
  by (simp add: draws_inside_def del: split_paired_All)

lemmas drawn_intros = drawn_step [OF inside_rows] drawn_step [OF inside_empty_state] drawn_step [OF inside_put]
  drawn_step [OF inside_put_room]

text \<open>A text printed without clipping is one of the unclipped texts, or short enough.\<close>

lemma drawn_raw:
  assumes "drawn (frame_texts title unclipped win) win d"
    and "b \<Longrightarrow> (col, t) \<in> set unclipped \<or> 1 \<le> col \<and> t \<noteq> [] \<and> col + int (length t) \<le> win_w win - 1"
  shows "drawn (frame_texts title unclipped win) win
      (if b \<and> panel_has_room (snd d) (win_h win - 1) then put_raw col t d else d)"
proof (cases b)
  case True
  then have "draws_inside (frame_texts title unclipped win) win
      (\<lambda>d. if b \<and> panel_has_room (snd d) (win_h win - 1) then put_raw col t d else d)"
    using assms(2) by (intro inside_raw) (auto simp: text_inside_def frame_texts_def neq_Nil_conv)
  then show ?thesis using assms(1) drawn_step by blast
qed (use assms(1) in simp)

lemma inside_body:
  "draws_inside A win (support_view_body obs s sn al st e r tr be te c f m)"
  unfolding support_view_body_def
  by (cases "trfx_support_view_id_at (trfx_support_view_selected_index (th_views s))") (simp_all add: inv_intros)

lemma drawn_skip_row: "drawn A win d \<Longrightarrow> drawn A win (skip_row m d)"
  by (auto simp: skip_row_def drawn_def)

lemma support_top_drawn: "drawn (frame_texts '' Support Panel '' [] win) win (support_panel_top vs m win)"
proof -
  have "drawn (frame_texts '' Support Panel '' [] win) win
      (render_support_view_header vs m (mvwprintw (cleared win) 0 2 '' Support Panel '', 2))"
    by (rule drawn_step [OF inside_header titled_drawn]) simp
  then show ?thesis
    unfolding support_panel_top_def Let_def
    using titled_drawn [of 1 "'' Support Panel ''" "[]" win] by (intro drawn_skip_row) (simp add: put_raw_def)
qed

lemma process_frame_within:
  assumes "14 \<le> win_w win"
  shows "frame_within '' Processes '' [] win (process_frame header row_text ps win)"
  unfolding process_frame_def Let_def
  using assms by (intro frame_withinI drawn_intros) (simp_all add: drawn_intros put_title_drawn)

lemma connection_frame_within:
  assumes "16 \<le> win_w win"
  shows "frame_within '' Connections '' (snapshot_notice 2 ''Connection snapshot: '' st e) win
    (connection_info_frame st sn e cs ce r win)"
proof -
  define A where "A = frame_texts '' Connections '' (snapshot_notice 2 ''Connection snapshot: '' st e) win"
  define d where "d = put 2 (connection_header (win_w win)) (put_rows (win_h win - 1) 2
      [''Order: ESTABLISHED first, LISTEN/UNCONN next, other states last'',
       ''Marked rows: * measured top flow | ! unowned'']
      (render_connection_group_summary cs 2 (win_h win - 1)
        (put 2 (format_connection_summary sn 256) (mvwprintw (cleared win) 0 2 '' Connections '', 1))))"
  have "drawn A win d"
    unfolding A_def d_def render_connection_group_summary_def by (intro drawn_intros titled_drawn) simp
  then have "drawn A win (if (st \<noteq> TRFX_COLLECTOR_OK \<and> e \<noteq> []) \<and> panel_has_room (snd d) (win_h win - 1)
      then put_raw 2 (''Connection snapshot: '' @ e) d else d)"
    unfolding A_def by (rule drawn_raw) (simp add: snapshot_notice_def)
  then show ?thesis
    unfolding connection_info_frame_def Let_def A_def d_def conj_assoc
    using assms by (intro frame_withinI drawn_intros) (simp_all add: drawn_intros)
qed

lemma socket_frame_within:
  assumes "21 \<le> win_w win"
  shows "frame_within '' Socket Inventory '' (snapshot_notice 2 ''Socket snapshot: '' st e) win
    (socket_owner_info_frame st sn e win)"
proof -
  define A where "A = frame_texts '' Socket Inventory '' (snapshot_notice 2 ''Socket snapshot: '' st e) win"
  define d where "d = put 2 (socket_header (win_w win)) (put 2
      (fit 256 (''Owned sockets: '' @ show_nat (length (sn_socket_owners sn)) @ '' | Connections: ''
                      @ show_nat (length (sn_connections sn))))
      (mvwprintw (cleared win) 0 2 '' Socket Inventory '', 1))"
  have "drawn A win d"
    unfolding A_def d_def by (intro drawn_intros titled_drawn) simp
  then have "drawn A win (if (st \<noteq> TRFX_COLLECTOR_OK \<and> e \<noteq> []) \<and> panel_has_room (snd d) (win_h win - 1)
      then put_raw 2 (''Socket snapshot: '' @ e) d else d)"
    unfolding A_def by (rule drawn_raw) (simp add: snapshot_notice_def)
  then show ?thesis
    unfolding socket_owner_info_frame_def Let_def A_def d_def conj_assoc
    using assms by (intro frame_withinI drawn_intros) (simp_all add: drawn_intros)
qed

text \<open>The network panel prints the heads of its two last tables without clipping; they fit in 38 columns.\<close>

lemma inside_section_title: "draws_inside A win (render_overview_section_title col m title)"
  unfolding render_overview_section_title_def using inside_put [of A win col title]
  by (simp add: draws_inside_def del: split_paired_All)

lemma inside_interface_table: "draws_inside A win (render_interface_status_table sn r col m)"
  unfolding draws_inside_def
proof (intro allI impI)
  fix d assume "drawn A win d"
  then have "drawn A win (render_overview_section_title col m ''Interfaces'' d)"
    by (rule drawn_step [OF inside_section_title])
  then show "drawn A win (render_interface_status_table sn r col m d)"
    unfolding render_interface_status_table_def Let_def by (simp add: drawn_intros)
qed

lemma inside_totals: "draws_inside A win (render_bandwidth_totals_summary r col m)"
  unfolding render_bandwidth_totals_summary_def by (simp add: inside_put_room)

lemma drawn_head:
  assumes "drawn (frame_texts title unclipped win) win d" and "panel_has_room (snd d) (win_h win - 1)"
    and "1 \<le> col" and "t \<noteq> []" and "col + int (length t) \<le> win_w win - 1"
  shows "drawn (frame_texts title unclipped win) win (put_raw col t d)"
  using drawn_raw [of title unclipped win d True col t] assms by simp

lemma talkers_drawn:
  assumes "drawn (frame_texts title unclipped win) win d" and "38 \<le> win_w win"
  shows "drawn (frame_texts title unclipped win) win
    (render_bandwidth_talkers_summary sel r 4 (win_h win - 1) d)"
proof (cases "panel_has_room (snd d) (win_h win - 1)")
  case True
  have "length (trfx_bandwidth_mode_name (br_mode r)) \<le> 18"
    by (cases "br_mode r") (simp_all add: trfx_bandwidth_mode_name_def)
  then have "drawn (frame_texts title unclipped win) win
      (put_raw 4 (''Top talkers ('' @ trfx_bandwidth_mode_name (br_mode r) @ ''):'') d)"
    using True assms(2) by (intro drawn_head [OF assms(1)]) simp_all
  then show ?thesis
    unfolding render_bandwidth_talkers_summary_def Let_def using True by (simp add: drawn_intros)
qed (use assms in \<open>simp add: render_bandwidth_talkers_summary_def\<close>)

lemma history_drawn:
  assumes "drawn (frame_texts title unclipped win) win d" and "38 \<le> win_w win"
  shows "drawn (frame_texts title unclipped win) win
    (render_bandwidth_history_summary clock tr 4 (win_h win - 1) d)"
proof (cases "panel_has_room (snd d) (win_h win - 1)")
  case True
  then have "drawn (frame_texts title unclipped win) win (put_raw 4 ''Recent trend:'' d)"
    using assms(2) by (intro drawn_head [OF assms(1)]) simp_all
  then show ?thesis
    unfolding render_bandwidth_history_summary_def Let_def using True by (simp add: drawn_intros)
qed (use assms in \<open>simp add: render_bandwidth_history_summary_def\<close>)

definition network_notices :: "TrfxCollectorStatus \<Rightarrow> string \<Rightarrow> string \<Rightarrow> TrfxBandwidthTrend \<Rightarrow> string \<Rightarrow> (int \<times> string) list" where
  "network_notices st e be tr te = snapshot_notice 4 ''Network snapshot: '' st e @ notice 4 ''Bandwidth: '' be
     @ (if bt_points tr = [] then notice 4 ''Trend: '' te else [])"

lemma network_frame_within:
  assumes "38 \<le> win_w win"
  shows "frame_within '' Network Overview '' (network_notices st e be tr te) win
    (network_info_frame clock sel st sn e r be tr te win)"
proof -
  let ?m = "win_h win - 1"
  define A where "A = frame_texts '' Network Overview '' (network_notices st e be tr te) win"
  define d3 where "d3 = skip_row ?m (render_network_health_summary sn 4 ?m (render_route_consistency_summary sn 4 ?m
    (render_overview_section_title 4 ?m ''Health'' (skip_row ?m (render_network_summary sn 4 ?m
      (render_overview_section_title 4 ?m ''Path'' (put_raw 2 '' Network Overview '' (cleared win, 0))))))))"
  define d7 where "d7 = render_bandwidth_history_summary clock tr 4 ?m (skip_row ?m
    (render_bandwidth_talkers_summary sel r 4 ?m (skip_row ?m (render_bandwidth_totals_summary r 4 ?m
      (render_overview_section_title 4 ?m ''Traffic'' (skip_row ?m
        (render_interface_status_table sn (Some r) 4 ?m d3)))))))"
  define d8 where "d8 = (if (st \<noteq> TRFX_COLLECTOR_OK \<and> e \<noteq> []) \<and> panel_has_room (snd d7) ?m
    then put_raw 4 (''Network snapshot: '' @ e) d7 else d7)"
  define d9 where "d9 = (if be \<noteq> [] \<and> panel_has_room (snd d8) ?m then put_raw 4 (''Bandwidth: '' @ be) d8 else d8)"
  have "drawn A win d3"
    unfolding A_def d3_def render_network_health_summary_def render_route_consistency_summary_def
      render_network_summary_def
    by (intro drawn_skip_row drawn_intros drawn_step [OF inside_section_title] put_title_drawn)
  then have "drawn A win (render_bandwidth_talkers_summary sel r 4 ?m (skip_row ?m (render_bandwidth_totals_summary r 4 ?m
      (render_overview_section_title 4 ?m ''Traffic'' (skip_row ?m
        (render_interface_status_table sn (Some r) 4 ?m d3))))))"
    unfolding A_def
    by (intro talkers_drawn assms drawn_skip_row drawn_step [OF inside_totals] drawn_step [OF inside_section_title]
        drawn_step [OF inside_interface_table])
  then have "drawn A win d7"
    unfolding A_def d7_def by (intro history_drawn assms drawn_skip_row)
  then have "drawn A win d8"
    unfolding A_def d8_def by (rule drawn_raw) (simp add: network_notices_def snapshot_notice_def)
  then have "drawn A win d9"
    unfolding A_def d9_def by (rule drawn_raw) (simp add: network_notices_def notice_def)
  then have "drawn A win (if (te \<noteq> [] \<and> length (bt_points tr) \<le> 0) \<and> panel_has_room (snd d9) ?m
      then put_raw 4 (''Trend: '' @ te) d9 else d9)"
    unfolding A_def by (rule drawn_raw) (simp add: network_notices_def notice_def)
  then have "frame_within '' Network Overview '' (network_notices st e be tr te) win
      (fst (if (te \<noteq> [] \<and> length (bt_points tr) \<le> 0) \<and> panel_has_room (snd d9) ?m
      then put_raw 4 (''Trend: '' @ te) d9 else d9))"
    unfolding A_def using assms by (intro frame_withinI) simp_all
  then show ?thesis
    unfolding network_info_frame_def Let_def d9_def d8_def d7_def d3_def conj_assoc .
qed

text \<open>C21. The dynamic panels stay inside their borders, up to two kinds of text: in a window of at least 21 columns (38 for
  the network panel), whatever is shown and whatever the collectors answered, every text that a frame of the process,
  support, connection, socket or network panel adds lies strictly between the four borders, or is the
  title of the panel, which fits on the top border, or is one of the error texts that the connection, socket and network
  panels print without clipping, which start at their column on a row between the borders and run over the
  right one when they are longer than the rest of the row.\<close>

theorem panel_frames_inside:
  assumes "21 \<le> win_w win"
  shows "frame_within '' Processes '' [] win (process_frame process_header process_row ps win)
    \<and> frame_within '' Processes '' [] win (process_frame process_compact_header process_compact_row ps win)
    \<and> frame_within '' Support Panel '' [] win
        (fst (support_view_body obs s sn al st e r tr be te cs f m (support_panel_top vs m win)))
    \<and> frame_within '' Connections '' (snapshot_notice 2 ''Connection snapshot: '' st e) win
        (connection_info_frame st net e cs ce r win)
    \<and> frame_within '' Socket Inventory '' (snapshot_notice 2 ''Socket snapshot: '' st e) win
        (socket_owner_info_frame st net e win)
    \<and> (38 \<le> win_w win \<longrightarrow> frame_within '' Network Overview '' (network_notices st e be tr te) win
        (network_info_frame clock sel st net e r be tr te win))"
proof -
  have "frame_within '' Support Panel '' [] win
      (fst (support_view_body obs s sn al st e r tr be te cs f m (support_panel_top vs m win)))"
    using assms by (intro frame_withinI drawn_step [OF inside_body support_top_drawn]) simp
  then show ?thesis
    using assms process_frame_within connection_frame_within socket_frame_within network_frame_within by simp
qed

text \<open>A long error of the snapshot does run over the right border.\<close>

lemma snapshot_error_overruns:
  "\<exists>p\<in>set (win_out (socket_owner_info_frame TRFX_COLLECTOR_OPEN_FAILED trfx_init_network_snapshot (replicate 40 CHR ''e'')
      \<lparr>win_h = 11, win_w = 50, win_out = []\<rparr>)). \<not> text_inside \<lparr>win_h = 11, win_w = 50, win_out = []\<rparr> p \<and> 1 \<le> fst p"
  by code_simp

text \<open>The panels of the top row print without clipping: a long host name runs over the border.\<close>

lemma system_info_overflows:
  "\<exists>p\<in>set (win_out (system_info_frame (zero_overview\<lparr>ov_hostname := replicate 40 CHR ''h''\<rparr>)
      \<lparr>win_h = 11, win_w = 30, win_out = []\<rparr>)). \<not> text_inside \<lparr>win_h = 11, win_w = 30, win_out = []\<rparr> p"
  by code_simp

lemma panel_frames_inside_witness:
  "frame_within '' Processes '' [] (th_win demo_thread) (process_frame process_header process_row
      \<lparr>pr_status = TRFX_PROCESS_COLLECTOR_OK, pr_error = [], pr_processes = []\<rparr> (th_win demo_thread))
 \<and> frame_within '' Socket Inventory '' [(2, ''Socket snapshot: no /proc'')] (th_win demo_thread)
     (socket_owner_info_frame TRFX_COLLECTOR_OPEN_FAILED trfx_init_network_snapshot ''no /proc'' (th_win demo_thread))"
  using panel_frames_inside [of "th_win demo_thread" _ _ _ _ _ TRFX_COLLECTOR_OPEN_FAILED "''no /proc''"]
  by (simp add: demo_thread_def snapshot_notice_def)

end
