(* ===== verification/Spec2Isabelle.thy ===== *)
theory Spec2Isabelle
  imports Program PanelFrames Layout Runtime SupportViews Config Utils SocketOwners Connections Actions ProcInfo Wifi
    NetParse NetSnapshot Bandwidth
begin

text \<open>
  A verification development for trafix, a network and system monitor for the terminal written in C.

  \<^bold>\<open>The program.\<close> \<open>src/src/trafix.c\<close> starts \<open>trfx_app.c\<close>, which reads the command line, loads the
  configuration, and either prints one report (\<open>trfx_cli_output.c\<close>), performs one action (\<open>trfx_actions.c\<close>) or
  opens the dashboard (\<open>trfx_dashboard.c\<close>). The dashboard starts one thread per panel (\<open>trfx_threads.c\<close>); the
  threads poll the collectors (\<open>trfx_netinfo.c\<close>, \<open>trfx_connections.c\<close>, \<open>trfx_procinfo.c\<close> and others), which read
  \<open>/proc\<close>, \<open>/sys\<close> and the output of a few commands, and share the flags of \<open>trfx_runtime.c\<close>, the selected support
  view, the focused rows and the audit trail, each under a mutex.

  \<^bold>\<open>The theories.\<close>
  \<^item> \<open>Prelude\<close>, \<open>CLib\<close>, \<open>CText\<close>, \<open>CScan\<close>, \<open>CFloat\<close>, \<open>CSort\<close>: shared lemmas and the part of the C library that the
    program uses, as executable functions: bounded printing, \<open>strtol\<close>, \<open>strtok\<close>, \<open>fgets\<close>, \<open>sscanf\<close>, \<open>inet_ntop\<close>,
    rounded floating point, \<open>qsort\<close> (with the contract as the locale \<open>sorter\<close>).
  \<^item> \<open>OsView\<close>: what is read from the system, as parameters: file contents, directories, links, command output.
  \<^item> \<open>Focus\<close> and \<open>History\<close>: the contracts (locales) of a panel with a focused row and of a bounded history,
    interpreted by the components that provide them.
  \<^item> \<open>Layout\<close> (\<open>trfx_layout.c\<close>): the two columns of the dashboard and their widths.
  \<^item> \<open>Runtime\<close> (\<open>trfx_runtime.c\<close>): the ready, paused and stop flags and the refresh requests of the panels.
  \<^item> \<open>SupportViews\<close> (\<open>trfx_support_views.c\<close>): the registry of the support views and the selected one.
  \<^item> \<open>Config\<close> (\<open>trfx_config.c\<close>): the parser of the configuration files, profiles and their paths.
  \<^item> \<open>Utils\<close> (\<open>trfx_utils.c\<close>): clipping and printing of text into a window.
  \<^item> \<open>SocketOwners\<close> (\<open>trfx_socket_owners.c\<close>): which process holds which socket.
  \<^item> \<open>Connections\<close> (\<open>trfx_connections.c\<close>): the table of connections, its summary and the focused connection.
  \<^item> \<open>Actions\<close> (\<open>trfx_actions.c\<close>): requests to kill or drop, their review, execution and audit.
  \<^item> \<open>ProcInfo\<close> (\<open>trfx_procinfo.c\<close>): the table of processes.
  \<^item> \<open>Wifi\<close> (\<open>trfx_wifi.c\<close>), \<open>NetParse\<close> and \<open>NetSnapshot\<close> (\<open>trfx_netinfo.c\<close>): interfaces, routes, name servers, rates,
    the network snapshot and the ring of samples.
  \<^item> \<open>Bandwidth\<close> (\<open>trfx_bandwidth.c\<close>): the bandwidth report and trend.
  \<^item> \<open>SysInfo\<close> (\<open>trfx_sysinfo.c\<close>, \<open>trfx_meminfo.c\<close>, \<open>trfx_disk.c\<close>, \<open>trfx_cpu.c\<close>): host, memory, disks, processors.
  \<^item> \<open>Diagnostics\<close> (\<open>trfx_diagnostics.c\<close>): the log window, the snapshot of everything, the alerts.
  \<^item> \<open>Cli\<close> (\<open>trfx_cli.c\<close>), \<open>Json\<close> and \<open>CliOutput\<close> (\<open>trfx_cli_output.c\<close>), \<open>App\<close> (\<open>trfx_app.c\<close>, \<open>trafix.c\<close>): the command
    line, a reader of JSON for the specification, the reports, and the commands up to \<open>main\<close>.
  \<^item> \<open>PanelState\<close>, \<open>PanelText\<close>, \<open>PanelViews\<close>, \<open>PanelFrames\<close> (\<open>trfx_threads.c\<close>): the naps of the panel threads and the
    shared bandwidth report, the texts, the drawing functions, and the frame, the round and the loop of each thread.
  \<^item> The dashboard (\<open>trfx_dashboard.c\<close>, \<open>trfx_globals.c\<close>): \<open>DashLayout\<close> computes the places of all windows;
    \<open>DashState\<close> holds the state of the main thread, its wait for a key, the loops of the popups and the colours;
    \<open>DashPopups\<close> the popups and the actions behind them; \<open>DashWindows\<close> the slots, the support column, resizing, every key,
    and the opening and closing of the screen; \<open>DashRun\<close> the main loop and \<open>start_dashboard\<close>, with the locales
    \<open>reading\<close>, \<open>popup_brackets\<close> and \<open>window_relation\<close>, which carry a relation between the states before and after an
    operation through all handlers, and \<open>popup_relation\<close> and \<open>kept_relation\<close>, simpler contracts that give them by
    \<open>sublocale\<close>; \<open>DashKeys\<close> what popups do with given keys; \<open>DashSignals\<close> and \<open>Dashboard\<close> the properties of runs.
  \<^item> \<open>Program\<close>: \<open>main\<close> with the dashboard that it starts, from the static variables to the exit code.

  \<^bold>\<open>How state and operations correspond.\<close> A C structure is a record with the same fields (prefixed, since
  record fields share a name space), an enumeration a datatype, an array with its count the list of its
  filled rows, a character buffer the text before its terminating zero. A function that writes through
  pointers returns the new values; \<open>NULL\<close> is \<open>None\<close>; the static state of a file is a record that its operations
  pass on. Mutexes make each operation atomic, so a concurrent history is a sequence of operations.
  The main thread of the dashboard is a function of its state that ends in one of four ways: \<open>Done\<close> with a value,
  \<open>Waiting\<close> for a key or a thread, \<open>Exited\<close> where the code calls \<open>exit\<close>, \<open>Undefined\<close> where it joins a thread that does not
  exist. Its input is a list of events; an event is a key together with the system as it is from then on and an
  arbitrary change of the shared state by the other threads, so that a theorem on all inputs covers all schedules.
  Whether windows, memory and threads can be had is part of the system, and each failure is a branch of the model.
  Counters of the kernel are 64-bit words; \<open>int\<close> values that cannot overflow in the modelled ranges are integers.

  \<^bold>\<open>What the lemmas show.\<close> For each component: the invariants of its state and that every operation keeps
  them, its functional behaviour on all branches, the equivalence with a simpler specification where there
  is one (the runtime flags, the rings, the sorts), and the round trips of its parsers with what the kernel prints,
  of the command line with the options it stands for, and of the JSON reports with a reader. Runs of the whole program
  send a signal or run a command only when that was asked for, confirmed and permitted: from the command line, and from
  the dashboard only after the key of the action, a choice and a confirmation; a signal goes to the process of the chosen
  row. The dashboard waits
  for nothing but keys, and after \<open>q\<close> every thread has ended and every window is gone but the popups of cancelled
  choices, which are counted; a join waits for the stop flag that is stored, so a request to stop that is forgotten shows as
  a wait. The computed layouts tile the screen, and a resize puts every window to its place in them. The relations that these rest on interpret the locales of \<open>DashRun\<close>:
  \<open>consumes\<close> (keys are only used up, which makes the main loop end), \<open>growing\<close> (the log of executed actions grows by
  allowed ones), \<open>serving\<close> (the windows and threads fit together) and \<open>leaking\<close> (popups stay only after cancelling keys).
  The panel threads end after a stop under every schedule; each of their four waits takes exactly the naps it was asked
  for until something ends it; and the dynamic panels print strictly between their borders, apart from the title and from
  the error texts that the code prints without clipping. Some
  lemmas state defects of the code as it is: a socket can never be dropped, the columns of \<open>ps\<close> are shifted,
  Wi-Fi data are never found, a hardware address is carried over to the next interface, a cancelled choice of a
  process leaves its popup behind, a long error of the snapshot runs over the border, and a cancelled choice of a module leaves the pane without a thread.

  \<^bold>\<open>Bounds.\<close> No fuel is used: a loop is a recursion on a list, a structural recursion, or has a measure; the
  loops that need not end (a thread that waits for the dashboard or for a stop) are partial functions whose value is
  \<open>None\<close> when they do not. The loops of the dashboard end because every turn reads an event of the input, which is any
  finite list. The sizes of arrays and buffers are those of the code.

  \<^bold>\<open>Not modelled.\<close> The drawing calls of ncurses other than the texts that are printed (borders, colours of
  the rows, attributes), \<open>trfx_draw_box\<close> and \<open>start_process_info_thread\<close>, which nothing calls, the timing lines on
  \<open>stderr\<close>, memory allocation failures outside the dashboard, asynchronous signals, and the exact timing. Texts are
  sequences of 8-bit characters without NUL; the reader of JSON takes every byte from 128 on, so the reports are JSON up
  to the validity of UTF-8 in the names they quote. Floating-point values are rounded to the 24 or 53 bits of their type
  without a bound on the exponent: overflow and subnormal numbers are not modelled. The comparison of process ids by
  subtraction and the moves of a focus (always by 1) are on unbounded integers: the ids that \<open>ps\<close> prints and the sizes of
  the tables are far from \<open>2 ^ 31\<close>. The width of the primary column, whose product could leave the range, wraps around.
\<close>

end
